(* ===== verification/Prelude.thy ===== *)
theory Prelude
  imports Main "HOL-Library.Word" "HOL-Library.Multiset" "HOL-Library.List_Lexorder" "HOL-Library.Char_ord"
begin

text \<open>
  The vocabulary every component shares. A Go \<open>string\<close> and a Go \<open>[]byte\<close> are both a
  finite sequence of bytes, so both are the HOL \<open>string\<close> (a \<open>char\<close> is one byte) and the
  conversions \<open>[]byte(s)\<close> and \<open>string(b)\<close> are the identity. A fixed array
  \<open>[N]byte\<close> is a word of \<open>8 * N\<close> bits, so that its length is part of its type;
  \<open>arr_bytes\<close> and \<open>arr_of\<close> convert to and from byte sequences, most significant byte
  first. A fallible Go function returns \<open>goerr + 'a\<close>, \<open>Inl\<close> for a non-nil error.
  Generic lemmas on lists and on big-endian byte sequences follow, with the collections
  \<open>bytes_simps\<close> (lengths and round trips of byte layouts) and \<open>store_simps\<close> (what the
  operations of a store do to its tables).
\<close>

type_synonym bytes = string

named_theorems bytes_simps
named_theorems store_simps

subsection \<open>Big-endian byte sequences\<close>

primrec be_bytes :: "nat \<Rightarrow> nat \<Rightarrow> bytes" where
  "be_bytes 0 k = []"
| "be_bytes (Suc n) k = be_bytes n (k div 256) @ [char_of k]"

definition un_be :: "bytes \<Rightarrow> nat" where
  "un_be bs = foldl (\<lambda>a c. a * 256 + of_char c) 0 bs"

lemma length_be_bytes [simp, bytes_simps]: "length (be_bytes n k) = n"
  by (induction n arbitrary: k) auto

lemma of_char_less_256: "(of_char c :: nat) < 256"
  by simp

lemma un_be_snoc [simp]: "un_be (bs @ [c]) = un_be bs * 256 + of_char c"
  by (simp add: un_be_def)

lemma un_be_Nil [simp]: "un_be [] = 0"
  by (simp add: un_be_def)

lemma un_be_be_bytes: "un_be (be_bytes n k) = k mod 256 ^ n"
proof (induction n arbitrary: k)
  case (Suc n)
  have "un_be (be_bytes (Suc n) k) = (k div 256) mod 256 ^ n * 256 + k mod 256"
    by (simp add: Suc.IH of_char_of)
  also have "\<dots> = k mod 256 ^ Suc n"
    by (simp add: mod_mult2_eq)
  finally show ?case .
qed simp

lemma un_be_less: "un_be bs < 256 ^ length bs"
proof (induction bs rule: rev_induct)
  case (snoc c bs)
  have "(of_char c :: nat) < 256" by simp
  moreover have "un_be bs * 256 + 256 \<le> 256 * 256 ^ length bs"
    using snoc by simp
  ultimately have "un_be bs * 256 + of_char c < 256 * 256 ^ length bs"
    by linarith
  then show ?case by simp
qed simp

lemma be_bytes_un_be: "be_bytes (length bs) (un_be bs) = bs"
proof (induction bs rule: rev_induct)
  case (snoc c bs)
  have lt: "(of_char c :: nat) < 256" by simp
  have "char_of (un_be bs * 256 + of_char c) = c"
    by (simp add: char_of_eq_iff take_bit_eq_mod)
  moreover from lt have "(un_be bs * 256 + of_char c) div 256 = un_be bs"
    by simp
  ultimately show ?case using snoc by simp
qed simp

subsection \<open>Fixed-size arrays\<close>

definition arr_bytes :: "'a::len word \<Rightarrow> bytes" where
  "arr_bytes w = be_bytes (LENGTH('a) div 8) (unat w)"

definition arr_of :: "bytes \<Rightarrow> 'a::len word" where
  "arr_of bs = of_nat (un_be bs)"

lemma length_arr_bytes [simp, bytes_simps]:
  "length (arr_bytes (w :: 'a::len word)) = LENGTH('a) div 8"
  by (simp add: arr_bytes_def)

lemma pow256: "(256::nat) ^ n = 2 ^ (8 * n)"
  by (simp add: power_mult)

lemma arr_of_arr_bytes:
  assumes "8 dvd LENGTH('a::len)"
  shows "arr_of (arr_bytes (w :: 'a word)) = w"
proof -
  have "(256::nat) ^ (LENGTH('a) div 8) = 2 ^ LENGTH('a)"
    using assms by (simp add: pow256)
  then show ?thesis
    by (simp add: arr_of_def arr_bytes_def un_be_be_bytes unsigned_less)
qed

lemma arr_bytes_arr_of:
  assumes "8 * length bs = LENGTH('a::len)"
  shows "arr_bytes (arr_of bs :: 'a word) = bs"
proof -
  have "un_be bs < 2 ^ LENGTH('a)"
    using un_be_less [of bs] assms by (simp add: pow256)
  then have "unat (of_nat (un_be bs) :: 'a word) = un_be bs"
    by (simp add: unat_of_nat take_bit_nat_eq_self)
  moreover have "LENGTH('a) div 8 = length bs"
    using assms by linarith
  ultimately show ?thesis
    by (simp add: arr_bytes_def arr_of_def be_bytes_un_be)
qed

lemma arr_round_trips [simp, bytes_simps]:
  "arr_of (arr_bytes (w8 :: 8 word)) = w8"
  "arr_of (arr_bytes (w16 :: 16 word)) = w16"
  "arr_of (arr_bytes (w32 :: 32 word)) = w32"
  "arr_of (arr_bytes (w128 :: 128 word)) = w128"
  "arr_of (arr_bytes (w256 :: 256 word)) = w256"
  "arr_of (arr_bytes (w448 :: 448 word)) = w448"
  "arr_of (arr_bytes (w512 :: 512 word)) = w512"
  by (rule arr_of_arr_bytes; simp)+

subsection \<open>Slices and results\<close>

definition slice_of :: "nat \<Rightarrow> nat \<Rightarrow> 'a list \<Rightarrow> 'a list" where
  "slice_of lo hi xs = take (hi - lo) (drop lo xs)"

lemma length_slice_of [simp, bytes_simps]: "length (slice_of lo hi xs) = min (length xs - lo) (hi - lo)"
  by (simp add: slice_of_def)

lemma slice_of_append_left [simp]: "hi \<le> length xs \<Longrightarrow> slice_of lo hi (xs @ ys) = slice_of lo hi xs"
  by (simp add: slice_of_def)

lemma slice_of_append_right [simp]:
  "length xs \<le> lo \<Longrightarrow> slice_of lo hi (xs @ ys) = slice_of (lo - length xs) (hi - length xs) ys"
  by (simp add: slice_of_def)

lemma slice_join: "lo \<le> mid \<Longrightarrow> mid \<le> hi \<Longrightarrow> slice_of lo mid xs @ slice_of mid hi xs = slice_of lo hi xs"
  using take_add [of "mid - lo" "hi - mid" "drop lo xs"] by (simp add: slice_of_def)

lemma slice_of_all [simp]: "length xs \<le> hi \<Longrightarrow> slice_of 0 hi xs = xs"
  by (simp add: slice_of_def)

fun is_inr :: "'e + 'a \<Rightarrow> bool" where
  "is_inr (Inr _) = True"
| "is_inr (Inl _) = False"

lemma is_inr_iff: "is_inr r \<longleftrightarrow> (\<exists>x. r = Inr x)"
  by (cases r) auto

text \<open>Error checks in sequence: the first that fails decides.\<close>

lemma seq_None_iff [simp]:
  "(case x of None \<Rightarrow> r | Some e \<Rightarrow> Some e) = None \<longleftrightarrow> x = None \<and> r = None"
  by (cases x) auto

text \<open>The last element where there is one, and what follows the sorted order of a permutation.\<close>

lemma sort_perm_eq:
  fixes xs ys :: "'a::linorder list"
  assumes "mset xs = mset ys"
  shows "sort xs = sort ys"
  using assms by (simp add: properties_for_sort)

lemma list_all_dropWhile_Nil: "list_all P xs \<Longrightarrow> dropWhile P xs = []"
  by (induction xs) auto

lemma dropWhile_all_not: "\<forall>x\<in>set xs. \<not> P x \<Longrightarrow> dropWhile P xs = xs"
  by (cases xs) auto

end
