(* ===== verification/Go_Strings.thy ===== *)
theory Go_Strings
  imports Prelude
begin

text \<open>
  What the program uses of Go's \<open>unicode/utf8\<close>, \<open>unicode\<close>, \<open>strings\<close> and \<open>strconv\<close>.
  A string is a byte sequence that need not be valid UTF-8: \<open>runes\<close> is the sequence a
  \<open>for _, r := range s\<close> loop sees, each code point with the bytes it was read from, an
  undecodable byte being U+FFFD with width 1. \<open>trim_space\<close>, \<open>to_lower\<close> and the splitting
  functions are written on top of it. The case table of \<open>unicode.ToLower\<close> for code points
  from 128 on is data of the standard library: it is the parameter \<open>lower\<close>, and
  \<open>lower_ok\<close> states what the Unicode tables guarantee of it.
\<close>

subsection \<open>UTF-8\<close>

definition byte_in :: "nat \<Rightarrow> nat \<Rightarrow> char \<Rightarrow> bool" where
  "byte_in lo hi c \<longleftrightarrow> lo \<le> of_char c \<and> of_char c \<le> hi"

definition rune_error :: nat where
  "rune_error = 65533"

definition valid_rune :: "nat \<Rightarrow> bool" where
  "valid_rune r \<longleftrightarrow> r \<le> 1114111 \<and> \<not> (55296 \<le> r \<and> r \<le> 57343)"

fun decode_rune :: "string \<Rightarrow> nat \<times> nat" where
  "decode_rune [] = (rune_error, 0)"
| "decode_rune (c0 # s) =
     (let b0 = of_char c0 in
      if b0 < 128 then (b0, 1)
      else if b0 < 194 then (rune_error, 1)
      else if b0 < 224 then
        (case s of
           c1 # _ \<Rightarrow>
             if byte_in 128 191 c1 then ((b0 - 192) * 64 + (of_char c1 - 128), 2)
             else (rune_error, 1)
         | _ \<Rightarrow> (rune_error, 1))
      else if b0 < 240 then
        (case s of
           c1 # c2 # _ \<Rightarrow>
             if byte_in (if b0 = 224 then 160 else 128) (if b0 = 237 then 159 else 191) c1
                \<and> byte_in 128 191 c2
             then ((b0 - 224) * 4096 + (of_char c1 - 128) * 64 + (of_char c2 - 128), 3)
             else (rune_error, 1)
         | _ \<Rightarrow> (rune_error, 1))
      else if b0 < 245 then
        (case s of
           c1 # c2 # c3 # _ \<Rightarrow>
             if byte_in (if b0 = 240 then 144 else 128) (if b0 = 244 then 143 else 191) c1
                \<and> byte_in 128 191 c2 \<and> byte_in 128 191 c3
             then ((b0 - 240) * 262144 + (of_char c1 - 128) * 4096 + (of_char c2 - 128) * 64
                     + (of_char c3 - 128), 4)
             else (rune_error, 1)
         | _ \<Rightarrow> (rune_error, 1))
      else (rune_error, 1))"

lemma decode_rune_width_pos: "0 < snd (decode_rune (c # s))"
  by (simp add: Let_def split: list.split)

function runes :: "string \<Rightarrow> (nat \<times> string) list" where
  "runes [] = []"
| "runes (c # s) =
     (let d = decode_rune (c # s)
      in (fst d, take (snd d) (c # s)) # runes (drop (snd d) (c # s)))"
  by pat_completeness auto
termination
  using decode_rune_width_pos by (relation "measure length") auto

definition encode_rune :: "nat \<Rightarrow> string" where
  "encode_rune r =
     (if r < 128 then [char_of r]
      else if r < 2048 then [char_of (192 + r div 64), char_of (128 + r mod 64)]
      else if \<not> valid_rune r then [char_of (239::nat), char_of (191::nat), char_of (189::nat)]
      else if r < 65536 then
        [char_of (224 + r div 4096), char_of (128 + r div 64 mod 64), char_of (128 + r mod 64)]
      else
        [char_of (240 + r div 262144), char_of (128 + r div 4096 mod 64),
         char_of (128 + r div 64 mod 64), char_of (128 + r mod 64)])"

lemma concat_runes [simp]: "concat (map snd (runes s)) = s"
  by (induction s rule: runes.induct) (simp_all add: Let_def)

lemma encode_rune_nonempty [simp]: "encode_rune r \<noteq> []"
  by (simp add: encode_rune_def)

lemma valid_rune_error [simp]: "valid_rune rune_error"
  by (simp add: valid_rune_def rune_error_def)

text \<open>The code point as its base-64 digits, which is what the encoding writes.\<close>

lemma digits64:
  fixes r :: nat
  obtains a b c d where "r = a * 262144 + b * 4096 + c * 64 + d"
    and "b < 64" "c < 64" "d < 64"
    and "r mod 64 = d" "r div 64 mod 64 = c" "r div 4096 mod 64 = b" "r div 262144 = a"
    and "r div 64 = a * 4096 + b * 64 + c" "r div 4096 = a * 64 + b"
proof -
  let ?a = "r div 262144" and ?b = "r div 4096 mod 64" and ?c = "r div 64 mod 64" and ?d = "r mod 64"
  have h1: "r div 4096 = r div 64 div 64" and h2: "r div 262144 = r div 64 div 64 div 64"
    by (simp_all flip: div_mult2_eq)
  have e1: "r = (r div 64) * 64 + ?d" by simp
  have e2: "r div 64 = (r div 4096) * 64 + ?c" unfolding h1 by simp
  have e3: "r div 4096 = ?a * 64 + ?b" unfolding h1 h2 by simp
  show thesis
  proof (rule that [of ?a ?b ?c ?d])
    show "r = ?a * 262144 + ?b * 4096 + ?c * 64 + ?d" using e1 e2 e3 by linarith
    show "r div 64 = ?a * 4096 + ?b * 64 + ?c" using e2 e3 by linarith
    show "r div 4096 = ?a * 64 + ?b" by (rule e3)
  qed simp_all
qed

lemma decode_two:
  assumes "a < 32" "2 \<le> a" "b < 64"
  shows "decode_rune (char_of (192 + a) # char_of (128 + b) # s) = (a * 64 + b, 2)"
  using assms by (simp add: Let_def byte_in_def)

lemma decode_three:
  assumes "a < 16" "b < 64" "c < 64" "a = 0 \<Longrightarrow> 32 \<le> b" "a = 13 \<Longrightarrow> b \<le> 31"
  shows "decode_rune (char_of (224 + a) # char_of (128 + b) # char_of (128 + c) # s)
         = (a * 4096 + b * 64 + c, 3)"
  using assms by (simp add: Let_def byte_in_def)

lemma decode_four:
  assumes "a < 5" "b < 64" "c < 64" "d < 64" "a = 0 \<Longrightarrow> 16 \<le> b" "a = 4 \<Longrightarrow> b \<le> 15"
  shows "decode_rune (char_of (240 + a) # char_of (128 + b) # char_of (128 + c) # char_of (128 + d) # s)
         = (a * 262144 + b * 4096 + c * 64 + d, 4)"
  using assms by (simp add: Let_def byte_in_def)

lemma decode_encode:
  assumes "valid_rune r"
  shows "decode_rune (encode_rune r @ s) = (r, length (encode_rune r))"
proof -
  obtain a b c d where r: "r = a * 262144 + b * 4096 + c * 64 + d"
    and lt: "b < 64" "c < 64" "d < 64"
    and q: "r mod 64 = d" "r div 64 mod 64 = c" "r div 4096 mod 64 = b" "r div 262144 = a"
      "r div 64 = a * 4096 + b * 64 + c" "r div 4096 = a * 64 + b"
    by (rule digits64 [of r])
  consider "r < 128" | "128 \<le> r" "r < 2048" | "2048 \<le> r" "r < 65536" | "65536 \<le> r" "r \<le> 1114111"
    using assms unfolding valid_rune_def by linarith
  then show ?thesis
  proof cases
    case 1
    then show ?thesis by (simp add: encode_rune_def)
  next
    case 2
    then have ab: "a = 0" "b = 0" using r lt by linarith+
    with 2 r lt have "c < 32" "2 \<le> c" by linarith+
    with ab 2 lt q r decode_two [of c d s] show ?thesis by (simp add: encode_rune_def)
  next
    case 3
    then have a: "a = 0" "b < 16" using r lt by linarith+
    have c: "32 \<le> c" if "b = 0" using that 3 r a lt by linarith
    have "r \<le> 57343" "\<not> (55296 \<le> r \<and> r \<le> 57343)" if "b = 13"
      using that r a lt assms unfolding valid_rune_def by linarith+
    then have c': "c \<le> 31" if "b = 13" using that r a lt by linarith
    have "encode_rune r = [char_of (224 + b), char_of (128 + c), char_of (128 + d)]"
      using 3 assms q a by (simp add: encode_rune_def)
    with decode_three [of b c d s] a lt c c' r show ?thesis by simp
  next
    case 4
    then have a: "a < 5" using r lt by linarith
    have b: "16 \<le> b" if "a = 0" using that 4 r lt by linarith
    have b': "b \<le> 15" if "a = 4" using that 4 r lt by linarith
    have "encode_rune r = [char_of (240 + a), char_of (128 + b), char_of (128 + c), char_of (128 + d)]"
      using 4 assms q by (simp add: encode_rune_def)
    with decode_four [of a b c d s] a lt b b' r show ?thesis by simp
  qed
qed

lemma runes_append_encode:
  assumes "valid_rune r"
  shows "runes (encode_rune r @ s) = (r, encode_rune r) # runes s"
proof -
  obtain c t where ct: "encode_rune r = c # t"
    using encode_rune_nonempty by (cases "encode_rune r") auto
  have "decode_rune (c # t @ s) = (r, length (c # t))"
    using decode_encode [OF assms, of s] ct by simp
  then show ?thesis by (simp add: ct Let_def)
qed

lemma runes_encode:
  "\<forall>r\<in>set rs. valid_rune r \<Longrightarrow>
   runes (concat (map encode_rune rs)) = map (\<lambda>r. (r, encode_rune r)) rs"
  by (induction rs) (simp_all add: runes_append_encode)

lemma decode_rune_valid: "valid_rune (fst (decode_rune s))"
proof -
  show ?thesis
  proof (cases s)
    case s: (Cons c t)
    let ?b = "of_char c :: nat"
    consider "?b < 128" | "128 \<le> ?b" "?b < 194" | "194 \<le> ?b" "?b < 224" | "224 \<le> ?b" "?b < 240"
      | "240 \<le> ?b" "?b < 245" | "245 \<le> ?b"
      by linarith
    then show ?thesis
    proof cases
      case 1
      then show ?thesis by (simp add: s valid_rune_def)
    next
      case 3
      then show ?thesis
        by (cases t) (auto simp: s byte_in_def valid_rune_def rune_error_def)
    next
      case 4
      show ?thesis
      proof (cases "\<exists>c1 c2 u. t = c1 # c2 # u")
        case True
        then obtain c1 c2 u where "t = c1 # c2 # u" by blast
        with 4 show ?thesis
          by (auto simp: s byte_in_def Let_def valid_rune_def rune_error_def split: if_split)
      next
        case False
        with 4 show ?thesis by (simp add: s Let_def split: list.split)
      qed
    next
      case 5
      show ?thesis
      proof (cases "\<exists>c1 c2 c3 u. t = c1 # c2 # c3 # u")
        case True
        then obtain c1 c2 c3 u where "t = c1 # c2 # c3 # u" by blast
        with 5 show ?thesis
          by (auto simp: s byte_in_def Let_def valid_rune_def rune_error_def split: if_split)
      next
        case False
        with 5 show ?thesis by (simp add: s Let_def split: list.split)
      qed
    qed (simp_all add: s)
  qed simp
qed

declare decode_rune.simps [simp del]

lemma decode_rune_Nil [simp]: "decode_rune [] = (rune_error, 0)"
  by (simp add: decode_rune.simps)

lemma decode_rune_ascii [simp]: "of_char c < (128::nat) \<Longrightarrow> decode_rune (c # s) = (of_char c, 1)"
  by (simp add: decode_rune.simps)

lemma runes_valid: "r \<in> set (runes s) \<Longrightarrow> valid_rune (fst r)"
  using decode_rune_valid by (induction s rule: runes.induct) (auto simp: Let_def)

subsection \<open>Spaces and case\<close>

text \<open>\<open>unicode.IsSpace\<close>.\<close>

definition is_space :: "nat \<Rightarrow> bool" where
  "is_space r \<longleftrightarrow> r \<in> {9, 10, 11, 12, 13, 32, 133, 160, 5760, 8232, 8233, 8239, 8287, 12288}
     \<or> (8192 \<le> r \<and> r \<le> 8202)"

definition ascii_lower :: "nat \<Rightarrow> nat" where
  "ascii_lower r = (if 65 \<le> r \<and> r \<le> 90 then r + 32 else r)"

definition rune_lower :: "(nat \<Rightarrow> nat) \<Rightarrow> nat \<Rightarrow> nat" where
  "rune_lower lower r = (if r < 128 then ascii_lower r else lower r)"

definition lower_ok :: "(nat \<Rightarrow> nat) \<Rightarrow> bool" where
  "lower_ok lower \<longleftrightarrow> (\<forall>r. valid_rune r \<longrightarrow>
     valid_rune (rune_lower lower r)
     \<and> rune_lower lower (rune_lower lower r) = rune_lower lower r
     \<and> is_space (rune_lower lower r) = is_space r)"

text \<open>
  \<open>strings.TrimSpace\<close> drops the leading and trailing space runes. A space rune's encoding
  starts with a byte that is no continuation byte, so reading the end backwards sees the same
  runes as the forward reading used here.
\<close>

definition trim_space :: "string \<Rightarrow> string" where
  "trim_space s =
     concat (map snd (rev (dropWhile (is_space \<circ> fst) (rev (dropWhile (is_space \<circ> fst) (runes s))))))"

text \<open>
  \<open>strings.ToLower\<close>: byte by byte for an ASCII string, rune by rune (with \<open>strings.Map\<close>,
  which writes U+FFFD for an undecodable byte) for any other.
\<close>

definition to_lower :: "(nat \<Rightarrow> nat) \<Rightarrow> string \<Rightarrow> string" where
  "to_lower lower s =
     (if list_all (\<lambda>c. of_char c < (128::nat)) s
      then map (\<lambda>c. char_of (ascii_lower (of_char c))) s
      else concat (map (\<lambda>(r, _). encode_rune (rune_lower lower r)) (runes s)))"

lemma runes_ascii:
  "list_all (\<lambda>c. of_char c < (128::nat)) s \<Longrightarrow> runes s = map (\<lambda>c. (of_char c, [c])) s"
  by (induction s) (simp_all add: Let_def)

lemma ascii_lower_less: "r < 128 \<Longrightarrow> ascii_lower r < 128"
  by (simp add: ascii_lower_def)

lemma to_lower_runes:
  "to_lower lower s = concat (map (\<lambda>d. encode_rune (rune_lower lower (fst d))) (runes s))"
proof (cases "list_all (\<lambda>c. of_char c < (128::nat)) s")
  case True
  have "concat (map (\<lambda>c. encode_rune (rune_lower lower (of_char c))) s)
        = map (\<lambda>c. char_of (ascii_lower (of_char c))) s"
    using True by (induction s) (simp_all add: rune_lower_def encode_rune_def ascii_lower_less)
  with True show ?thesis
    by (simp add: to_lower_def runes_ascii comp_def)
next
  case False
  then show ?thesis by (simp add: to_lower_def case_prod_unfold)
qed

lemma runes_to_lower:
  assumes "lower_ok lower"
  shows "runes (to_lower lower s)
         = map (\<lambda>d. (rune_lower lower (fst d), encode_rune (rune_lower lower (fst d)))) (runes s)"
proof -
  have "\<forall>r \<in> set (map (\<lambda>d. rune_lower lower (fst d)) (runes s)). valid_rune r"
    using assms runes_valid by (auto simp: lower_ok_def)
  from runes_encode [OF this] show ?thesis
    by (simp add: to_lower_runes comp_def)
qed

lemma trim_space_no_space:
  assumes "\<forall>d \<in> set (runes s). \<not> is_space (fst d)"
  shows "trim_space s = s"
proof -
  have 1: "dropWhile (is_space \<circ> fst) (runes s) = runes s"
    using assms by (intro dropWhile_all_not) auto
  have 2: "dropWhile (is_space \<circ> fst) (rev (runes s)) = rev (runes s)"
    using assms by (intro dropWhile_all_not) auto
  show ?thesis by (simp add: trim_space_def 1 2)
qed

lemma to_lower_idem:
  assumes "lower_ok lower"
  shows "to_lower lower (to_lower lower s) = to_lower lower s"
proof -
  have "rune_lower lower (rune_lower lower (fst d)) = rune_lower lower (fst d)"
    if "d \<in> set (runes s)" for d
    using assms runes_valid [OF that] by (simp add: lower_ok_def)
  then have "map (\<lambda>d. encode_rune (rune_lower lower (rune_lower lower (fst d)))) (runes s)
             = map (\<lambda>d. encode_rune (rune_lower lower (fst d))) (runes s)"
    by simp
  moreover have "to_lower lower (to_lower lower s)
        = concat (map (\<lambda>d. encode_rune (rune_lower lower (rune_lower lower (fst d)))) (runes s))"
    by (simp add: to_lower_runes [of lower "to_lower lower s"] runes_to_lower [OF assms] comp_def)
  ultimately show ?thesis
    by (simp only: to_lower_runes [of lower s])
qed

lemma runes_Nil_iff [simp]: "runes s = [] \<longleftrightarrow> s = []"
  by (cases s) (simp_all add: Let_def)

lemma to_lower_Nil_iff: "to_lower lower s = [] \<longleftrightarrow> s = []"
  by (cases "runes s") (auto simp: to_lower_runes)

subsection \<open>Splitting, joining, decimal numbers\<close>

text \<open>\<open>strings.Split(s, sep)\<close> for a one-byte separator, \<open>strings.Join\<close>, \<open>strings.HasPrefix\<close>,
  \<open>strings.Trim\<close> with a one-byte cutset and \<open>strings.ReplaceAll\<close> of one byte.\<close>

fun split_on :: "char \<Rightarrow> string \<Rightarrow> string list" where
  "split_on sep [] = [[]]"
| "split_on sep (c # s) =
     (if c = sep then [] # split_on sep s
      else (case split_on sep s of [] \<Rightarrow> [[c]] | p # ps \<Rightarrow> (c # p) # ps))"

fun join :: "string \<Rightarrow> string list \<Rightarrow> string" where
  "join sep [] = []"
| "join sep [p] = p"
| "join sep (p # ps) = p @ sep @ join sep ps"

fun has_prefix :: "string \<Rightarrow> string \<Rightarrow> bool" where
  "has_prefix s [] = True"
| "has_prefix [] (p # ps) = False"
| "has_prefix (c # s) (p # ps) = (c = p \<and> has_prefix s ps)"

definition trim_byte :: "char \<Rightarrow> string \<Rightarrow> string" where
  "trim_byte c s = rev (dropWhile ((=) c) (rev (dropWhile ((=) c) s)))"

definition replace_byte :: "char \<Rightarrow> string \<Rightarrow> string \<Rightarrow> string" where
  "replace_byte c t s = concat (map (\<lambda>x. if x = c then t else [x]) s)"

lemma split_on_nonempty [simp]: "split_on sep s \<noteq> []"
  by (induction s) (auto split: list.split)

lemma split_on_no_sep: "p \<in> set (split_on sep s) \<Longrightarrow> sep \<notin> set p"
  by (induction s arbitrary: p) (auto split: list.splits if_splits)

lemma split_on_atom: "sep \<notin> set s \<Longrightarrow> split_on sep s = [s]"
  by (induction s) auto

lemma split_on_append: "sep \<notin> set p \<Longrightarrow> split_on sep (p @ sep # s) = p # split_on sep s"
  by (induction p) auto

lemma join_split_on: "join [sep] (split_on sep s) = s"
proof (induction s)
  case (Cons c s)
  then show ?case
    by (cases "split_on sep s"; cases "tl (split_on sep s)") auto
qed simp

lemma has_prefix_iff: "has_prefix s p \<longleftrightarrow> (\<exists>t. s = p @ t)"
  by (induction s p rule: has_prefix.induct) auto

fun digits_of :: "nat \<Rightarrow> string" where
  "digits_of n =
     (if n < 10 then [char_of (48 + n)] else digits_of (n div 10) @ [char_of (48 + n mod 10)])"

declare digits_of.simps [simp del]

definition itoa :: "int \<Rightarrow> string" where
  "itoa i = (if i < 0 then ''-'' @ digits_of (nat (- i)) else digits_of (nat i))"

definition is_digit :: "char \<Rightarrow> bool" where
  "is_digit c \<longleftrightarrow> byte_in 48 57 c"

definition digits_val :: "string \<Rightarrow> nat" where
  "digits_val s = foldl (\<lambda>a c. a * 10 + (of_char c - 48)) 0 s"

text \<open>\<open>strconv.Atoi\<close> on a 64-bit platform: an optional sign, then one or more digits, the
  value in the range of \<open>int64\<close>.\<close>

definition atoi :: "string \<Rightarrow> int option" where
  "atoi s =
     (let (neg, ds) = (case s of
          c # t \<Rightarrow> if c = CHR ''-'' then (True, t) else if c = CHR ''+'' then (False, t) else (False, s)
        | [] \<Rightarrow> (False, []));
        v = (if neg then - int (digits_val ds) else int (digits_val ds))
      in if ds \<noteq> [] \<and> list_all is_digit ds \<and> - (2 ^ 63) \<le> v \<and> v < 2 ^ 63 then Some v else None)"

lemma digits_val_snoc [simp]: "digits_val (s @ [c]) = digits_val s * 10 + (of_char c - 48)"
  by (simp add: digits_val_def)

lemma digits_of_ok:
  "list_all is_digit (digits_of n) \<and> digits_val (digits_of n) = n \<and> digits_of n \<noteq> []"
proof (induction n rule: digits_of.induct)
  case (1 n)
  show ?case
  proof (cases "n < 10")
    case True
    then show ?thesis
      by (simp add: digits_of.simps [of n] is_digit_def byte_in_def digits_val_def)
  next
    case False
    have "n mod 10 < 10" by simp
    with False 1 show ?thesis
      by (simp add: digits_of.simps [of n] is_digit_def byte_in_def)
  qed
qed

lemma digits_of_hd: "hd (digits_of n) = char_of (48 :: nat) \<longleftrightarrow> n = 0"
proof (induction n rule: digits_of.induct)
  case (1 n)
  have c: "char_of (48 + n) = (char_of (48 :: nat) :: char) \<longleftrightarrow> n = 0" if "n < 10"
    using that by (simp add: char_of_eq_iff take_bit_eq_mod)
  have q: "n div 10 = 0 \<longleftrightarrow> n < 10" by auto
  show ?case
    using 1 digits_of_ok [of "n div 10"] c q by (auto simp: digits_of.simps [of n])
qed

end
