(* ===== verification/Go_Time.thy ===== *)
theory Go_Time
  imports Go_Strings
begin

text \<open>
  Go's \<open>time.Time\<close> as far as the program uses it: an instant in nanoseconds since the zero
  time (0001-01-01T00:00:00Z) and the offset of its location in seconds east of UTC. Instants
  are unbounded integers (the wrap-around of \<open>Add\<close> some 292 billion years out is not
  modelled), durations saturate at the range of \<open>int64\<close> as \<open>Time.Sub\<close> does.
\<close>

record gotime =
  instant :: int
  zone :: int

definition nanos_per_second :: int where
  "nanos_per_second = 1000000000"

definition time_is_zero :: "gotime \<Rightarrow> bool" where
  "time_is_zero t \<longleftrightarrow> instant t = 0"

definition time_after :: "gotime \<Rightarrow> gotime \<Rightarrow> bool" where
  "time_after a b \<longleftrightarrow> instant b < instant a"

definition time_utc :: "gotime \<Rightarrow> gotime" where
  "time_utc t = t\<lparr>zone := 0\<rparr>"

definition time_add :: "gotime \<Rightarrow> int \<Rightarrow> gotime" where
  "time_add t d = t\<lparr>instant := instant t + d\<rparr>"

definition time_sub :: "gotime \<Rightarrow> gotime \<Rightarrow> int" where
  "time_sub a b = max (- (2 ^ 63)) (min (2 ^ 63 - 1) (instant a - instant b))"

definition truncate_micros :: "gotime \<Rightarrow> gotime" where
  "truncate_micros t = t\<lparr>instant := instant t - instant t mod 1000\<rparr>"

lemma instant_utc [simp]: "instant (time_utc t) = instant t"
  by (simp add: time_utc_def)

lemma instant_add [simp]: "instant (time_add t d) = instant t + d"
  by (simp add: time_add_def)

lemma time_utc_idem [simp]: "time_utc (time_utc t) = time_utc t"
  by (simp add: time_utc_def)

subsection \<open>Printing\<close>

text \<open>The proleptic Gregorian date of a day counted from 0001-01-01.\<close>

definition civil_of_days :: "int \<Rightarrow> int \<times> int \<times> int" where
  "civil_of_days days =
     (let z = days + 306;
          era = z div 146097;
          doe = z mod 146097;
          c = min 3 (doe div 36524);
          r = doe - 36524 * c;
          q = r div 1461;
          s = r - 1461 * q;
          a = min 3 (s div 365);
          doy = s - 365 * a;
          mp = (5 * doy + 2) div 153;
          d = doy - (153 * mp + 2) div 5 + 1;
          m = (if mp < 10 then mp + 3 else mp - 9);
          y = 400 * era + 100 * c + 4 * q + a + (if m \<le> 2 then 1 else 0)
      in (y, m, d))"

definition pad_digits :: "nat \<Rightarrow> int \<Rightarrow> string" where
  "pad_digits w i =
     (let ds = digits_of (nat \<bar>i\<bar>)
      in (if i < 0 then ''-'' else []) @ replicate (w - length ds) CHR ''0'' @ ds)"

definition drop_zeros :: "string \<Rightarrow> string" where
  "drop_zeros s = rev (dropWhile (\<lambda>c. c = CHR ''0'') (rev s))"

definition zone_suffix :: "int \<Rightarrow> string" where
  "zone_suffix off =
     (if off = 0 then ''Z''
      else let mins = \<bar>off\<bar> div 60
           in (if off < 0 \<and> mins \<noteq> 0 then ''-'' else ''+'')
              @ pad_digits 2 (mins div 60) @ '':'' @ pad_digits 2 (mins mod 60))"

definition local_seconds :: "gotime \<Rightarrow> int" where
  "local_seconds t = (instant t + zone t * nanos_per_second) div nanos_per_second"

definition format_with :: "string \<Rightarrow> gotime \<Rightarrow> string" where
  "format_with frac t =
     (let secs = local_seconds t;
          (y, m, d) = civil_of_days (secs div 86400);
          sod = secs mod 86400
      in pad_digits 4 y @ ''-'' @ pad_digits 2 m @ ''-'' @ pad_digits 2 d @ ''T''
         @ pad_digits 2 (sod div 3600) @ '':'' @ pad_digits 2 (sod div 60 mod 60) @ '':''
         @ pad_digits 2 (sod mod 60) @ frac @ zone_suffix (zone t))"

text \<open>\<open>Format(time.RFC3339)\<close> and \<open>Format(time.RFC3339Nano)\<close>.\<close>

definition format_rfc3339 :: "gotime \<Rightarrow> string" where
  "format_rfc3339 t = format_with [] t"

definition format_rfc3339_nano :: "gotime \<Rightarrow> string" where
  "format_rfc3339_nano t =
     (let ns = instant t mod nanos_per_second
      in format_with (if ns = 0 then [] else ''.'' @ drop_zeros (pad_digits 9 ns)) t)"

text \<open>What \<open>Time.MarshalJSON\<close> refuses: a year of more than four digits, an offset of a day.\<close>

definition time_marshal_error :: "gotime \<Rightarrow> string option" where
  "time_marshal_error t =
     (let (y, _, _) = civil_of_days (local_seconds t div 86400) in
      if y < 0 \<or> 9999 < y then Some ''year outside of range [0,9999]''
      else if 86400 \<le> \<bar>zone t\<bar> then Some ''timezone hour outside of range [0,23]''
      else None)"

end
