(* ===== verification/Go_Encoding.thy ===== *)
theory Go_Encoding
  imports Go_Strings
begin

text \<open>
  \<open>encoding/hex\<close> and \<open>encoding/base64\<close> (\<open>StdEncoding\<close>), as far as the program uses them.
  \<open>hex_encode\<close> writes two lower-case digits a byte, which is also what \<open>%x\<close> prints of a byte
  slice. \<open>b64_decode\<close> skips CR and LF anywhere, wants padding at the end only and does not
  look at the bits of the last digit that no byte uses.
\<close>

subsection \<open>Hexadecimal\<close>

definition hex_digit :: "nat \<Rightarrow> char" where
  "hex_digit n = (if n < 10 then char_of (48 + n) else char_of (87 + n))"

definition hex_encode :: "bytes \<Rightarrow> string" where
  "hex_encode bs = concat (map (\<lambda>c. [hex_digit (of_char c div 16), hex_digit (of_char c mod 16)]) bs)"

definition is_hex :: "char \<Rightarrow> bool" where
  "is_hex c \<longleftrightarrow> byte_in 48 57 c \<or> byte_in 97 102 c"

definition hex_value :: "char \<Rightarrow> nat" where
  "hex_value c = (if of_char c < (58::nat) then of_char c - 48 else of_char c - 87)"

fun hex_decode :: "string \<Rightarrow> bytes" where
  "hex_decode (a # b # s) = char_of (hex_value a * 16 + hex_value b) # hex_decode s"
| "hex_decode _ = []"

lemma hex_encode_Nil [simp]: "hex_encode [] = []"
  by (simp add: hex_encode_def)

lemma hex_encode_Cons [simp]:
  "hex_encode (c # bs) = hex_digit (of_char c div 16) # hex_digit (of_char c mod 16) # hex_encode bs"
  by (simp add: hex_encode_def)

lemma length_hex_encode [simp, bytes_simps]: "length (hex_encode bs) = 2 * length bs"
  by (induction bs) auto

lemma hex_value_digit [simp]: "n < 16 \<Longrightarrow> hex_value (hex_digit n) = n"
  by (simp add: hex_value_def hex_digit_def)

lemma is_hex_digit: "n < 16 \<Longrightarrow> is_hex (hex_digit n)"
  by (auto simp: is_hex_def hex_digit_def byte_in_def)

lemma of_char_halves: "(of_char c :: nat) div 16 < 16" "(of_char c :: nat) mod 16 < 16"
  using of_char_less_256 [of c] by (simp_all add: less_mult_imp_div_less)

lemma hex_encode_hex: "c \<in> set (hex_encode bs) \<Longrightarrow> is_hex c"
  by (induction bs) (auto simp: is_hex_digit of_char_halves)

lemma hex_decode_encode [simp]: "hex_decode (hex_encode bs) = bs"
  by (induction bs) (simp_all add: of_char_halves)

lemma hex_encode_inj: "hex_encode a = hex_encode b \<longleftrightarrow> a = b"
  by (metis hex_decode_encode)

subsection \<open>Base 64\<close>

definition b64_digit :: "nat \<Rightarrow> char" where
  "b64_digit n =
     (if n < 26 then char_of (65 + n) else if n < 52 then char_of (71 + n)
      else if n < 62 then char_of (n - 4) else if n = 62 then CHR ''+'' else CHR ''/'')"

definition b64_value :: "char \<Rightarrow> nat option" where
  "b64_value c =
     (if byte_in 65 90 c then Some (of_char c - 65)
      else if byte_in 97 122 c then Some (of_char c - 71)
      else if byte_in 48 57 c then Some (of_char c + 4)
      else if c = CHR ''+'' then Some 62 else if c = CHR ''/'' then Some 63 else None)"

fun b64_encode :: "bytes \<Rightarrow> string" where
  "b64_encode [] = []"
| "b64_encode [a] =
     [b64_digit (of_char a div 4), b64_digit (of_char a mod 4 * 16), CHR ''='', CHR ''='']"
| "b64_encode [a, b] =
     [b64_digit (of_char a div 4), b64_digit (of_char a mod 4 * 16 + of_char b div 16),
      b64_digit (of_char b mod 16 * 4), CHR ''='']"
| "b64_encode (a # b # c # bs) =
     [b64_digit (of_char a div 4), b64_digit (of_char a mod 4 * 16 + of_char b div 16),
      b64_digit (of_char b mod 16 * 4 + of_char c div 64), b64_digit (of_char c mod 64)]
     @ b64_encode bs"

text \<open>One group of four digits, the last group alone may be padded.\<close>

fun b64_quanta :: "string \<Rightarrow> bytes option" where
  "b64_quanta [] = Some []"
| "b64_quanta (a # b # c # d # s) =
     (case (b64_value a, b64_value b) of
        (Some w, Some x) \<Rightarrow>
          (case (b64_value c, b64_value d) of
             (Some y, Some z) \<Rightarrow>
               (case b64_quanta s of
                  None \<Rightarrow> None
                | Some bs \<Rightarrow>
                    Some (char_of (w * 4 + x div 16) # char_of (x mod 16 * 16 + y div 4)
                          # char_of (y mod 4 * 64 + z) # bs))
           | (Some y, None) \<Rightarrow>
               if d = CHR ''='' \<and> s = []
               then Some [char_of (w * 4 + x div 16), char_of (x mod 16 * 16 + y div 4)]
               else None
           | (None, _) \<Rightarrow>
               if c = CHR ''='' \<and> d = CHR ''='' \<and> s = []
               then Some [char_of (w * 4 + x div 16)] else None)
      | _ \<Rightarrow> None)"
| "b64_quanta _ = None"

definition b64_decode :: "string \<Rightarrow> bytes option" where
  "b64_decode s = b64_quanta (filter (\<lambda>c. of_char c \<noteq> (10::nat) \<and> of_char c \<noteq> (13::nat)) s)"

lemma b64_value_digit [simp]: "n < 64 \<Longrightarrow> b64_value (b64_digit n) = Some n"
  by (simp add: b64_value_def b64_digit_def byte_in_def) (linarith | auto)+

lemma b64_value_pad [simp]: "b64_value CHR ''='' = None"
  by (simp add: b64_value_def byte_in_def)

lemma b64_digit_no_newline:
  "n < 64 \<Longrightarrow> of_char (b64_digit n) \<noteq> (10::nat) \<and> of_char (b64_digit n) \<noteq> (13::nat)"
  by (auto simp: b64_digit_def)

lemma of_char_quarters:
  "(of_char a :: nat) div 4 < 64" "(of_char a :: nat) mod 4 * 16 < 64"
  "(of_char a :: nat) mod 4 * 16 + (of_char b :: nat) div 16 < 64"
  "(of_char b :: nat) mod 16 * 4 < 64"
  "(of_char b :: nat) mod 16 * 4 + (of_char c :: nat) div 64 < 64"
  "(of_char c :: nat) mod 64 < 64"
proof -
  have q: "(of_char a :: nat) mod 4 \<le> 3" "(of_char b :: nat) mod 16 \<le> 15"
    using mod_less_divisor [of 4 "of_char a"] mod_less_divisor [of 16 "of_char b"] by simp_all
  have d: "(of_char b :: nat) div 16 \<le> 15" "(of_char c :: nat) div 64 \<le> 3"
    using of_char_less_256 [of b] of_char_less_256 [of c] by linarith+
  show "(of_char a :: nat) div 4 < 64" using of_char_less_256 [of a] by linarith
  show "(of_char a :: nat) mod 4 * 16 < 64" "(of_char a :: nat) mod 4 * 16 + (of_char b :: nat) div 16 < 64"
    "(of_char b :: nat) mod 16 * 4 < 64" "(of_char b :: nat) mod 16 * 4 + (of_char c :: nat) div 64 < 64"
    using q d by linarith+
  show "(of_char c :: nat) mod 64 < 64" by simp
qed

lemma b64_encode_no_newline:
  "ch \<in> set (b64_encode bs) \<Longrightarrow> of_char ch \<noteq> (10::nat) \<and> of_char ch \<noteq> (13::nat)"
  by (induction bs rule: b64_encode.induct)
     (auto simp: b64_digit_no_newline of_char_quarters)

lemma rejoin_bytes:
  "(of_char a :: nat) div 4 * 4 + (of_char a mod 4 * 16 + y) div 16 = of_char a" if "y < 16" for y
proof -
  have "(of_char a mod 4 * 16 + y) div 16 = (of_char a :: nat) mod 4" using that by simp
  then show ?thesis by simp
qed

lemma b64_quanta_encode: "b64_quanta (b64_encode bs) = Some bs"
proof (induction bs rule: b64_encode.induct)
  case (2 a)
  show ?case using rejoin_bytes [of 0 a] by (simp add: of_char_quarters)
next
  case (3 a b)
  have "(of_char b :: nat) div 16 < 16" by (rule of_char_halves)
  moreover have "(of_char a mod 4 * 16 + of_char b div 16) mod 16 = (of_char b :: nat) div 16"
    using calculation by simp
  ultimately show ?case
    using rejoin_bytes [of "of_char b div 16" a] by (simp add: of_char_quarters)
next
  case (4 a b c bs)
  have b: "(of_char b :: nat) div 16 < 16" and c: "(of_char c :: nat) div 64 < 4"
    using of_char_less_256 [of b] of_char_less_256 [of c] by linarith+
  have "(of_char a mod 4 * 16 + of_char b div 16) mod 16 = (of_char b :: nat) div 16"
    using b by simp
  moreover have "(of_char b mod 16 * 4 + of_char c div 64) div 4 = (of_char b :: nat) mod 16"
    using c by simp
  moreover have "(of_char b mod 16 * 4 + of_char c div 64) mod 4 = (of_char c :: nat) div 64"
    using c by simp
  ultimately show ?case
    using rejoin_bytes [of "of_char b div 16" a] b 4 by (simp add: of_char_quarters)
qed simp

lemma b64_decode_encode: "b64_decode (b64_encode bs) = Some bs"
proof -
  have "filter (\<lambda>c. of_char c \<noteq> (10::nat) \<and> of_char c \<noteq> (13::nat)) (b64_encode bs) = b64_encode bs"
    using b64_encode_no_newline by (simp add: filter_id_conv)
  then show ?thesis by (simp add: b64_decode_def b64_quanta_encode)
qed

subsection \<open>The verb q\<close>

text \<open>\<open>strconv.Quote\<close>, which \<open>fmt\<close> uses for \<open>%q\<close>. \<open>printable\<close> is \<open>strconv.IsPrint\<close> above ASCII; a
  byte that is not part of a code point is a \<open>rune_error\<close> of one byte.\<close>

definition quote_rune :: "(nat \<Rightarrow> bool) \<Rightarrow> nat \<times> string \<Rightarrow> string" where
  "quote_rune printable d =
     (let r = fst d; hex = (\<lambda>i. hex_digit (r div 16 ^ i mod 16)); bs = CHR 0x5C in
      if r = rune_error \<and> length (snd d) = 1 then bs # ''x'' @ hex_encode (snd d)
      else if r = 34 \<or> r = 92 then [bs, char_of r]
      else if (if r < 128 then 32 \<le> r \<and> r < 127 else printable r) then encode_rune r
      else if r = 7 then bs # ''a'' else if r = 8 then bs # ''b'' else if r = 12 then bs # ''f''
      else if r = 10 then bs # ''n'' else if r = 13 then bs # ''r'' else if r = 9 then bs # ''t''
      else if r = 11 then bs # ''v''
      else if r < 32 \<or> r = 127 then bs # ''x'' @ [hex 1, hex 0]
      else if r < 65536 then bs # ''u'' @ map hex [3, 2, 1, 0]
      else bs # ''U'' @ map hex [7, 6, 5, 4, 3, 2, 1, 0])"

definition quote_text :: "(nat \<Rightarrow> bool) \<Rightarrow> string \<Rightarrow> string" where
  "quote_text printable s = [CHR 0x22] @ concat (map (quote_rune printable) (runes s)) @ [CHR 0x22]"

end
