(* ===== verification/Go_Json.thy ===== *)
theory Go_Json
  imports Go_Time Go_Encoding
begin

text \<open>
  \<open>encoding/json\<close>, the encoding side. \<open>json\<close> is the value handed to \<open>json.Marshal\<close>: a
  struct or a map is a \<open>JObj\<close> of its fields in output order (\<open>json_map\<close> sorts the keys, as
  \<open>Marshal\<close> does for a Go map), a number is its literal, a \<open>json.RawMessage\<close> is \<open>JRaw\<close>
  of bytes that already are JSON. \<open>marshal\<close> writes the compact form with Go's escapes.
\<close>

datatype json =
    JNull
  | JBool bool
  | JNum string
  | JStr string
  | JArr "json list"
  | JObj "(string \<times> json) list"
  | JRaw string

definition backslash :: char where
  "backslash = CHR 0x5C"

definition quote :: char where
  "quote = CHR 0x22"

text \<open>One code point of a string: its escape, or the bytes it was read from.\<close>

definition json_escape :: "nat \<times> string \<Rightarrow> string" where
  "json_escape d =
     (let r = fst d; seg = snd d in
      if r = 34 \<or> r = 92 then backslash # seg
      else if r = 8 then [backslash, CHR ''b'']
      else if r = 12 then [backslash, CHR ''f'']
      else if r = 10 then [backslash, CHR ''n'']
      else if r = 13 then [backslash, CHR ''r'']
      else if r = 9 then [backslash, CHR ''t'']
      else if r < 32 \<or> r = 60 \<or> r = 62 \<or> r = 38
        then backslash # ''u00'' @ [hex_digit (r div 16), hex_digit (r mod 16)]
      else if r = rune_error \<and> length seg = 1 then backslash # ''ufffd''
      else if r = 8232 \<or> r = 8233 then backslash # ''u202'' @ [hex_digit (r mod 16)]
      else seg)"

definition json_string :: "string \<Rightarrow> string" where
  "json_string s = quote # concat (map json_escape (runes s)) @ [quote]"

fun marshal :: "json \<Rightarrow> string" where
  "marshal JNull = ''null''"
| "marshal (JBool b) = (if b then ''true'' else ''false'')"
| "marshal (JNum n) = n"
| "marshal (JStr s) = json_string s"
| "marshal (JArr xs) = ''['' @ join '','' (map marshal xs) @ '']''"
| "marshal (JObj kvs) =
     ''{'' @ join '','' (map (\<lambda>kv. json_string (fst kv) @ '':'' @ marshal (snd kv)) kvs) @ ''}''"
| "marshal (JRaw s) = s"

definition json_map :: "(string \<times> json) list \<Rightarrow> json" where
  "json_map kvs = JObj (sort_key fst kvs)"

definition json_nat :: "nat \<Rightarrow> json" where
  "json_nat n = JNum (digits_of n)"

definition json_strings :: "string list \<Rightarrow> json" where
  "json_strings xs = JArr (map JStr xs)"

text \<open>A slice of strings: a nil slice is \<open>null\<close>. A string field with \<open>omitempty\<close>.\<close>

definition json_slice :: "string list option \<Rightarrow> json" where
  "json_slice xs = (case xs of None \<Rightarrow> JNull | Some ys \<Rightarrow> json_strings ys)"

definition omit_empty :: "string \<Rightarrow> string \<Rightarrow> (string \<times> json) list" where
  "omit_empty k v = (if v = [] then [] else [(k, JStr v)])"

definition json_time :: "gotime \<Rightarrow> json" where
  "json_time t = JStr (format_rfc3339_nano t)"

text \<open>The text of the error \<open>json.Marshal\<close> returns for the first of these times it cannot print.\<close>

fun times_marshal_error :: "gotime list \<Rightarrow> string option" where
  "times_marshal_error [] = None"
| "times_marshal_error (t # ts) =
     (case time_marshal_error t of
        Some m \<Rightarrow> Some (''json: error calling MarshalJSON for type time.Time: Time.MarshalJSON: '' @ m)
      | None \<Rightarrow> times_marshal_error ts)"

end
