(* ===== verification/Go_Json_Read.thy ===== *)
theory Go_Json_Read
  imports Go_Json "HOL-Library.AList"
begin

text \<open>
  \<open>encoding/json\<close>, the decoding side, for values decoded into an \<open>any\<close> with \<open>UseNumber\<close>:
  \<open>read_value\<close> reads one value and returns the bytes after it, \<open>json_decode\<close> is one call of
  \<open>Decoder.Decode\<close>, \<open>json_valid\<close> is \<open>json.Valid\<close>. The grammar is that of the package's scanner,
  the unquoting of strings replaces what is not UTF-8 and lone surrogates by U+FFFD, an object is
  a map in which the last value of a key counts, and at most 10000 arrays and objects nest. The
  lemmas show that what \<open>marshal\<close> prints of a value without raw parts is read back as that value.
\<close>

subsection \<open>Strings\<close>

text \<open>\<open>getu4\<close>, and the two halves of a code point outside the basic plane.\<close>

definition hex_any :: "char \<Rightarrow> nat option" where
  "hex_any c =
     (if byte_in 48 57 c then Some (of_char c - 48)
      else if byte_in 97 102 c then Some (of_char c - 87)
      else if byte_in 65 70 c then Some (of_char c - 55) else None)"

fun read_u4 :: "string \<Rightarrow> (nat \<times> string) option" where
  "read_u4 (a # b # c # d # s) =
     (case (hex_any a, hex_any b, hex_any c, hex_any d) of
        (Some w, Some x, Some y, Some z) \<Rightarrow> Some (w * 4096 + x * 256 + y * 16 + z, s)
      | _ \<Rightarrow> None)"
| "read_u4 _ = None"

definition is_surrogate :: "nat \<Rightarrow> bool" where
  "is_surrogate r \<longleftrightarrow> 55296 \<le> r \<and> r < 57344"

text \<open>After a surrogate: the code point it makes with the escape that follows, if there is one.\<close>

definition read_low :: "nat \<Rightarrow> string \<Rightarrow> (nat \<times> string) option" where
  "read_low hi s =
     (case s of
        a # b # t \<Rightarrow>
          if a = backslash \<and> b = CHR ''u'' then
            (case read_u4 t of
               Some (lo, rest) \<Rightarrow>
                 if hi < 56320 \<and> 56320 \<le> lo \<and> lo < 57344
                 then Some ((hi - 55296) * 1024 + (lo - 56320) + 65536, rest) else None
             | None \<Rightarrow> None)
          else None
      | _ \<Rightarrow> None)"

definition simple_escape :: "char \<Rightarrow> char option" where
  "simple_escape e =
     (if e = quote \<or> e = backslash \<or> e = CHR ''/'' then Some e
      else if e = CHR ''b'' then Some (char_of (8 :: nat))
      else if e = CHR ''f'' then Some (char_of (12 :: nat))
      else if e = CHR ''n'' then Some (char_of (10 :: nat))
      else if e = CHR ''r'' then Some (char_of (13 :: nat))
      else if e = CHR ''t'' then Some (char_of (9 :: nat)) else None)"

lemma read_u4_shorter: "read_u4 s = Some (r, t) \<Longrightarrow> length s = length t + 4"
  by (induction s rule: read_u4.induct) (auto split: option.splits)

lemma read_low_shorter: "read_low hi s = Some (r, t) \<Longrightarrow> length t < length s"
  by (auto simp: read_low_def dest: read_u4_shorter split: list.splits option.splits if_splits)

definition cons_read :: "string \<Rightarrow> (string \<times> string) option \<Rightarrow> (string \<times> string) option" where
  "cons_read out r = map_option (\<lambda>(t, rest). (out @ t, rest)) r"

text \<open>The characters of a string literal up to its closing quote, unquoted.\<close>

function read_chars :: "string \<Rightarrow> (string \<times> string) option" where
  "read_chars [] = None"
| "read_chars (c # s) =
     (if c = quote then Some ([], s)
      else if c = backslash then
        (case s of
           [] \<Rightarrow> None
         | e # t \<Rightarrow>
             if e = CHR ''u'' then
               (case read_u4 t of
                  None \<Rightarrow> None
                | Some (r, rest) \<Rightarrow>
                    if is_surrogate r then
                      (case read_low r rest of
                         Some (q, rest') \<Rightarrow> cons_read (encode_rune q) (read_chars rest')
                       | None \<Rightarrow> cons_read (encode_rune rune_error) (read_chars rest))
                    else cons_read (encode_rune r) (read_chars rest))
             else (case simple_escape e of
                     None \<Rightarrow> None
                   | Some ch \<Rightarrow> cons_read [ch] (read_chars t)))
      else if of_char c < (32 :: nat) then None
      else
        let d = decode_rune (c # s)
        in cons_read (encode_rune (fst d)) (read_chars (drop (snd d) (c # s))))"
  by pat_completeness auto
termination
  using decode_rune_width_pos
  by (relation "measure length") (auto dest!: read_u4_shorter read_low_shorter)

subsection \<open>Numbers\<close>

text \<open>The literal of a number is kept as it is, as \<open>UseNumber\<close> does.\<close>

definition digits1 :: "string \<Rightarrow> (string \<times> string) option" where
  "digits1 s = (case takeWhile is_digit s of [] \<Rightarrow> None | ds \<Rightarrow> Some (ds, dropWhile is_digit s))"

definition read_int :: "string \<Rightarrow> (string \<times> string) option" where
  "read_int s =
     (case s of
        c # t \<Rightarrow> if c = CHR ''0'' then Some ([c], t) else digits1 s
      | [] \<Rightarrow> None)"

definition read_frac :: "string \<Rightarrow> (string \<times> string) option" where
  "read_frac s =
     (case s of
        c # t \<Rightarrow> if c = CHR ''.'' then cons_read [c] (digits1 t) else Some ([], s)
      | [] \<Rightarrow> Some ([], s))"

definition read_exp :: "string \<Rightarrow> (string \<times> string) option" where
  "read_exp s =
     (case s of
        c # t \<Rightarrow>
          if c = CHR ''e'' \<or> c = CHR ''E'' then
            (case t of
               sg # u \<Rightarrow>
                 if sg = CHR ''+'' \<or> sg = CHR ''-'' then cons_read [c, sg] (digits1 u)
                 else cons_read [c] (digits1 t)
             | [] \<Rightarrow> None)
          else Some ([], s)
      | [] \<Rightarrow> Some ([], s))"

definition read_number :: "string \<Rightarrow> (string \<times> string) option" where
  "read_number s =
     (let (sign, s1) = (case s of c # t \<Rightarrow> if c = CHR ''-'' then ([c], t) else ([], s) | [] \<Rightarrow> ([], s)) in
      case read_int s1 of
        None \<Rightarrow> None
      | Some (i, s2) \<Rightarrow>
        (case read_frac s2 of
           None \<Rightarrow> None
         | Some (f, s3) \<Rightarrow>
           (case read_exp s3 of
              None \<Rightarrow> None
            | Some (e, s4) \<Rightarrow> Some (sign @ i @ f @ e, s4))))"

subsection \<open>Values\<close>

definition is_json_space :: "char \<Rightarrow> bool" where
  "is_json_space c \<longleftrightarrow> of_char c \<in> {9, 10, 13, 32 :: nat}"

definition skip_space :: "string \<Rightarrow> string" where
  "skip_space s = dropWhile is_json_space s"

definition read_word :: "string \<Rightarrow> json \<Rightarrow> string \<Rightarrow> (json \<times> string) option" where
  "read_word w v s = (if has_prefix s w then Some (v, drop (length w) s) else None)"

definition object_of :: "(string \<times> json) list \<Rightarrow> json" where
  "object_of kvs = JObj (foldl (\<lambda>m kv. AList.update (fst kv) (snd kv) m) [] kvs)"

text \<open>\<open>read_value d s\<close> may open \<open>d\<close> more arrays and objects. The tests that the rest has become
  shorter always succeed; they are there for the termination proof.\<close>

function (sequential) read_value :: "nat \<Rightarrow> string \<Rightarrow> (json \<times> string) option"
  and read_elems :: "nat \<Rightarrow> string \<Rightarrow> (json list \<times> string) option"
  and read_members :: "nat \<Rightarrow> string \<Rightarrow> ((string \<times> json) list \<times> string) option" where
  "read_value d [] = None"
| "read_value d (c # s) =
     (if c = CHR ''n'' then read_word ''null'' JNull (c # s)
      else if c = CHR ''t'' then read_word ''true'' (JBool True) (c # s)
      else if c = CHR ''f'' then read_word ''false'' (JBool False) (c # s)
      else if c = quote then map_option (\<lambda>(t, rest). (JStr t, rest)) (read_chars s)
      else if c = CHR ''['' then
        (case d of
           0 \<Rightarrow> None
         | Suc k \<Rightarrow>
             let s1 = skip_space s in
             if length s1 \<le> length s then
               (case s1 of
                  [] \<Rightarrow> None
                | b # t \<Rightarrow> if b = CHR '']'' then Some (JArr [], t)
                           else map_option (\<lambda>(xs, rest). (JArr xs, rest)) (read_elems k s1))
             else None)
      else if c = CHR ''{'' then
        (case d of
           0 \<Rightarrow> None
         | Suc k \<Rightarrow>
             let s1 = skip_space s in
             if length s1 \<le> length s then
               (case s1 of
                  [] \<Rightarrow> None
                | b # t \<Rightarrow> if b = CHR ''}'' then Some (JObj [], t)
                           else map_option (\<lambda>(kvs, rest). (object_of kvs, rest)) (read_members k s1))
             else None)
      else map_option (\<lambda>(n, rest). (JNum n, rest)) (read_number (c # s)))"
| "read_elems d s =
     (case read_value d s of
        None \<Rightarrow> None
      | Some (v, rest) \<Rightarrow>
          (case skip_space rest of
             [] \<Rightarrow> None
           | b # t \<Rightarrow>
               if b = CHR '']'' then Some ([v], t)
               else if b = CHR '','' then
                 (let s1 = skip_space t in
                  if length s1 < length s
                  then map_option (\<lambda>(xs, rest'). (v # xs, rest')) (read_elems d s1) else None)
               else None))"
| "read_members d [] = None"
| "read_members d (c # s) =
     (if c \<noteq> quote then None
      else case read_chars s of
        None \<Rightarrow> None
      | Some (k, rest) \<Rightarrow>
          (case skip_space rest of
             [] \<Rightarrow> None
           | b # t \<Rightarrow>
               if b \<noteq> CHR '':'' then None
               else
                 let s1 = skip_space t in
                 if length s1 < length (c # s) then
                   (case read_value d s1 of
                      None \<Rightarrow> None
                    | Some (v, rest1) \<Rightarrow>
                        (case skip_space rest1 of
                           [] \<Rightarrow> None
                         | b1 # t1 \<Rightarrow>
                             if b1 = CHR ''}'' then Some ([(k, v)], t1)
                             else if b1 = CHR '','' then
                               (let s2 = skip_space t1 in
                                if length s2 < length (c # s)
                                then map_option (\<lambda>(kvs, rest'). ((k, v) # kvs, rest')) (read_members d s2)
                                else None)
                             else None))
                 else None))"
  by pat_completeness auto
termination
  by (relation "measure (\<lambda>x. case x of Inl (d, s) \<Rightarrow> 2 * length s
        | Inr (Inl (d, s)) \<Rightarrow> 2 * length s + 1 | Inr (Inr (d, s)) \<Rightarrow> 2 * length s + 1)")
    (auto split: if_splits)

definition max_nesting :: nat where
  "max_nesting = 10000"

text \<open>One \<open>json.Decoder.Decode\<close>: the end of the input, an error, or a value and the bytes after
  it; \<open>json.Valid\<close>.\<close>

datatype json_decoded = DecodeEOF | DecodeError | DecodeValue json bytes

definition json_decode :: "bytes \<Rightarrow> json_decoded" where
  "json_decode s =
     (let s1 = skip_space s in
      if s1 = [] then DecodeEOF
      else case read_value max_nesting s1 of
        None \<Rightarrow> DecodeError
      | Some (v, rest) \<Rightarrow> DecodeValue v rest)"

definition json_valid :: "bytes \<Rightarrow> bool" where
  "json_valid s \<longleftrightarrow>
     (case read_value max_nesting (skip_space s) of
        None \<Rightarrow> False
      | Some (_, rest) \<Rightarrow> skip_space rest = [])"

subsection \<open>Reading back strings\<close>

text \<open>A code point that was decoded is written as it was read, unless it stands for a bad byte.\<close>

lemma of_char_split:
  fixes c :: char and lo :: nat
  assumes "lo \<le> (of_char c :: nat)"
  obtains a where "c = char_of (lo + a)" and "of_char c = lo + a"
proof -
  have "of_char c = lo + (of_char c - lo)" using assms by simp
  moreover from this have "c = char_of (lo + (of_char c - lo))" by (metis char_of_char)
  ultimately show thesis using that by blast
qed

lemma encode_two:
  assumes "2 \<le> a" "a < 32" "b < 64"
  shows "encode_rune (a * 64 + b) = [char_of (192 + a), char_of (128 + b)]"
  using assms by (simp add: encode_rune_def)

lemma base64_digits: "(c :: nat) < 64 \<Longrightarrow> (x * 64 + c) div 64 = x \<and> (x * 64 + c) mod 64 = c"
  by simp

lemma encode_three:
  assumes "a < 16" "b < 64" "c < 64" "a = 0 \<longrightarrow> 32 \<le> b" "a = 13 \<longrightarrow> b \<le> 31"
  shows "encode_rune (a * 4096 + b * 64 + c) = [char_of (224 + a), char_of (128 + b), char_of (128 + c)]"
proof -
  let ?r = "a * 4096 + b * 64 + c"
  have r: "?r = (a * 64 + b) * 64 + c" by simp
  have h: "?r div 4096 = ?r div 64 div 64" by (simp flip: div_mult2_eq)
  have 1: "?r div 64 = a * 64 + b" "?r mod 64 = c"
    using base64_digits [OF assms(3), of "a * 64 + b"] unfolding r by blast+
  have q: "?r div 4096 = a" "?r div 64 mod 64 = b" "?r mod 64 = c"
    unfolding h 1 using base64_digits [OF assms(2), of a] by blast+
  have "2048 \<le> ?r" using assms by (cases "a = 0") auto
  moreover have "?r < 65536" using assms by simp
  moreover have "valid_rune ?r"
  proof -
    have "\<not> (55296 \<le> ?r \<and> ?r \<le> 57343)"
    proof
      assume r: "55296 \<le> ?r \<and> ?r \<le> 57343"
      then have "a = 13" using assms(2,3) by linarith
      with r assms(2,3,5) show False by linarith
    qed
    with \<open>?r < 65536\<close> show ?thesis by (simp add: valid_rune_def)
  qed
  ultimately show ?thesis by (simp add: encode_rune_def q)
qed

lemma encode_four:
  assumes "a < 5" "b < 64" "c < 64" "d < 64" "a = 0 \<longrightarrow> 16 \<le> b" "a = 4 \<longrightarrow> b \<le> 15"
  shows "encode_rune (a * 262144 + b * 4096 + c * 64 + d)
       = [char_of (240 + a), char_of (128 + b), char_of (128 + c), char_of (128 + d)]"
proof -
  let ?r = "a * 262144 + b * 4096 + c * 64 + d"
  have r: "?r = ((a * 64 + b) * 64 + c) * 64 + d" by simp
  have h: "?r div 4096 = ?r div 64 div 64" "?r div 262144 = ?r div 64 div 64 div 64" by (simp_all flip: div_mult2_eq)
  have 1: "?r div 64 = (a * 64 + b) * 64 + c" "?r mod 64 = d"
    using base64_digits [OF assms(4), of "(a * 64 + b) * 64 + c"] unfolding r by blast+
  have q: "?r div 262144 = a" "?r div 4096 mod 64 = b" "?r div 64 mod 64 = c" "?r mod 64 = d"
    unfolding h 1 using base64_digits [OF assms(3), of "a * 64 + b"] base64_digits [OF assms(2), of a] by auto
  have "65536 \<le> ?r" using assms by (cases "a = 0") auto
  moreover have "?r \<le> 1114111" using assms by (cases "a = 4") auto
  ultimately show ?thesis by (simp add: encode_rune_def q valid_rune_def)
qed

lemma encode_decode:
  assumes "decode_rune (c0 # s) = (r, w)" and "\<not> (r = rune_error \<and> w = 1)"
  shows "take w (c0 # s) = encode_rune r"
proof -
  let ?b0 = "of_char c0 :: nat"
  consider "?b0 < 128" | "128 \<le> ?b0" "?b0 < 194" | "194 \<le> ?b0" "?b0 < 224" | "224 \<le> ?b0" "?b0 < 240"
    | "240 \<le> ?b0" "?b0 < 245" | "245 \<le> ?b0"
    by linarith
  then show ?thesis
  proof cases
    case 1
    with assms(1) show ?thesis by (auto simp: encode_rune_def)
  next
    case 2
    with assms show ?thesis by (auto simp: Let_def decode_rune.simps)
  next
    case 3
    obtain a :: nat where a: "c0 = char_of (192 + a)" "?b0 = 192 + a" using 3 by (elim of_char_split [of 192, rotated]) simp
    from 3 assms obtain c1 s1 where s: "s = c1 # s1" "byte_in 128 191 c1"
      "r = (?b0 - 192) * 64 + (of_char c1 - 128)" "w = 2"
      by (auto simp: Let_def decode_rune.simps split: list.splits if_splits)
    then have "128 \<le> (of_char c1 :: nat)" by (simp add: byte_in_def)
    then obtain b :: nat where b: "c1 = char_of (128 + b)" "of_char c1 = 128 + b"
      by (metis of_char_split)
    from s a b 3 encode_two [of a b] show ?thesis by (simp add: byte_in_def)
  next
    case 4
    obtain a :: nat where a: "c0 = char_of (224 + a)" "?b0 = 224 + a" using 4 by (elim of_char_split [of 224, rotated]) simp
    from 4 assms obtain c1 c2 s2 where s: "s = c1 # c2 # s2"
      "byte_in (if ?b0 = 224 then 160 else 128) (if ?b0 = 237 then 159 else 191) c1" "byte_in 128 191 c2"
      "r = (?b0 - 224) * 4096 + (of_char c1 - 128) * 64 + (of_char c2 - 128)" "w = 3"
      by (auto simp: Let_def decode_rune.simps split: list.splits if_splits)
    then have "128 \<le> (of_char c1 :: nat)" "128 \<le> (of_char c2 :: nat)" by (auto simp: byte_in_def split: if_splits)
    then obtain b d :: nat where b: "c1 = char_of (128 + b)" "of_char c1 = 128 + b" "c2 = char_of (128 + d)" "of_char c2 = 128 + d"
      by (metis of_char_split)
    from s a b 4 encode_three [of a b d] show ?thesis by (auto simp: byte_in_def add.assoc split: if_splits)
  next
    case 5
    obtain a :: nat where a: "c0 = char_of (240 + a)" "?b0 = 240 + a" using 5 by (elim of_char_split [of 240, rotated]) simp
    from 5 assms obtain c1 c2 c3 s3 where s: "s = c1 # c2 # c3 # s3"
      "byte_in (if ?b0 = 240 then 144 else 128) (if ?b0 = 244 then 143 else 191) c1" "byte_in 128 191 c2"
      "byte_in 128 191 c3"
      "r = (?b0 - 240) * 262144 + (of_char c1 - 128) * 4096 + (of_char c2 - 128) * 64 + (of_char c3 - 128)" "w = 4"
      by (auto simp: Let_def decode_rune.simps split: list.splits if_splits)
    then have "128 \<le> (of_char c1 :: nat)" "128 \<le> (of_char c2 :: nat)" "128 \<le> (of_char c3 :: nat)"
      by (auto simp: byte_in_def split: if_splits)
    then obtain b d e :: nat where b: "c1 = char_of (128 + b)" "of_char c1 = 128 + b" "c2 = char_of (128 + d)" "of_char c2 = 128 + d"
      "c3 = char_of (128 + e)" "of_char c3 = 128 + e"
      by (metis of_char_split)
    from s a b 5 encode_four [of a b d e] show ?thesis by (auto simp: byte_in_def add.assoc split: if_splits)
  next
    case 6
    with assms show ?thesis by (auto simp: Let_def decode_rune.simps)
  qed
qed

text \<open>What a decoded code point with its bytes looks like.\<close>

definition rune_seg :: "nat \<times> string \<Rightarrow> bool" where
  "rune_seg d \<longleftrightarrow> valid_rune (fst d) \<and> (snd d = encode_rune (fst d) \<or> fst d = rune_error \<and> length (snd d) = 1)"

lemma runes_segs: "d \<in> set (runes s) \<Longrightarrow> rune_seg d"
proof (induction s rule: runes.induct)
  case (2 c s)
  obtain r w where d: "decode_rune (c # s) = (r, w)" by fastforce
  then have "rune_seg (r, take w (c # s))"
    using encode_decode [OF d] decode_rune_valid [of "c # s"]
    by (cases "r = rune_error \<and> w = 1") (auto simp: rune_seg_def)
  with 2 d show ?case by (auto simp: Let_def)
qed simp

lemma encode_rune_high:
  assumes "128 \<le> r" "valid_rune r"
  obtains c t where "encode_rune r = c # t" and "128 \<le> (of_char c :: nat)"
proof -
  consider "r < 2048" | "2048 \<le> r" "r < 65536" | "65536 \<le> r" "r \<le> 1114111"
    using assms unfolding valid_rune_def by linarith
  then show thesis
  proof cases
    case 1
    then have "r div 64 < 32" by auto
    with 1 assms that [of "char_of (192 + r div 64)"] show thesis by (simp add: encode_rune_def)
  next
    case 2
    then have "r div 4096 < 16" by auto
    with 2 assms that [of "char_of (224 + r div 4096)"] show thesis by (simp add: encode_rune_def)
  next
    case 3
    then have "r div 262144 \<le> 4" by auto
    with 3 assms that [of "char_of (240 + r div 262144)"] show thesis by (simp add: encode_rune_def)
  qed
qed

lemma read_chars_plain:
  assumes "valid_rune r" and "r \<noteq> 34" "r \<noteq> 92" "32 \<le> r"
  shows "read_chars (encode_rune r @ t) = cons_read (encode_rune r) (read_chars t)"
proof -
  obtain c u where cu: "encode_rune r = c # u" and c: "c \<noteq> quote" "c \<noteq> backslash" "32 \<le> (of_char c :: nat)"
  proof (cases "r < 128")
    case True
    then have "encode_rune r = [char_of r]" by (simp add: encode_rune_def)
    moreover have "(of_char (char_of r :: char) :: nat) = r" using True by simp
    moreover have "(of_char quote :: nat) = 34" "(of_char backslash :: nat) = 92" by (simp_all add: quote_def backslash_def)
    ultimately show thesis using that [of "char_of r" "[]"] assms by metis
  next
    case False
    then obtain c u where "encode_rune r = c # u" "128 \<le> (of_char c :: nat)"
      using encode_rune_high assms(1) by (metis not_less)
    moreover from this have "c \<noteq> quote" "c \<noteq> backslash" by (auto simp: quote_def backslash_def)
    ultimately show thesis using that by auto
  qed
  have "decode_rune (c # u @ t) = (r, length (c # u))"
    using decode_encode [OF assms(1), of t] cu by simp
  with c show ?thesis by (simp add: cu)
qed

lemma hex_any_digit [simp]: "n < 16 \<Longrightarrow> hex_any (hex_digit n) = Some n"
  by (auto simp: hex_any_def hex_digit_def byte_in_def)

lemma hex_any_zero: "hex_any (CHR ''0'') = Some 0"
  by (simp add: hex_any_def byte_in_def)

lemma read_u4_low:
  "a < 16 \<Longrightarrow> b < 16 \<Longrightarrow> read_u4 (''00'' @ hex_digit a # hex_digit b # t) = Some (a * 16 + b, t)"
  by (simp add: hex_any_zero)

lemma chars_distinct [simp]:
  "backslash \<noteq> quote" "quote \<noteq> backslash" "CHR ''u'' \<noteq> quote" "quote \<noteq> CHR ''n''" "quote \<noteq> CHR ''t''"
  "quote \<noteq> CHR ''f''" "quote \<noteq> CHR ''[''" "quote \<noteq> CHR '']''" "quote \<noteq> CHR ''{''" "quote \<noteq> CHR ''}''"
  "CHR ''['' \<noteq> quote" "CHR '']'' \<noteq> quote" "CHR ''{'' \<noteq> quote" "CHR ''}'' \<noteq> quote"
  by (simp_all add: backslash_def quote_def)

lemma read_chars_u:
  assumes "read_u4 s = Some (r, rest)" and "\<not> is_surrogate r"
  shows "read_chars (backslash # CHR ''u'' # s) = cons_read (encode_rune r) (read_chars rest)"
  using assms by simp

lemma read_chars_simple:
  assumes "simple_escape e = Some ch" and "e \<noteq> CHR ''u''"
  shows "read_chars (backslash # e # s) = cons_read [ch] (read_chars s)"
  using assms by simp

declare read_chars.simps [simp del]

lemma read_chars_quote [simp]: "read_chars (quote # s) = Some ([], s)"
  by (simp add: read_chars.simps)

lemma encode_ascii: "r < 128 \<Longrightarrow> encode_rune r = [char_of r]"
  by (simp add: encode_rune_def)

lemma char_34: "char_of (34 :: nat) = quote" and char_92: "char_of (92 :: nat) = backslash"
  by code_simp+

text \<open>Each escape is read back as the code point it was written for.\<close>

lemma read_chars_escape:
  assumes "rune_seg d"
  shows "read_chars (json_escape d @ t) = cons_read (encode_rune (fst d)) (read_chars t)"
proof -
  obtain r seg where d: "d = (r, seg)" by (cases d)
  have v: "valid_rune r" "seg = encode_rune r \<or> r = rune_error \<and> length seg = 1"
    using assms d by (auto simp: rune_seg_def)
  have seg: "seg = [char_of r]" if "r < 128"
    using v(2) that by (auto simp: encode_ascii rune_error_def)
  consider "r = 34 \<or> r = 92" | "r \<in> {8, 12, 10, 13, 9}"
    | "r \<notin> {34, 92, 8, 12, 10, 13, 9}" "r < 32 \<or> r = 60 \<or> r = 62 \<or> r = 38"
    | "r = rune_error" "length seg = 1" | "\<not> (r = rune_error \<and> length seg = 1)" "r = 8232 \<or> r = 8233"
    | "r \<notin> {34, 92, 8232, 8233, 60, 62, 38}" "32 \<le> r" "\<not> (r = rune_error \<and> length seg = 1)"
    by fastforce
  then show ?thesis
  proof cases
    case 1
    then have "json_escape d = [backslash, char_of r]" using seg by (auto simp: d json_escape_def)
    moreover have "(char_of r :: char) = quote \<or> (char_of r :: char) = backslash"
      using 1 char_34 char_92 by auto
    then have "simple_escape (char_of r) = Some (char_of r)" "(char_of r :: char) \<noteq> CHR ''u''"
      by (auto simp: simple_escape_def quote_def backslash_def)
    ultimately show ?thesis
      using read_chars_simple [of "char_of r" "char_of r" t] encode_ascii [of r] 1 by (auto simp: d)
  next
    case 2
    define e where "e = (if r = 8 then CHR ''b'' else if r = 12 then CHR ''f'' else if r = 10 then CHR ''n''
      else if r = 13 then CHR ''r'' else CHR ''t'')"
    have "json_escape d = [backslash, e]" using 2 by (auto simp: e_def d json_escape_def Let_def)
    moreover have "simple_escape e = Some (char_of r)"
      using 2 by (auto simp: e_def simple_escape_def quote_def backslash_def)
    moreover have "e \<noteq> CHR ''u''" by (simp add: e_def)
    ultimately show ?thesis
      using read_chars_simple [of e "char_of r" t] encode_ascii [of r] 2 by (auto simp: d)
  next
    case 3
    then have "json_escape d = backslash # CHR ''u'' # ''00'' @ [hex_digit (r div 16), hex_digit (r mod 16)]"
      by (auto simp: d json_escape_def Let_def)
    moreover have "read_u4 (''00'' @ hex_digit (r div 16) # hex_digit (r mod 16) # t) = Some (r, t)"
    proof -
      have "r div 16 < 16" "r mod 16 < 16" "r div 16 * 16 + r mod 16 = r" using 3 by auto
      with read_u4_low [of "r div 16" "r mod 16" t] show ?thesis by (simp only:)
    qed
    ultimately show ?thesis
      using read_chars_u [of "''00'' @ hex_digit (r div 16) # hex_digit (r mod 16) # t" r t] 3
      by (auto simp: d is_surrogate_def)
  next
    case 4
    then have "json_escape d = backslash # CHR ''u'' # ''fffd''"
      by (simp add: d json_escape_def Let_def rune_error_def)
    moreover have "read_u4 (''fffd'' @ t) = Some (65533, t)"
      by (simp add: hex_any_def byte_in_def)
    ultimately show ?thesis
      using read_chars_u [of "''fffd'' @ t" 65533 t] 4 by (simp add: d is_surrogate_def rune_error_def)
  next
    case 5
    have "json_escape d = backslash # CHR ''u'' # ''202'' @ [hex_digit (r mod 16)]"
      using 5 by (auto simp: d json_escape_def Let_def rune_error_def)
    moreover have "read_u4 (''202'' @ hex_digit (r mod 16) # t) = Some (r, t)"
      using 5(2) by (auto simp: hex_any_def byte_in_def hex_digit_def)
    ultimately show ?thesis
      using read_chars_u [of "''202'' @ hex_digit (r mod 16) # t" r t] 5(2) by (auto simp: d is_surrogate_def)
  next
    case 6
    then have "json_escape d = encode_rune r" using v(2) by (auto simp: d json_escape_def Let_def)
    with read_chars_plain [OF v(1), of t] 6 show ?thesis by (simp add: d)
  qed
qed

definition clean_string :: "string \<Rightarrow> string" where
  "clean_string s = concat (map (\<lambda>d. encode_rune (fst d)) (runes s))"

lemma cons_read_Some [simp]: "cons_read out (Some (t, rest)) = Some (out @ t, rest)"
  by (simp add: cons_read_def)

lemma read_escapes:
  "\<forall>d \<in> set ds. rune_seg d \<Longrightarrow>
   read_chars (concat (map json_escape ds) @ quote # t) = Some (concat (map (\<lambda>d. encode_rune (fst d)) ds), t)"
  by (induction ds) (simp_all add: read_chars_escape)

lemma read_chars_string: "read_chars (concat (map json_escape (runes s)) @ quote # t) = Some (clean_string s, t)"
  unfolding clean_string_def by (rule read_escapes) (simp add: runes_segs)

subsection \<open>Reading back values\<close>

text \<open>Values made of nulls, booleans, numbers, strings, arrays and objects, nested at most
  \<open>d\<close> deep, without raw parts.\<close>

definition number_text :: "string \<Rightarrow> bool" where
  "number_text n \<longleftrightarrow> read_number n = Some (n, [])"

fun plain_at :: "nat \<Rightarrow> json \<Rightarrow> bool" where
  "plain_at d JNull = True"
| "plain_at d (JBool b) = True"
| "plain_at d (JNum n) = number_text n"
| "plain_at d (JStr s) = True"
| "plain_at d (JArr xs) = (case d of 0 \<Rightarrow> False | Suc k \<Rightarrow> list_all (plain_at k) xs)"
| "plain_at d (JObj kvs) = (case d of 0 \<Rightarrow> False | Suc k \<Rightarrow> list_all (\<lambda>kv. plain_at k (snd kv)) kvs)"
| "plain_at d (JRaw s) = False"

text \<open>The value that is read back: strings cleaned, objects as maps.\<close>

fun clean_json :: "json \<Rightarrow> json" where
  "clean_json (JStr s) = JStr (clean_string s)"
| "clean_json (JArr xs) = JArr (map clean_json xs)"
| "clean_json (JObj kvs) = object_of (map (\<lambda>kv. (clean_string (fst kv), clean_json (snd kv))) kvs)"
| "clean_json j = j"

text \<open>What may follow a value: nothing that would continue a number.\<close>

definition ends_value :: "string \<Rightarrow> bool" where
  "ends_value t \<longleftrightarrow> (case t of [] \<Rightarrow> True | c # _ \<Rightarrow> \<not> is_digit c \<and> c \<notin> set ''.eE'')"

lemma ends_value_simps [simp]:
  "ends_value []" "ends_value (CHR '','' # t)" "ends_value (CHR '']'' # t)" "ends_value (CHR ''}'' # t)"
  by (simp_all add: ends_value_def is_digit_def byte_in_def)

lemma char_48: "char_of (48 :: nat) = CHR ''0''"
  by code_simp

text \<open>What a reader of a part of a number returned, it also returns when the text goes on with
  something that does not continue the number.\<close>

lemma digits1_iff:
  "digits1 s = Some (ds, t) \<longleftrightarrow> s = ds @ t \<and> ds \<noteq> [] \<and> list_all is_digit ds \<and> (t = [] \<or> \<not> is_digit (hd t))"
proof
  assume "digits1 s = Some (ds, t)"
  then have ds: "ds = takeWhile is_digit s" "t = dropWhile is_digit s" "ds \<noteq> []"
    by (auto simp: digits1_def split: list.splits)
  have "\<forall>c \<in> set ds. is_digit c" unfolding ds(1) by (auto dest: set_takeWhileD)
  then show "s = ds @ t \<and> ds \<noteq> [] \<and> list_all is_digit ds \<and> (t = [] \<or> \<not> is_digit (hd t))"
    using ds hd_dropWhile [of is_digit s] by (auto simp: list_all_iff)
next
  assume s: "s = ds @ t \<and> ds \<noteq> [] \<and> list_all is_digit ds \<and> (t = [] \<or> \<not> is_digit (hd t))"
  then have "takeWhile is_digit t = []" "dropWhile is_digit t = t" by (cases t; auto)+
  with s show "digits1 s = Some (ds, t)"
    by (auto simp: digits1_def list_all_iff takeWhile_append2 dropWhile_append2 split: list.splits)
qed

lemma ends_value_digit: "ends_value u \<Longrightarrow> u = [] \<or> \<not> is_digit (hd u)"
  by (auto simp: ends_value_def split: list.splits)

lemma digits1_extend: "digits1 s = Some (ds, t) \<Longrightarrow> ends_value u \<Longrightarrow> digits1 (s @ u) = Some (ds, t @ u)"
  using ends_value_digit [of u] by (cases t) (auto simp: digits1_iff)

lemma read_int_extend: "read_int s = Some (i, t) \<Longrightarrow> ends_value u \<Longrightarrow> read_int (s @ u) = Some (i, t @ u)"
  by (cases s) (use digits1_extend [of s i t u] in \<open>auto simp: read_int_def split: if_splits\<close>)

lemma cons_read_iff: "cons_read out r = Some (x, t) \<longleftrightarrow> (\<exists>y. r = Some (y, t) \<and> x = out @ y)"
  by (auto simp: cons_read_def)

lemma read_frac_extend: "read_frac s = Some (f, t) \<Longrightarrow> ends_value u \<Longrightarrow> read_frac (s @ u) = Some (f, t @ u)"
  using digits1_extend
  by (cases s) (fastforce simp: read_frac_def cons_read_iff ends_value_def split: if_splits list.splits)+

lemma read_exp_extend: "read_exp s = Some (e, t) \<Longrightarrow> ends_value u \<Longrightarrow> read_exp (s @ u) = Some (e, t @ u)"
  using digits1_extend
  by (cases s) (fastforce simp: read_exp_def cons_read_iff ends_value_def split: if_splits list.splits)+

definition split_sign :: "string \<Rightarrow> string \<times> string" where
  "split_sign s = (case s of c # t \<Rightarrow> if c = CHR ''-'' then ([c], t) else ([], s) | [] \<Rightarrow> ([], s))"

lemma read_number_Some:
  "read_number s = Some (n, t) \<longleftrightarrow>
     (\<exists>sign s1 i s2 f s3 e. split_sign s = (sign, s1) \<and> read_int s1 = Some (i, s2) \<and> read_frac s2 = Some (f, s3)
        \<and> read_exp s3 = Some (e, t) \<and> n = sign @ i @ f @ e)"
  by (auto simp: read_number_def split_sign_def [symmetric] split: option.splits prod.splits)

lemma read_number_extend:
  assumes "read_number s = Some (n, t)" and "ends_value u"
  shows "read_number (s @ u) = Some (n, t @ u)"
proof -
  obtain sign s1 i s2 f s3 e where p: "split_sign s = (sign, s1)" "read_int s1 = Some (i, s2)" "read_frac s2 = Some (f, s3)"
    "read_exp s3 = Some (e, t)" "n = sign @ i @ f @ e"
    using assms(1) by (auto simp: read_number_Some)
  have "s \<noteq> []" using p(1,2) by (auto simp: split_sign_def read_int_def)
  with p(1) have "split_sign (s @ u) = (sign, s1 @ u)" by (auto simp: split_sign_def split: list.splits if_splits)
  with p(2-5) read_int_extend read_frac_extend read_exp_extend assms(2) show ?thesis
    unfolding read_number_Some by blast
qed

lemma read_number_text: "number_text n \<Longrightarrow> ends_value t \<Longrightarrow> read_number (n @ t) = Some (n, t)"
  using read_number_extend [of n n "[]" t] by (simp add: number_text_def)

text \<open>What was read of a number is a number.\<close>

lemma read_int_split: "read_int s = Some (i, t) \<Longrightarrow> s = i @ t \<and> i \<noteq> []"
  by (auto simp: read_int_def digits1_iff split: list.splits if_splits)

lemma read_frac_split: "read_frac s = Some (f, t) \<Longrightarrow> s = f @ t"
  by (auto simp: read_frac_def cons_read_iff digits1_iff split: list.splits if_splits)

lemma read_exp_split: "read_exp s = Some (e, t) \<Longrightarrow> s = e @ t"
  by (auto simp: read_exp_def cons_read_iff digits1_iff split: list.splits if_splits)

lemma read_int_cut: "read_int (i @ y @ t) = Some (i, y @ t) \<Longrightarrow> read_int (i @ y) = Some (i, y)"
  by (cases i; cases y) (auto simp: read_int_def digits1_iff split: list.splits if_splits)

lemma read_frac_cut: "read_frac (f @ y @ t) = Some (f, y @ t) \<Longrightarrow> read_frac (f @ y) = Some (f, y)"
  by (cases f; cases y) (auto simp: read_frac_def cons_read_iff digits1_iff split: list.splits if_splits)

lemma read_exp_cut: "read_exp (e @ t) = Some (e, t) \<Longrightarrow> read_exp e = Some (e, [])"
  by (cases e) (auto simp: read_exp_def cons_read_iff digits1_iff split: list.splits if_splits)

lemma read_number_number:
  assumes "read_number s = Some (n, t)"
  shows "number_text n"
proof -
  obtain sign s1 i s2 f s3 e where p: "split_sign s = (sign, s1)" "read_int s1 = Some (i, s2)" "read_frac s2 = Some (f, s3)"
    "read_exp s3 = Some (e, t)" "n = sign @ i @ f @ e"
    using assms by (auto simp: read_number_Some)
  have eq: "s1 = i @ s2" "s2 = f @ s3" "s3 = e @ t" and i: "i \<noteq> []"
    using read_int_split [OF p(2)] read_frac_split [OF p(3)] read_exp_split [OF p(4)] by auto
  have "split_sign n = (sign, i @ f @ e)"
    using p(1,5) i eq(1) by (cases i) (auto simp: split_sign_def split: list.splits if_splits)
  moreover have "read_int (i @ f @ e) = Some (i, f @ e)"
    using p(2) read_int_cut [of i "f @ e" t] by (simp add: eq)
  moreover have "read_frac (f @ e) = Some (f, e)"
    using p(3) read_frac_cut [of f e t] by (simp add: eq)
  moreover have "read_exp e = Some (e, [])"
    using p(4) read_exp_cut [of e t] by (simp add: eq)
  ultimately show ?thesis unfolding number_text_def read_number_Some using p(5) by blast
qed

lemma number_head:
  assumes "number_text n"
  obtains c m where "n = c # m" and "is_digit c \<or> c = CHR ''-''"
proof -
  obtain sign s1 i s2 where "split_sign n = (sign, s1)" "read_int s1 = Some (i, s2)"
    using assms by (auto simp: number_text_def read_number_Some)
  then have "\<exists>c m. n = c # m \<and> (is_digit c \<or> c = CHR ''-'')"
    by (cases n) (auto simp: split_sign_def read_int_def digits1_def is_digit_def byte_in_def split: list.splits if_splits)
  then show thesis using that by blast
qed

lemma number_text_digits:
  assumes "n \<noteq> []" and "list_all is_digit n" and "hd n = char_of (48 :: nat) \<longrightarrow> length n = 1"
  shows "number_text n"
proof -
  obtain c m where n: "n = c # m" "is_digit c" using assms by (cases n) auto
  then have "split_sign n = ([], n)" by (auto simp: split_sign_def is_digit_def byte_in_def)
  moreover have "read_int n = Some (n, [])"
    using assms n digits1_iff [of n n "[]"] by (auto simp: read_int_def char_48)
  ultimately show ?thesis by (simp add: number_text_def read_number_Some read_frac_def read_exp_def)
qed

lemma skip_space_other [simp]: "\<not> is_json_space c \<Longrightarrow> skip_space (c # s) = c # s"
  by (simp add: skip_space_def)

lemma not_json_space [simp]:
  "\<not> is_json_space quote" "\<not> is_json_space (CHR '','')" "\<not> is_json_space (CHR '':'')"
  "\<not> is_json_space (CHR ''['')" "\<not> is_json_space (CHR '']'')" "\<not> is_json_space (CHR ''{'')"
  "\<not> is_json_space (CHR ''}'')" "\<not> is_json_space (CHR ''n'')" "\<not> is_json_space (CHR ''t'')"
  "\<not> is_json_space (CHR ''f'')"
  by (simp_all add: is_json_space_def quote_def)

lemma digit_head:
  assumes "is_digit c \<or> c = CHR ''-''"
  shows "\<not> is_json_space c" "c \<noteq> quote" "c \<notin> set ''ntf[]{}''"
  using assms by (auto simp: is_digit_def byte_in_def is_json_space_def quote_def)

lemma marshal_head:
  assumes "plain_at d j"
  obtains c s where "marshal j = c # s" and "\<not> is_json_space c" and "c \<noteq> CHR '']''" and "c \<noteq> CHR ''}''"
proof (cases j)
  case (JBool b)
  with that show thesis by (cases b) auto
next
  case (JNum n)
  with assms obtain c m where n: "n = c # m" "is_digit c \<or> c = CHR ''-''" using number_head by auto
  show thesis by (rule that [of c m]) (use JNum n digit_head [OF n(2)] in auto)
next
  case (JRaw s)
  with assms show thesis by simp
qed (use that in \<open>auto simp: json_string_def quote_def is_json_space_def\<close>)

declare read_value.simps [simp del] read_elems.simps [simp del] read_members.simps [simp del]

lemma join_map_head:
  assumes "xs \<noteq> []" and "\<forall>x \<in> set xs. plain_at k x"
  obtains c s where "join '','' (map marshal xs) @ t = c # s" and "\<not> is_json_space c" and "c \<noteq> CHR '']''"
proof -
  obtain x ys where xs: "xs = x # ys" using assms(1) by (cases xs) auto
  with assms(2) have "plain_at k x" by simp
  then obtain c s where "marshal x = c # s" "\<not> is_json_space c" "c \<noteq> CHR '']''" "c \<noteq> CHR ''}''"
    by (rule marshal_head)
  then show thesis using that xs by (cases ys) auto
qed

lemma read_elems_ok:
  assumes "\<And>x t. x \<in> set xs \<Longrightarrow> ends_value t \<Longrightarrow> read_value d (marshal x @ t) = Some (clean_json x, t)"
    and "\<forall>x \<in> set xs. plain_at k x" and "xs \<noteq> []"
  shows "read_elems d (join '','' (map marshal xs) @ CHR '']'' # t) = Some (map clean_json xs, t)"
  using assms
proof (induction xs)
  case (Cons x xs)
  show ?case
  proof (cases "xs = []")
    case True
    then show ?thesis using Cons.prems(1) [of x "CHR '']'' # t"] by (simp add: read_elems.simps)
  next
    case False
    let ?rest = "join '','' (map marshal xs) @ CHR '']'' # t"
    have eq: "join '','' (map marshal (x # xs)) @ CHR '']'' # t = marshal x @ CHR '','' # ?rest"
      using False by (cases xs) auto
    obtain c u where cu: "?rest = c # u" "\<not> is_json_space c"
      using join_map_head [OF False] Cons.prems(2) by (metis list.set_intros(2))
    have "read_elems d ?rest = Some (map clean_json xs, t)"
      using Cons.IH Cons.prems False by simp
    then show ?thesis
      unfolding eq using Cons.prems(1) [of x "CHR '','' # ?rest"] cu
      by (subst read_elems.simps) simp
  qed
qed simp

definition marshal_member :: "string \<times> json \<Rightarrow> string" where
  "marshal_member kv = json_string (fst kv) @ '':'' @ marshal (snd kv)"

lemma marshal_object: "marshal (JObj kvs) = ''{'' @ join '','' (map marshal_member kvs) @ ''}''"
  by (simp add: marshal_member_def [abs_def])

lemma read_members_ok:
  assumes "\<And>kv t. kv \<in> set kvs \<Longrightarrow> ends_value t \<Longrightarrow>
      read_value d (marshal (snd kv) @ t) = Some (clean_json (snd kv), t)"
    and "\<forall>kv \<in> set kvs. plain_at k (snd kv)" and "kvs \<noteq> []"
  shows "read_members d (join '','' (map marshal_member kvs) @ CHR ''}'' # t)
    = Some (map (\<lambda>kv. (clean_string (fst kv), clean_json (snd kv))) kvs, t)"
  using assms
proof (induction kvs)
  case (Cons kv kvs)
  obtain key v where kv: "kv = (key, v)" by (cases kv)
  obtain c u where cu: "marshal v = c # u" "\<not> is_json_space c"
    using marshal_head Cons.prems(2) kv by (metis list.set_intros(1) snd_conv)
  have read: "read_chars (concat (map json_escape (runes key)) @ quote # CHR '':'' # marshal v @ w)
      = Some (clean_string key, CHR '':'' # marshal v @ w)" for w
    by (rule read_chars_string)
  show ?case
  proof (cases "kvs = []")
    case True
    then show ?thesis
      using Cons.prems(1) [of kv "CHR ''}'' # t"] read [of "CHR ''}'' # t"] cu
      by (simp add: kv marshal_member_def json_string_def read_members.simps)
  next
    case False
    let ?rest = "join '','' (map marshal_member kvs) @ CHR ''}'' # t"
    have eq: "join '','' (map marshal_member (kv # kvs)) @ CHR ''}'' # t = marshal_member kv @ CHR '','' # ?rest"
      using False by (cases kvs) auto
    obtain m where m: "?rest = quote # m"
      using False by (cases kvs rule: remdups_adj.cases) (auto simp: marshal_member_def json_string_def)
    have "read_members d ?rest = Some (map (\<lambda>kv. (clean_string (fst kv), clean_json (snd kv))) kvs, t)"
      using Cons.IH Cons.prems False by simp
    then show ?thesis
      unfolding eq using Cons.prems(1) [of kv "CHR '','' # ?rest"] read [of "CHR '','' # ?rest"] cu m
      by (simp add: kv marshal_member_def json_string_def read_members.simps(2))
  qed
qed simp

text \<open>What \<open>marshal\<close> prints is read back, with room for its depth.\<close>

lemma read_marshal:
  assumes "plain_at k j" and "k \<le> d" and "ends_value t"
  shows "read_value d (marshal j @ t) = Some (clean_json j, t)"
  using assms
proof (induction k j arbitrary: d t rule: plain_at.induct)
  case (2 k b)
  then show ?case by (cases b) (simp_all add: read_value.simps read_word_def)
next
  case (3 k n)
  then obtain c m where n: "n = c # m" "is_digit c \<or> c = CHR ''-''" using number_head by auto
  with 3 read_number_text [of n t] digit_head [OF n(2)] show ?case
    by (simp add: read_value.simps)
next
  case (4 k s)
  then show ?case
    using read_chars_string [of s t] by (simp add: read_value.simps json_string_def)
next
  case (5 k xs)
  then obtain k' d' where k: "k = Suc k'" "d = Suc d'" "k' \<le> d'"
    by (cases k; cases d) auto
  show ?case
  proof (cases "xs = []")
    case True
    then show ?thesis by (simp add: read_value.simps k)
  next
    case False
    have plain: "\<forall>x \<in> set xs. plain_at k' x" using 5(2) k by (simp add: list_all_iff)
    obtain c u where cu: "join '','' (map marshal xs) @ CHR '']'' # t = c # u" "\<not> is_json_space c" "c \<noteq> CHR '']''"
      by (rule join_map_head [OF False plain])
    have "read_elems d' (join '','' (map marshal xs) @ CHR '']'' # t) = Some (map clean_json xs, t)"
      using 5(1) plain k(1,3) False by (intro read_elems_ok [OF _ plain]) (auto simp: list_all_iff)
    with cu show ?thesis by (simp add: read_value.simps k)
  qed
next
  case (6 k kvs)
  then obtain k' d' where k: "k = Suc k'" "d = Suc d'" "k' \<le> d'"
    by (cases k; cases d) auto
  show ?case
  proof (cases "kvs = []")
    case True
    then show ?thesis by (simp add: read_value.simps k object_of_def)
  next
    case False
    have plain: "\<forall>kv \<in> set kvs. plain_at k' (snd kv)" using 6(2) k by (simp add: list_all_iff)
    obtain u where cu: "join '','' (map marshal_member kvs) @ CHR ''}'' # t = quote # u"
      using False by (cases kvs rule: remdups_adj.cases) (auto simp: marshal_member_def json_string_def)
    have "read_members d' (join '','' (map marshal_member kvs) @ CHR ''}'' # t)
        = Some (map (\<lambda>kv. (clean_string (fst kv), clean_json (snd kv))) kvs, t)"
      using 6(1) plain k(1,3) False by (intro read_members_ok [OF _ plain]) (auto simp: list_all_iff)
    with cu show ?thesis by (simp add: marshal_object read_value.simps k del: marshal.simps)
  qed
qed (simp_all add: read_value.simps read_word_def)

lemma plain_update:
  "list_all (\<lambda>kv. P (snd kv)) m \<Longrightarrow> P v \<Longrightarrow> list_all (\<lambda>kv. P (snd kv)) (AList.update k v m)"
  by (induction m) auto

lemma plain_object_of:
  assumes "list_all (\<lambda>kv. P (snd kv)) kvs"
  shows "\<exists>m. object_of kvs = JObj m \<and> list_all (\<lambda>kv. P (snd kv)) m"
proof -
  have "list_all (\<lambda>kv. P (snd kv)) (foldl (\<lambda>m kv. AList.update (fst kv) (snd kv) m) m0 kvs)"
    if "list_all (\<lambda>kv. P (snd kv)) m0" for m0
    using assms that by (induction kvs arbitrary: m0) (auto simp: plain_update)
  from this [of "[]"] show ?thesis by (simp add: object_of_def)
qed

lemma plain_at_clean: "plain_at d j \<Longrightarrow> plain_at d (clean_json j)"
proof (induction d j rule: plain_at.induct)
  case (5 d xs)
  then show ?case by (cases d) (auto simp: list_all_iff)
next
  case (6 d kvs)
  then obtain k where d: "d = Suc k" by (cases d) auto
  have "list_all (\<lambda>kv. plain_at k (snd kv)) (map (\<lambda>kv. (clean_string (fst kv), clean_json (snd kv))) kvs)"
    using 6 d by (auto simp: list_all_iff)
  from plain_object_of [OF this] show ?case by (auto simp: d)
qed auto

lemma json_decode_Nil [simp]: "json_decode [] = DecodeEOF"
  by (simp add: json_decode_def skip_space_def)

lemma skip_space_marshal: "plain_at k j \<Longrightarrow> skip_space (marshal j) = marshal j"
  by (erule marshal_head) simp

lemma marshal_not_Nil: "plain_at k j \<Longrightarrow> marshal j \<noteq> []"
  by (erule marshal_head) simp

lemma json_decode_marshal:
  assumes "plain_at k j" and "k \<le> max_nesting"
  shows "json_decode (marshal j) = DecodeValue (clean_json j) []"
  using read_marshal [OF assms ends_value_simps(1)] skip_space_marshal [OF assms(1)] marshal_not_Nil [OF assms(1)]
  by (simp add: json_decode_def)

lemma json_valid_marshal:
  assumes "plain_at k j" and "k \<le> max_nesting"
  shows "json_valid (marshal j)"
  using read_marshal [OF assms ends_value_simps(1)] skip_space_marshal [OF assms(1)]
  by (simp add: json_valid_def skip_space_def)

subsection \<open>Reading consumes\<close>

text \<open>Every reader returns less than it was given, so the tests in \<open>read_value\<close> never fail.\<close>

lemma read_chars_shorter: "read_chars s = Some (t, rest) \<Longrightarrow> length rest < length s"
proof (induction s arbitrary: t rule: measure_induct_rule [of length])
  case (less s)
  show ?case
  proof (cases s)
    case Nil
    with less.prems show ?thesis by (simp add: read_chars.simps)
  next
    case (Cons c u)
    have IH: "length x < Suc (length u) \<longrightarrow> length rest < Suc (length u)" if "read_chars x = Some (y, rest)" for x y
      using less.IH [of x y] that Cons by fastforce
    have "length (drop (snd (decode_rune (c # u))) (c # u)) < Suc (length u)"
      using decode_rune_width_pos [of c u] by simp
    with less.prems Cons show ?thesis
      by (auto simp: read_chars.simps(2) cons_read_def Let_def
          dest!: IH read_u4_shorter read_low_shorter split: if_splits list.splits option.splits)
  qed
qed

lemma digits1_shorter: "digits1 s = Some (ds, t) \<Longrightarrow> length t < length s"
proof -
  have "length s = length (takeWhile is_digit s) + length (dropWhile is_digit s)"
    by (metis length_append takeWhile_dropWhile_id)
  then show "digits1 s = Some (ds, t) \<Longrightarrow> length t < length s"
    by (auto simp: digits1_def split: list.splits)
qed

lemma read_int_shorter: "read_int s = Some (ds, t) \<Longrightarrow> length t < length s"
  by (auto simp: read_int_def dest: digits1_shorter split: list.splits if_splits)

lemma read_frac_shorter: "read_frac s = Some (ds, t) \<Longrightarrow> length t \<le> length s"
  by (auto simp: read_frac_def cons_read_def dest!: digits1_shorter split: list.splits if_splits)

lemma read_exp_shorter: "read_exp s = Some (ds, t) \<Longrightarrow> length t \<le> length s"
  by (auto simp: read_exp_def cons_read_def dest!: digits1_shorter split: list.splits if_splits)

lemma read_number_shorter:
  assumes "read_number s = Some (n, t)"
  shows "length t < length s"
proof -
  obtain s1 i s2 f s3 e where s: "length s1 \<le> length s" "read_int s1 = Some (i, s2)" "read_frac s2 = Some (f, s3)"
    "read_exp s3 = Some (e, t)"
  proof -
    define sp where "sp = (case s of c # t \<Rightarrow> if c = CHR ''-'' then ([c], t) else ([], s) | [] \<Rightarrow> ([], s))"
    have "length (snd sp) \<le> length s" by (auto simp: sp_def split: list.split)
    moreover have "\<exists>i s2 f s3 e. read_int (snd sp) = Some (i, s2) \<and> read_frac s2 = Some (f, s3) \<and> read_exp s3 = Some (e, t)"
      using assms unfolding read_number_def sp_def [symmetric]
      by (auto simp: case_prod_unfold split: option.splits)
    ultimately show thesis using that by blast
  qed
  from read_int_shorter [OF s(2)] read_frac_shorter [OF s(3)] read_exp_shorter [OF s(4)] s(1) show ?thesis by simp
qed

lemma skip_space_shorter: "length (skip_space s) \<le> length s"
  by (simp add: skip_space_def length_dropWhile_le)

lemma skip_space_Cons: "skip_space s = c # t \<Longrightarrow> length t < length s"
  using skip_space_shorter [of s] by simp

lemma read_word_shorter: "read_word w v s = Some (u, t) \<Longrightarrow> w \<noteq> [] \<Longrightarrow> length t < length s"
  by (auto simp: read_word_def has_prefix_iff split: if_splits)

lemma read_shorter:
  "(\<forall>v rest. read_value d s = Some (v, rest) \<longrightarrow> length rest < length s)"
  "(\<forall>vs rest. read_elems d s = Some (vs, rest) \<longrightarrow> length rest < length s)"
  "(\<forall>kvs rest. read_members d s = Some (kvs, rest) \<longrightarrow> length rest < length s)"
proof (induction d s and d s and d s rule: read_value_read_elems_read_members.induct)
  case (2 d c s)
  show ?case
  proof (intro allI impI)
    fix v rest
    assume r: "read_value d (c # s) = Some (v, rest)"
    show "length rest < length (c # s)"
    proof (cases "c = CHR ''['' \<or> c = CHR ''{''")
      case False
      with r show ?thesis
        by (auto simp: read_value.simps(2) dest!: read_word_shorter read_chars_shorter read_number_shorter
            split: if_splits)
    next
      case True
      with r obtain k where k: "d = Suc k" by (cases d) (auto simp: read_value.simps(2))
      obtain b t where s1: "skip_space s = b # t" using r True k by (auto simp: read_value.simps(2) Let_def split: list.splits)
      note le = skip_space_Cons [OF s1] skip_space_shorter [of s]
      show ?thesis
      proof (cases "c = CHR ''[''")
        case True
        with r k s1 2(1) le show ?thesis
          by (fastforce simp: read_value.simps(2) Let_def split: if_splits)
      next
        case False
        with \<open>c = CHR ''['' \<or> c = CHR ''{''\<close> r k s1 2(2) le show ?thesis
          by (fastforce simp: read_value.simps(2) Let_def split: if_splits)
      qed
    qed
  qed
next
  case (3 d s)
  show ?case
  proof (intro allI impI)
    fix vs rest
    assume r: "read_elems d s = Some (vs, rest)"
    then obtain v rest1 b t where v: "read_value d s = Some (v, rest1)" "skip_space rest1 = b # t"
      by (subst (asm) read_elems.simps) (auto split: option.splits list.splits)
    have "length rest1 < length s" using 3(1) v(1) by blast
    with skip_space_Cons [OF v(2)] have t: "length t < length s" by simp
    with 3(2) [OF v(1) refl v(2)] r show "length rest < length s"
      by (subst (asm) read_elems.simps) (fastforce simp: v Let_def split: if_splits)
  qed
next
  case (5 d c s)
  show ?case
  proof (intro allI impI)
    fix kvs rest
    assume r: "read_members d (c # s) = Some (kvs, rest)"
    then obtain k rest0 t where c: "c = quote" and k: "read_chars s = Some (k, rest0)" "skip_space rest0 = CHR '':'' # t"
      by (auto simp: read_members.simps(2) split: option.splits list.splits if_splits)
    have t: "length t < length s" using read_chars_shorter [OF k(1)] skip_space_Cons [OF k(2)] by simp
    with skip_space_shorter [of t] have s1: "length (skip_space t) < length (c # s)" by simp
    with r c k obtain v rest1 b t1 where v: "read_value d (skip_space t) = Some (v, rest1)" "skip_space rest1 = b # t1"
      by (auto simp: read_members.simps(2) Let_def split: option.splits list.splits)
    have "length rest1 < length (skip_space t)" using 5(1) c k s1 v(1) by auto
    with skip_space_Cons [OF v(2)] s1 have t1: "length t1 < length (c # s)" by simp
    show "length rest < length (c # s)"
    proof (cases "b = CHR ''}''")
      case True
      with r c k s1 v t1 show ?thesis by (simp add: read_members.simps(2) Let_def)
    next
      case False
      with r c k s1 v obtain kvs' where "b = CHR '',''" "length (skip_space t1) < length (c # s)"
        "read_members d (skip_space t1) = Some (kvs', rest)"
        by (auto simp: read_members.simps(2) Let_def split: if_splits)
      with 5(2) c k s1 v False show ?thesis by fastforce
    qed
  qed
qed (simp_all add: read_value.simps read_members.simps)

end
