(* ===== verification/Go_Json_Values.thy ===== *)
theory Go_Json_Values
  imports Go_Json_Read
begin

text \<open>
  What the JSON reader returns: strings that are UTF-8, numbers that are JSON numbers, objects with
  distinct keys, and no more nesting than there was room for. Such a value is read back unchanged
  after it has been printed.
\<close>

subsection \<open>Strings that were read\<close>

definition utf8 :: "string \<Rightarrow> bool" where
  "utf8 s \<longleftrightarrow> clean_string s = s"

lemma clean_encode: "valid_rune r \<Longrightarrow> clean_string (encode_rune r @ s) = encode_rune r @ clean_string s"
  by (simp add: clean_string_def runes_append_encode)

lemma utf8_Nil [simp]: "utf8 []"
  by (simp add: utf8_def clean_string_def)

lemma utf8_encode [simp]: "valid_rune r \<Longrightarrow> utf8 (encode_rune r @ s) \<longleftrightarrow> utf8 s"
  by (simp add: utf8_def clean_encode)

lemma utf8_clean [simp]: "utf8 (clean_string s)"
proof -
  have "utf8 (concat (map (\<lambda>d. encode_rune (fst d)) ds))" if "\<forall>d \<in> set ds. valid_rune (fst d)" for ds :: "(nat \<times> string) list"
    using that by (induction ds) simp_all
  then show ?thesis using runes_valid by (simp add: clean_string_def)
qed

lemma simple_escape_rune: "simple_escape e = Some ch \<Longrightarrow> \<exists>r. ch = char_of r \<and> r < (128 :: nat)"
proof -
  assume "simple_escape e = Some ch"
  then have "of_char ch < (128 :: nat)"
    by (auto simp: simple_escape_def quote_def backslash_def split: if_splits)
  then show ?thesis by (intro exI [of _ "of_char ch"]) simp
qed

lemma utf8_ascii: "simple_escape e = Some ch \<Longrightarrow> utf8 (ch # s) \<longleftrightarrow> utf8 s"
proof -
  assume "simple_escape e = Some ch"
  then obtain r :: nat where r: "ch = char_of r" "r < 128" using simple_escape_rune by blast
  then have "valid_rune r" by (simp add: valid_rune_def)
  with utf8_encode [of r s] r show ?thesis by (simp add: encode_ascii)
qed

lemma hex_any_bound: "hex_any c = Some n \<Longrightarrow> n < 16"
  by (auto simp: hex_any_def byte_in_def split: if_splits)

lemma read_u4_valid: "read_u4 s = Some (r, t) \<Longrightarrow> length s = length t + 4 \<and> (\<not> is_surrogate r \<longrightarrow> valid_rune r)"
  by (induction s rule: read_u4.induct)
    (auto simp: valid_rune_def is_surrogate_def dest!: hex_any_bound split: option.splits)

lemma read_low_valid: "read_low hi s = Some (q, t) \<Longrightarrow> length t < length s \<and> (is_surrogate hi \<longrightarrow> valid_rune q)"
  using read_low_shorter
  by (auto simp: read_low_def valid_rune_def is_surrogate_def split: list.splits option.splits if_splits)

lemma read_chars_utf8: "read_chars s = Some (t, rest) \<Longrightarrow> utf8 t"
proof (induction s arbitrary: t rule: measure_induct_rule [of length])
  case (less s)
  show ?case
  proof (cases s)
    case Nil
    with less.prems show ?thesis by (simp add: read_chars.simps)
  next
    case (Cons c u)
    have IH: "length x < Suc (length u) \<longrightarrow> utf8 y" if "read_chars x = Some (y, rest)" for x y
      using less.IH [of x y] that Cons by simp
    have "length (drop (snd (decode_rune (c # u))) (c # u)) < Suc (length u)"
      using decode_rune_width_pos [of c u] by simp
    with less.prems Cons show ?thesis
      using decode_rune_valid [of "c # u"]
      by (auto simp: read_chars.simps(2) cons_read_iff Let_def utf8_ascii
          dest!: IH read_u4_valid read_low_valid
          split: if_splits list.splits option.splits)
  qed
qed

subsection \<open>Objects with distinct keys\<close>

lemma update_new: "k \<notin> fst ` set m \<Longrightarrow> AList.update k v m = m @ [(k, v)]"
  by (induction m) auto

lemma update_entry: "e \<in> set (AList.update k v m) \<Longrightarrow> e = (k, v) \<or> e \<in> set m"
  by (induction m) (auto split: if_splits)

lemma object_of_distinct:
  assumes "distinct (map fst kvs)"
  shows "object_of kvs = JObj kvs"
proof -
  have "foldl (\<lambda>m kv. AList.update (fst kv) (snd kv) m) m0 kvs = m0 @ kvs" if "distinct (map fst (m0 @ kvs))" for m0
    using that by (induction kvs arbitrary: m0) (auto simp: update_new)
  from this [of "[]"] assms show ?thesis by (simp add: object_of_def)
qed

lemma object_of_cases:
  obtains m where "object_of kvs = JObj m" and "distinct (map fst m)" and "set m \<subseteq> set kvs"
proof -
  have "distinct (map fst (foldl (\<lambda>m kv. AList.update (fst kv) (snd kv) m) m0 kvs))
      \<and> set (foldl (\<lambda>m kv. AList.update (fst kv) (snd kv) m) m0 kvs) \<subseteq> set m0 \<union> set kvs"
    if "distinct (map fst m0)" for m0
    using that
  proof (induction kvs arbitrary: m0)
    case (Cons kv kvs)
    have "distinct (map fst (AList.update (fst kv) (snd kv) m0))"
      by (rule distinct_update [OF Cons.prems])
    from Cons.IH [OF this] update_entry [of _ "fst kv" "snd kv" m0] show ?case
      by (fastforce simp: subset_iff)
  qed simp
  from this [of "[]"] that show thesis by (auto simp: object_of_def)
qed

subsection \<open>Values that were read\<close>

lemma map_fixes: "map f xs = xs \<longleftrightarrow> (\<forall>x \<in> set xs. f x = x)"
  by (induction xs) auto

lemma plain_at_mono: "plain_at d j \<Longrightarrow> d \<le> e \<Longrightarrow> plain_at e j"
proof (induction d j arbitrary: e rule: plain_at.induct)
  case (5 d xs)
  from 5(2,3) obtain k k' where k: "d = Suc k" "e = Suc k'" "k \<le> k'" by (cases d; cases e) simp_all
  have "plain_at k' x" if "x \<in> set xs" for x
    by (rule 5(1) [OF k(1) that _ k(3)]) (use 5(2) k(1) that in \<open>simp add: list_all_iff\<close>)
  then show ?case by (simp add: k list_all_iff)
next
  case (6 d kvs)
  from 6(2,3) obtain k k' where k: "d = Suc k" "e = Suc k'" "k \<le> k'" by (cases d; cases e) simp_all
  have "plain_at k' (snd kv)" if "kv \<in> set kvs" for kv
    by (rule 6(1) [OF k(1) that _ k(3)]) (use 6(2) k(1) that in \<open>simp add: list_all_iff\<close>)
  then show ?case by (simp add: k list_all_iff)
qed simp_all

definition clean_at :: "nat \<Rightarrow> json \<Rightarrow> bool" where
  "clean_at d j \<longleftrightarrow> plain_at d j \<and> clean_json j = j"

lemma clean_at_simps [simp]:
  "clean_at d JNull" "clean_at d (JBool b)" "clean_at d (JNum n) \<longleftrightarrow> number_text n" "clean_at d (JStr s) \<longleftrightarrow> utf8 s"
  "clean_at (Suc d) (JArr xs) \<longleftrightarrow> list_all (clean_at d) xs"
  by (auto simp: clean_at_def utf8_def list_all_iff map_fixes)

definition clean_member :: "nat \<Rightarrow> string \<times> json \<Rightarrow> bool" where
  "clean_member d kv \<longleftrightarrow> utf8 (fst kv) \<and> clean_at d (snd kv)"

lemma clean_at_object:
  assumes "distinct (map fst kvs)" and "\<forall>kv \<in> set kvs. clean_member d kv"
  shows "clean_at (Suc d) (JObj kvs)"
proof -
  have "map (\<lambda>kv. (clean_string (fst kv), clean_json (snd kv))) kvs = kvs"
    using assms(2) by (auto simp: clean_member_def clean_at_def utf8_def intro!: map_idI)
  then show ?thesis
    using assms object_of_distinct [OF assms(1)]
    by (simp add: clean_at_def list_all_iff clean_member_def)
qed

lemma clean_object_fields:
  assumes "clean_at (Suc d) (JObj kvs)"
  shows "object_of kvs = JObj kvs" and "distinct (map fst kvs)" and "\<forall>kv \<in> set kvs. clean_member d kv"
proof -
  let ?clean = "\<lambda>kv. (clean_string (fst kv), clean_json (snd kv))"
  obtain m where m: "object_of (map ?clean kvs) = JObj m" "distinct (map fst m)" "set m \<subseteq> set (map ?clean kvs)"
    by (rule object_of_cases)
  with assms have eq: "m = kvs" by (simp add: clean_at_def)
  let ?l = "map ?clean kvs"
  have "card (set ?l) \<le> card (set m)"
    using card_length [of ?l] distinct_card [of m] m(2) eq by (auto simp: distinct_map)
  with m(3) have set: "set m = set ?l" by (intro card_seteq) auto
  have "card (set ?l) = length ?l"
    unfolding set [symmetric] using distinct_card [of m] m(2) eq by (auto simp: distinct_map)
  then have "distinct ?l" by (rule card_distinct)
  then have l: "distinct (map fst ?l)" using m(2) set by (simp only: distinct_map)
  then have fixed: "?l = kvs" using object_of_distinct [OF l] m(1) eq by simp
  then show d: "distinct (map fst kvs)" using l by simp
  then show "object_of kvs = JObj kvs" by (rule object_of_distinct)
  from fixed have "\<forall>kv \<in> set kvs. ?clean kv = kv" by (simp only: map_fixes)
  then show "\<forall>kv \<in> set kvs. clean_member d kv"
    using assms by (fastforce simp: clean_member_def clean_at_def utf8_def list_all_iff)
qed

lemma clean_object_of:
  assumes "list_all (clean_member d) kvs"
  shows "clean_at (Suc d) (object_of kvs)"
proof -
  obtain m where "object_of kvs = JObj m" "distinct (map fst m)" "set m \<subseteq> set kvs"
    by (rule object_of_cases)
  with assms clean_at_object [of m d] show ?thesis by (auto simp: list_all_iff)
qed

lemma read_word_clean: "read_word w v s = Some (u, t) \<Longrightarrow> u = v"
  by (simp add: read_word_def split: if_splits)

lemma read_clean:
  "(\<forall>v rest. read_value d s = Some (v, rest) \<longrightarrow> clean_at d v)"
  "(\<forall>vs rest. read_elems d s = Some (vs, rest) \<longrightarrow> list_all (clean_at d) vs)"
  "(\<forall>kvs rest. read_members d s = Some (kvs, rest) \<longrightarrow> list_all (clean_member d) kvs)"
proof (induction d s and d s and d s rule: read_value_read_elems_read_members.induct)
  case (2 d c s)
  show ?case
  proof (intro allI impI)
    fix v rest
    assume r: "read_value d (c # s) = Some (v, rest)"
    show "clean_at d v"
    proof (cases "c = CHR ''['' \<or> c = CHR ''{''")
      case False
      with r show ?thesis
        by (auto simp: read_value.simps(2) dest!: read_word_clean dest: read_number_number read_chars_utf8
            split: if_splits)
    next
      case True
      with r obtain k where k: "d = Suc k" by (cases d) (auto simp: read_value.simps(2))
      obtain b t where s1: "skip_space s = b # t" using r True k by (auto simp: read_value.simps(2) Let_def split: list.splits)
      have le: "length (skip_space s) \<le> length s" by (rule skip_space_shorter)
      show ?thesis
      proof (cases "c = CHR ''[''")
        case True
        with r k s1 2(1) le show ?thesis
          by (fastforce simp: read_value.simps(2) Let_def split: if_splits)
      next
        case False
        with \<open>c = CHR ''['' \<or> c = CHR ''{''\<close> r k s1 2(2) le show ?thesis
          using clean_at_object [of "[]" k]
          by (fastforce simp: read_value.simps(2) Let_def clean_object_of split: if_splits)
      qed
    qed
  qed
next
  case (3 d s)
  show ?case
  proof (intro allI impI)
    fix vs rest
    assume r: "read_elems d s = Some (vs, rest)"
    then obtain v rest1 b t where v: "read_value d s = Some (v, rest1)" "skip_space rest1 = b # t"
      by (subst (asm) read_elems.simps) (auto split: option.splits list.splits)
    have "clean_at d v" using 3(1) v(1) by blast
    with 3(2) [OF v(1) refl v(2)] r show "list_all (clean_at d) vs"
      by (subst (asm) read_elems.simps) (fastforce simp: v Let_def split: if_splits)
  qed
next
  case (5 d c s)
  show ?case
  proof (intro allI impI)
    fix kvs rest
    assume r: "read_members d (c # s) = Some (kvs, rest)"
    then obtain k rest0 t where c: "c = quote" and k: "read_chars s = Some (k, rest0)" "skip_space rest0 = CHR '':'' # t"
      by (auto simp: read_members.simps(2) split: option.splits list.splits if_splits)
    have t: "length t < length s" using read_chars_shorter [OF k(1)] skip_space_Cons [OF k(2)] by simp
    with skip_space_shorter [of t] have s1: "length (skip_space t) < length (c # s)" by simp
    with r c k obtain v rest1 b t1 where v: "read_value d (skip_space t) = Some (v, rest1)" "skip_space rest1 = b # t1"
      by (auto simp: read_members.simps(2) Let_def split: option.splits list.splits)
    have "clean_at d v" using 5(1) c k s1 v(1) by auto
    then have m: "clean_member d (k, v)" using read_chars_utf8 [OF k(1)] by (simp add: clean_member_def)
    show "list_all (clean_member d) kvs"
    proof (cases "b = CHR ''}''")
      case True
      with r c k s1 v have "kvs = [(k, v)]" by (simp add: read_members.simps(2) Let_def)
      with m show ?thesis by simp
    next
      case False
      with r c k s1 v obtain kvs' where "b = CHR '',''" "length (skip_space t1) < length (c # s)"
        "read_members d (skip_space t1) = Some (kvs', rest)" "kvs = (k, v) # kvs'"
        by (auto simp: read_members.simps(2) Let_def split: if_splits)
      with 5(2) c k s1 v False m show ?thesis by fastforce
    qed
  qed
qed (simp_all add: read_value.simps read_members.simps)

lemma json_decode_clean: "json_decode s = DecodeValue v rest \<Longrightarrow> clean_at max_nesting v"
  using read_clean(1) by (auto simp: json_decode_def Let_def split: if_splits option.splits)

lemma json_decode_printed: "clean_at max_nesting v \<Longrightarrow> json_decode (marshal v) = DecodeValue v []"
  using json_decode_marshal [of max_nesting v] by (simp add: clean_at_def)

lemma json_valid_printed: "clean_at max_nesting v \<Longrightarrow> json_valid (marshal v)"
  using json_valid_marshal [of max_nesting v] by (simp add: clean_at_def)

lemma clean_at_nonempty: "clean_at d v \<Longrightarrow> marshal v \<noteq> []"
  using marshal_not_Nil clean_at_def by blast

text \<open>Whatever was printed from is read back clean.\<close>

lemma clean_json_clean:
  assumes "plain_at d j"
  shows "clean_at d (clean_json j)"
  using assms
proof (induction d j rule: plain_at.induct)
  case (5 d xs)
  then show ?case by (cases d) (auto simp: list_all_iff)
next
  case (6 d kvs)
  then obtain k where d: "d = Suc k" by (cases d) auto
  have "list_all (clean_member k) (map (\<lambda>kv. (clean_string (fst kv), clean_json (snd kv))) kvs)"
    using 6 d by (auto simp: list_all_iff clean_member_def)
  from clean_object_of [OF this] show ?case by (simp add: d)
qed simp_all

lemma number_digits [simp]: "number_text (digits_of n)"
proof -
  have "length (digits_of 0) = 1" by (simp add: digits_of.simps)
  then show ?thesis using digits_of_ok [of n] digits_of_hd [of n] by (auto intro: number_text_digits)
qed

lemma plain_at_nat [simp]: "plain_at d (json_nat n)"
  by (simp add: json_nat_def)

end
