(* ===== verification/Go_Json_Struct.thy ===== *)
theory Go_Json_Struct
  imports Go_Json_Values
begin

text \<open>
  \<open>encoding/json\<close>, decoding into Go values: \<open>json.Unmarshal\<close> and \<open>Decoder.Decode\<close> into strings,
  unsigned integers, raw messages, slices, structs and maps of strings. As in the package a
  document is first scanned as a whole and then read a second time, value by value: a decoder
  takes the value the target has before and the text of one JSON value, and returns the value the
  target has after, or \<open>None\<close> where the package reports an error (its text is not modelled). \<open>null\<close>
  leaves a target as it is, or makes a slice nil. A struct field is found by its exact name, else
  by the name up to the folding of case; a name given twice is decoded twice into the same field.
\<close>

subsection \<open>The texts of the parts\<close>

text \<open>The text of the value at the start of a string, and what follows it.\<close>

definition value_text :: "string \<Rightarrow> (string \<times> string) option" where
  "value_text s =
     (case read_value max_nesting s of
        None \<Rightarrow> None
      | Some (_, rest) \<Rightarrow> Some (take (length s - length rest) s, rest))"

lemma value_text_shorter: "value_text s = Some (v, t) \<Longrightarrow> length t < length s"
  using read_shorter(1) [of max_nesting s] by (auto simp: value_text_def split: option.splits)

lemma value_text_space: "value_text (skip_space s) = Some (v, t) \<Longrightarrow> length t < length s"
  using value_text_shorter skip_space_shorter [of s] by fastforce

function raw_elems :: "string \<Rightarrow> string list option" where
  "raw_elems s =
     (case value_text (skip_space s) of
        None \<Rightarrow> None
      | Some (v, rest) \<Rightarrow>
          (case skip_space rest of
             [] \<Rightarrow> None
           | b # t \<Rightarrow>
               if b = CHR '']'' then Some [v]
               else if b = CHR '','' then map_option (\<lambda>vs. v # vs) (raw_elems t)
               else None))"
  by pat_completeness auto
termination
  by (relation "measure length") (auto dest!: value_text_space skip_space_Cons)

text \<open>The name of the next member, unquoted, and what follows its colon.\<close>

definition member_name :: "string \<Rightarrow> (string \<times> string) option" where
  "member_name s =
     (case skip_space s of
        [] \<Rightarrow> None
      | c # s1 \<Rightarrow>
          if c \<noteq> quote then None
          else case read_chars s1 of
            None \<Rightarrow> None
          | Some (k, rest) \<Rightarrow>
              (case skip_space rest of
                 [] \<Rightarrow> None
               | b # t \<Rightarrow> if b = CHR '':'' then Some (k, t) else None))"

lemma member_name_shorter: "member_name s = Some (k, t) \<Longrightarrow> length t < length s"
proof -
  assume m: "member_name s = Some (k, t)"
  then obtain s1 rest where s: "skip_space s = quote # s1" "read_chars s1 = Some (k, rest)" "skip_space rest = CHR '':'' # t"
    by (auto simp: member_name_def split: list.splits option.splits if_splits)
  from skip_space_Cons [OF s(1)] read_chars_shorter [OF s(2)] skip_space_Cons [OF s(3)] show ?thesis by simp
qed

function raw_members :: "string \<Rightarrow> (string \<times> string) list option" where
  "raw_members s =
     (case member_name s of
        None \<Rightarrow> None
      | Some (k, s1) \<Rightarrow>
          (case value_text (skip_space s1) of
             None \<Rightarrow> None
           | Some (v, rest) \<Rightarrow>
               (case skip_space rest of
                  [] \<Rightarrow> None
                | b # t \<Rightarrow>
                    if b = CHR ''}'' then Some [(k, v)]
                    else if b = CHR '','' then map_option (\<lambda>kvs. (k, v) # kvs) (raw_members t)
                    else None)))"
  by pat_completeness auto
termination
  by (relation "measure length") (auto dest!: value_text_space skip_space_Cons member_name_shorter)

declare raw_elems.simps [simp del] raw_members.simps [simp del]

definition elements_of :: "string \<Rightarrow> string list option" where
  "elements_of t =
     (case t of
        [] \<Rightarrow> None
      | c # s \<Rightarrow>
          if c \<noteq> CHR ''['' then None
          else case skip_space s of
            [] \<Rightarrow> None
          | b # _ \<Rightarrow> if b = CHR '']'' then Some [] else raw_elems s)"

definition members_of :: "string \<Rightarrow> (string \<times> string) list option" where
  "members_of t =
     (case t of
        [] \<Rightarrow> None
      | c # s \<Rightarrow>
          if c \<noteq> CHR ''{'' then None
          else case skip_space s of
            [] \<Rightarrow> None
          | b # _ \<Rightarrow> if b = CHR ''}'' then Some [] else raw_members s)"

subsection \<open>Decoders\<close>

type_synonym 'a decoder = "'a \<Rightarrow> string \<Rightarrow> 'a option"

definition dec_string :: "string decoder" where
  "dec_string old t =
     (if t = ''null'' then Some old
      else case t of
        [] \<Rightarrow> None
      | c # s \<Rightarrow> if c = quote then map_option fst (read_chars s) else None)"

text \<open>An unsigned integer of the width of the target: digits only, and in range.\<close>

definition dec_uint :: "('a :: len) word decoder" where
  "dec_uint old t =
     (if t = ''null'' then Some old
      else if t \<noteq> [] \<and> list_all is_digit t \<and> digits_val t < 2 ^ LENGTH('a)
      then Some (of_nat (digits_val t)) else None)"

text \<open>A \<open>json.RawMessage\<close> takes the text as it is, also \<open>null\<close>.\<close>

definition dec_raw :: "string decoder" where
  "dec_raw old t = Some t"

text \<open>A slice with its backing array: elements past the length are kept, and come back when a
  later array of the same field is longer.\<close>

datatype 'a slice = NilSlice | Slice "'a list" nat

definition slice_backing :: "'a slice \<Rightarrow> 'a list" where
  "slice_backing sl = (case sl of NilSlice \<Rightarrow> [] | Slice b _ \<Rightarrow> b)"

definition slice_list :: "'a slice \<Rightarrow> 'a list" where
  "slice_list sl = (case sl of NilSlice \<Rightarrow> [] | Slice b n \<Rightarrow> take n b)"

definition slice_option :: "'a slice \<Rightarrow> 'a list option" where
  "slice_option sl = (case sl of NilSlice \<Rightarrow> None | Slice b n \<Rightarrow> Some (take n b))"

fun dec_elems :: "'a decoder \<Rightarrow> 'a \<Rightarrow> 'a list \<Rightarrow> string list \<Rightarrow> 'a list option" where
  "dec_elems dec zero backing [] = Some backing"
| "dec_elems dec zero backing (t # ts) =
     (case dec (case backing of [] \<Rightarrow> zero | x # _ \<Rightarrow> x) t of
        None \<Rightarrow> None
      | Some v \<Rightarrow> map_option (\<lambda>vs. v # vs) (dec_elems dec zero (tl backing) ts))"

definition dec_slice :: "'a decoder \<Rightarrow> 'a \<Rightarrow> 'a slice decoder" where
  "dec_slice dec zero old t =
     (if t = ''null'' then Some NilSlice
      else case elements_of t of
        None \<Rightarrow> None
      | Some ts \<Rightarrow>
          if ts = [] then Some (Slice [] 0)
          else map_option (\<lambda>vs. Slice vs (length ts)) (dec_elems dec zero (slice_backing old) ts))"

text \<open>The folding of case that finds a field: ASCII letters, and the two other code points that
  fold to one. Field names are ASCII, so the rest of the Unicode table makes no difference.\<close>

definition fold_rune :: "nat \<Rightarrow> nat" where
  "fold_rune r =
     (if 97 \<le> r \<and> r \<le> 122 then r - 32 else if r = 383 then 83 else if r = 8490 then 75 else r)"

definition fold_name :: "string \<Rightarrow> nat list" where
  "fold_name s = map (\<lambda>d. fold_rune (fst d)) (runes s)"

type_synonym 'a fields = "(string \<times> 'a decoder) list"

definition find_field :: "'a fields \<Rightarrow> string \<Rightarrow> 'a decoder option" where
  "find_field fs k =
     (case map_of fs k of
        Some dec \<Rightarrow> Some dec
      | None \<Rightarrow> map_option snd (List.find (\<lambda>f. fold_name (fst f) = fold_name k) fs))"

text \<open>The members in the order they are given; \<open>strict\<close> is \<open>DisallowUnknownFields\<close>.\<close>

fun dec_members :: "bool \<Rightarrow> 'a fields \<Rightarrow> 'a \<Rightarrow> (string \<times> string) list \<Rightarrow> 'a option" where
  "dec_members strict fs old [] = Some old"
| "dec_members strict fs old ((k, t) # kvs) =
     (case find_field fs k of
        None \<Rightarrow> if strict then None else dec_members strict fs old kvs
      | Some dec \<Rightarrow>
          (case dec old t of
             None \<Rightarrow> None
           | Some new \<Rightarrow> dec_members strict fs new kvs))"

definition dec_struct :: "bool \<Rightarrow> 'a fields \<Rightarrow> 'a decoder" where
  "dec_struct strict fs old t =
     (if t = ''null'' then Some old
      else case members_of t of None \<Rightarrow> None | Some kvs \<Rightarrow> dec_members strict fs old kvs)"

text \<open>A field of a record as a decoder of the record.\<close>

definition on_field :: "('a \<Rightarrow> 'b) \<Rightarrow> ('b \<Rightarrow> 'a \<Rightarrow> 'a) \<Rightarrow> 'b decoder \<Rightarrow> 'a decoder" where
  "on_field get put dec old t = map_option (\<lambda>v. put v old) (dec (get old) t)"

text \<open>A \<open>map[string]string\<close>: its entries with distinct keys; \<open>None\<close> inside is the nil map.\<close>

fun dec_entries :: "(string \<times> string) list \<Rightarrow> (string \<times> string) list \<Rightarrow> (string \<times> string) list option" where
  "dec_entries m [] = Some m"
| "dec_entries m ((k, t) # kvs) =
     (case dec_string [] t of None \<Rightarrow> None | Some v \<Rightarrow> dec_entries (AList.update k v m) kvs)"

definition dec_string_map :: "(string \<times> string) list option decoder" where
  "dec_string_map old t =
     (if t = ''null'' then Some None
      else case members_of t of
        None \<Rightarrow> None
      | Some kvs \<Rightarrow> map_option Some (dec_entries (case old of None \<Rightarrow> [] | Some m \<Rightarrow> m) kvs))"

text \<open>\<open>json.Unmarshal\<close>, and one \<open>Decoder.Decode\<close> with the bytes that are left.\<close>

definition unmarshal :: "'a decoder \<Rightarrow> 'a \<Rightarrow> bytes \<Rightarrow> 'a option" where
  "unmarshal dec old s =
     (if json_valid s
      then (case value_text (skip_space s) of None \<Rightarrow> None | Some (t, _) \<Rightarrow> dec old t)
      else None)"

definition decode_next :: "'a decoder \<Rightarrow> 'a \<Rightarrow> bytes \<Rightarrow> ('a \<times> bytes) option" where
  "decode_next dec old s =
     (case value_text (skip_space s) of
        None \<Rightarrow> None
      | Some (t, rest) \<Rightarrow> map_option (\<lambda>v. (v, rest)) (dec old t))"

subsection \<open>Decoding what was printed\<close>

text \<open>Texts that are read as one value whatever comes next.\<close>

definition value_lit :: "string \<Rightarrow> bool" where
  "value_lit v \<longleftrightarrow> (\<forall>t. ends_value t \<longrightarrow> value_text (v @ t) = Some (v, t))
     \<and> (\<exists>c s. v = c # s \<and> \<not> is_json_space c \<and> c \<noteq> CHR '']'' \<and> c \<noteq> CHR ''}'')"

lemma value_lit_marshal:
  assumes "plain_at k j" and "k \<le> max_nesting"
  shows "value_lit (marshal j)"
proof -
  have "value_text (marshal j @ t) = Some (marshal j, t)" if "ends_value t" for t
    using read_marshal [OF assms that] by (simp add: value_text_def)
  moreover obtain c s where "marshal j = c # s" "\<not> is_json_space c" "c \<noteq> CHR '']''" "c \<noteq> CHR ''}''"
    by (rule marshal_head [OF assms(1)])
  ultimately show ?thesis by (auto simp: value_lit_def)
qed

lemma value_lit_text:
  assumes "value_lit v" and "ends_value t"
  shows "value_text (skip_space (v @ t)) = Some (v, t)" and "skip_space (v @ t) = v @ t"
proof -
  obtain c s where c: "v = c # s" "\<not> is_json_space c" using assms(1) by (auto simp: value_lit_def)
  then show sp: "skip_space (v @ t) = v @ t" by simp
  show "value_text (skip_space (v @ t)) = Some (v, t)"
    using assms unfolding sp by (auto simp: value_lit_def)
qed

lemma raw_elems_lits:
  assumes "\<forall>v \<in> set vs. value_lit v" and "vs \<noteq> []"
  shows "raw_elems (join '','' vs @ CHR '']'' # t) = Some vs"
  using assms
proof (induction vs)
  case (Cons v vs)
  have v: "value_lit v" using Cons.prems(1) by simp
  show ?case
  proof (cases "vs = []")
    case True
    then show ?thesis
      using value_lit_text(1) [OF v, of "CHR '']'' # t"] by (subst raw_elems.simps) simp
  next
    case False
    let ?rest = "join '','' vs @ CHR '']'' # t"
    have eq: "join '','' (v # vs) @ CHR '']'' # t = v @ CHR '','' # ?rest"
      using False by (cases vs) auto
    have "raw_elems ?rest = Some vs" using Cons False by simp
    then show ?thesis
      unfolding eq using value_lit_text(1) [OF v, of "CHR '','' # ?rest"] by (subst raw_elems.simps) simp
  qed
qed simp

lemma elements_of_lits:
  assumes "\<forall>v \<in> set vs. value_lit v"
  shows "elements_of (''['' @ join '','' vs @ '']'') = Some vs"
proof (cases "vs = []")
  case True
  then show ?thesis by (simp add: elements_of_def)
next
  case False
  then obtain v ws where vs: "vs = v # ws" by (cases vs) auto
  then have "value_lit v" using assms by simp
  then obtain c s where c: "v = c # s" "\<not> is_json_space c" "c \<noteq> CHR '']''" by (auto simp: value_lit_def)
  then obtain u where "join '','' vs @ '']'' = c # u" using vs by (cases ws) auto
  with raw_elems_lits [OF assms False, of "[]"] c show ?thesis by (simp add: elements_of_def)
qed

text \<open>A member as it is printed.\<close>

definition print_member :: "string \<times> string \<Rightarrow> string" where
  "print_member kv = json_string (fst kv) @ '':'' @ snd kv"

lemma member_name_printed:
  assumes "value_lit v"
  shows "member_name (print_member (k, v) @ t) = Some (clean_string k, v @ t)"
  using read_chars_string [of k "CHR '':'' # v @ t"]
  by (simp add: member_name_def print_member_def json_string_def)

lemma raw_members_lits:
  assumes "\<forall>kv \<in> set kvs. value_lit (snd kv)" and "kvs \<noteq> []"
  shows "raw_members (join '','' (map print_member kvs) @ CHR ''}'' # t)
    = Some (map (\<lambda>kv. (clean_string (fst kv), snd kv)) kvs)"
  using assms
proof (induction kvs)
  case (Cons kv kvs)
  obtain k v where kv: "kv = (k, v)" by (cases kv)
  have v: "value_lit v" using Cons.prems(1) kv by simp
  show ?case
  proof (cases "kvs = []")
    case True
    then show ?thesis
      using value_lit_text(1) [OF v, of "CHR ''}'' # t"] member_name_printed [OF v, of k "CHR ''}'' # t"] kv
      by (subst raw_members.simps) simp
  next
    case False
    let ?rest = "join '','' (map print_member kvs) @ CHR ''}'' # t"
    have eq: "join '','' (map print_member (kv # kvs)) @ CHR ''}'' # t = print_member (k, v) @ CHR '','' # ?rest"
      using False kv by (cases kvs) auto
    have "raw_members ?rest = Some (map (\<lambda>kv. (clean_string (fst kv), snd kv)) kvs)"
      using Cons.IH Cons.prems False by simp
    then show ?thesis
      unfolding eq
      using value_lit_text(1) [OF v, of "CHR '','' # ?rest"] member_name_printed [OF v, of k "CHR '','' # ?rest"] kv
      by (subst raw_members.simps) simp
  qed
qed simp

lemma members_of_lits:
  assumes "\<forall>kv \<in> set kvs. value_lit (snd kv)"
  shows "members_of (''{'' @ join '','' (map print_member kvs) @ ''}'')
    = Some (map (\<lambda>kv. (clean_string (fst kv), snd kv)) kvs)"
proof (cases "kvs = []")
  case True
  then show ?thesis by (simp add: members_of_def)
next
  case False
  then obtain k v ws where kvs: "kvs = (k, v) # ws" by (cases kvs) auto
  obtain u where "join '','' (map print_member kvs) @ ''}'' = quote # u"
    unfolding kvs by (cases ws) (auto simp: print_member_def json_string_def)
  with raw_members_lits [OF assms False, of "[]"] show ?thesis by (simp add: members_of_def)
qed

lemma members_of_marshal:
  assumes "plain_at (Suc d) (JObj kvs)" and "d \<le> max_nesting"
  shows "members_of (marshal (JObj kvs)) = Some (map (\<lambda>kv. (clean_string (fst kv), marshal (snd kv))) kvs)"
proof -
  have "\<forall>kv \<in> set (map (\<lambda>kv. (fst kv, marshal (snd kv))) kvs). value_lit (snd kv)"
    using assms by (auto simp: list_all_iff intro: value_lit_marshal)
  from members_of_lits [OF this] show ?thesis by (simp add: print_member_def comp_def)
qed

lemma elements_of_marshal:
  assumes "plain_at (Suc d) (JArr xs)" and "d \<le> max_nesting"
  shows "elements_of (marshal (JArr xs)) = Some (map marshal xs)"
proof -
  have "\<forall>v \<in> set (map marshal xs). value_lit v"
    using assms by (auto simp: list_all_iff intro: value_lit_marshal)
  from elements_of_lits [OF this] show ?thesis by simp
qed

lemma dec_string_marshal [simp]: "dec_string old (marshal (JStr s)) = Some (clean_string s)"
  using read_chars_string [of s "[]"] by (simp add: dec_string_def json_string_def)

lemma dec_uint_marshal [simp]:
  "n < 2 ^ LENGTH('a) \<Longrightarrow> dec_uint (old :: ('a :: len) word) (marshal (json_nat n)) = Some (of_nat n)"
proof -
  have "digits_of n \<noteq> ''null''"
    using digits_of_ok [of n] by (auto simp: is_digit_def byte_in_def)
  then show "n < 2 ^ LENGTH('a) \<Longrightarrow> ?thesis" using digits_of_ok [of n] by (simp add: dec_uint_def json_nat_def)
qed

lemma marshal_not_null [simp]:
  "marshal (JObj kvs) \<noteq> ''null''" "marshal (JArr xs) \<noteq> ''null''" "marshal (JStr s) \<noteq> ''null''"
  by (simp_all add: json_string_def)

lemma unmarshal_marshal:
  assumes "plain_at k j" and "k \<le> max_nesting"
  shows "unmarshal dec old (marshal j) = dec old (marshal j)"
  using json_valid_marshal [OF assms] value_lit_text(1) [OF value_lit_marshal [OF assms], of "[]"]
  by (simp add: unmarshal_def)

lemma decode_next_marshal:
  assumes "plain_at k j" and "k \<le> max_nesting" and "ends_value t"
  shows "decode_next dec old (marshal j @ t) = map_option (\<lambda>v. (v, t)) (dec old (marshal j))"
  using value_lit_text(1) [OF value_lit_marshal [OF assms(1,2)] assms(3)]
  by (simp add: decode_next_def)

lemma dec_struct_marshal:
  assumes "plain_at (Suc d) (JObj kvs)" and "d \<le> max_nesting"
  shows "dec_struct strict fs old (marshal (JObj kvs))
    = dec_members strict fs old (map (\<lambda>kv. (clean_string (fst kv), marshal (snd kv))) kvs)"
  by (simp add: dec_struct_def members_of_marshal [OF assms] del: marshal.simps)

lemma dec_elems_fresh:
  "list_all2 (\<lambda>t v. dec zero t = Some v) ts vs \<Longrightarrow> dec_elems dec zero [] ts = Some vs"
  by (induction rule: list_all2_induct) simp_all

lemma dec_slice_marshal:
  assumes "plain_at (Suc d) (JArr xs)" and "d \<le> max_nesting"
    and "list_all2 (\<lambda>x v. dec zero (marshal x) = Some v) xs vs"
  shows "dec_slice dec zero NilSlice (marshal (JArr xs)) = Some (Slice vs (length vs))"
proof -
  have "dec_elems dec zero [] (map marshal xs) = Some vs"
    using assms(3) by (intro dec_elems_fresh) (simp add: list_all2_map1)
  then show ?thesis
    using list_all2_lengthD [OF assms(3)]
    by (auto simp: dec_slice_def elements_of_marshal [OF assms(1,2)] slice_backing_def simp del: marshal.simps)
qed

lemma clean_ascii [simp]: "list_all (\<lambda>c. of_char c < (128 :: nat)) s \<Longrightarrow> clean_string s = s"
proof -
  assume s: "list_all (\<lambda>c. of_char c < (128 :: nat)) s"
  then have "concat (map (\<lambda>c. encode_rune (of_char c)) s) = s"
    by (induction s) (simp_all add: encode_ascii)
  with s show ?thesis by (simp add: clean_string_def runes_ascii comp_def)
qed

text \<open>Texts that are printed between quotes as they are.\<close>

definition plain_char :: "char \<Rightarrow> bool" where
  "plain_char c \<longleftrightarrow> byte_in 32 127 c \<and> of_char c \<notin> {34, 92, 60, 62, 38 :: nat}"

lemma json_string_plain:
  assumes "list_all plain_char s"
  shows "json_string s = quote # s @ [quote]"
proof -
  have "list_all (\<lambda>c. of_char c < (128 :: nat)) s" using assms by (auto simp: list_all_iff plain_char_def byte_in_def)
  moreover have "concat (map (\<lambda>c. json_escape (of_char c, [c])) s) = s"
    using assms by (induction s) (auto simp: plain_char_def byte_in_def json_escape_def rune_error_def)
  ultimately show ?thesis by (simp add: json_string_def runes_ascii comp_def)
qed

end
