(* ===== verification/Go_Time_Parse.thy ===== *)
theory Go_Time_Parse
  imports Go_Time "HOL-Library.Monad_Syntax"
begin

text \<open>
  What \<open>Time.UnmarshalJSON\<close> accepts: \<open>time.parseRFC3339\<close> first, then \<open>time.Parse\<close> with the layout
  RFC 3339, which takes more (hours of one digit, a comma before the fraction, offsets up to 24
  hours and 60 minutes); and the proof that what \<open>MarshalJSON\<close> prints is read back: the calendar
  of \<open>Go_Time\<close> is inverted day by day.
\<close>

subsection \<open>The calendar\<close>

definition leap_year :: "int \<Rightarrow> bool" where
  "leap_year y \<longleftrightarrow> y mod 4 = 0 \<and> (y mod 100 \<noteq> 0 \<or> y mod 400 = 0)"

definition days_in :: "int \<Rightarrow> int \<Rightarrow> int" where
  "days_in m y =
     (if m = 2 then if leap_year y then 29 else 28
      else if m = 4 \<or> m = 6 \<or> m = 9 \<or> m = 11 then 30 else 31)"

text \<open>The day, counted from 0001-01-01, of a date.\<close>

definition days_of_civil :: "int \<Rightarrow> int \<Rightarrow> int \<Rightarrow> int" where
  "days_of_civil y m d =
     (let y' = (if m \<le> 2 then y - 1 else y);
          era = y' div 400;
          yoe = y' mod 400;
          mp = (if m \<le> 2 then m + 9 else m - 3);
          doy = (153 * mp + 2) div 5 + d - 1
      in era * 146097 + yoe * 365 + yoe div 4 - yoe div 100 + doy - 306)"

text \<open>A year that starts in March: every day of it belongs to one of its months.\<close>

lemma month_of_day:
  assumes "0 \<le> doy" and "doy \<le> (365 :: int)"
  defines "mp \<equiv> (5 * doy + 2) div 153"
  defines "d \<equiv> doy - (153 * mp + 2) div 5 + 1"
  shows "0 \<le> mp" and "mp \<le> 11" and "1 \<le> d"
    and "mp \<in> {1, 3, 6, 8} \<Longrightarrow> d \<le> 30" and "mp \<noteq> 11 \<Longrightarrow> d \<le> 31" and "mp = 11 \<Longrightarrow> d \<le> 29"
    and "mp = 11 \<Longrightarrow> doy < 365 \<Longrightarrow> d \<le> 28"
proof -
  have mp: "153 * mp \<le> 5 * doy + 2" "5 * doy + 2 < 153 * mp + 153"
    unfolding mp_def by linarith+
  then show "0 \<le> mp" "mp \<le> 11" "1 \<le> d" using assms(1,2) unfolding d_def by linarith+
  show "mp \<in> {1, 3, 6, 8} \<Longrightarrow> d \<le> 30" "mp \<noteq> 11 \<Longrightarrow> d \<le> 31" "mp = 11 \<Longrightarrow> d \<le> 29"
    "mp = 11 \<Longrightarrow> doy < 365 \<Longrightarrow> d \<le> 28"
    using mp assms(1,2) unfolding d_def by auto
qed

lemma year_of_day:
  fixes doe :: int
  assumes "0 \<le> doe" and "doe < 146097"
  defines "c \<equiv> min 3 (doe div 36524)"
  defines "r \<equiv> doe - 36524 * c"
  defines "q \<equiv> r div 1461"
  defines "s \<equiv> r - 1461 * q"
  defines "a \<equiv> min 3 (s div 365)"
  shows "0 \<le> c" "c \<le> 3" "0 \<le> q" "q \<le> 24" "0 \<le> a" "a \<le> 3" "0 \<le> s - 365 * a" "s - 365 * a \<le> 365"
    and "s - 365 * a = 365 \<Longrightarrow> a = 3 \<and> (q = 24 \<longrightarrow> c = 3)"
proof -
  show c: "0 \<le> c" "c \<le> 3" using assms(1) by (auto simp: c_def)
  have r: "0 \<le> r" "r \<le> 36524" "r < 36524 \<or> c = 3"
    unfolding r_def c_def using assms(1,2) by (auto simp: min_def)
  then show q: "0 \<le> q" "q \<le> 24" by (auto simp: q_def)
  have s: "0 \<le> s" "s \<le> 1460" unfolding s_def q_def using pos_mod_bound [of 1461 r] pos_mod_sign [of 1461 r]
    by (auto simp: minus_mult_div_eq_mod)
  then show a: "0 \<le> a" "a \<le> 3" "0 \<le> s - 365 * a" "s - 365 * a \<le> 365" by (auto simp: a_def min_def)
  show "s - 365 * a = 365 \<Longrightarrow> a = 3 \<and> (q = 24 \<longrightarrow> c = 3)"
    using s a q r c unfolding s_def a_def by (auto simp: min_def split: if_splits)
qed

lemma leap_fourth:
  fixes q c era :: int
  assumes "0 \<le> q" and "q \<le> 24" and "q = 24 \<longrightarrow> c = 3"
  shows "leap_year (400 * era + (100 * c + 4 * q + 3) + 1)"
proof -
  have four: "400 * era + (100 * c + 4 * q + 3) + 1 = 4 * (100 * era + 25 * c + q + 1)" by simp
  show ?thesis
  proof (cases "q = 24")
    case True
    then have "400 * era + (100 * c + 4 * q + 3) + 1 = 400 * (era + 1)" using assms(3) by simp
    then have "(400 * era + (100 * c + 4 * q + 3) + 1) mod 400 = 0" by (simp only: mod_mult_self1_is_0)
    then show ?thesis unfolding leap_year_def four by simp
  next
    case False
    have "400 * era + (100 * c + 4 * q + 3) + 1 = 4 * (q + 1) + (4 * era + c) * 100" by simp
    then have "(400 * era + (100 * c + 4 * q + 3) + 1) mod 100 = 4 * (q + 1) mod 100"
      by (simp only: mod_mult_self1)
    also have "\<dots> = 4 * (q + 1)" using assms(1,2) False by simp
    finally have "(400 * era + (100 * c + 4 * q + 3) + 1) mod 100 \<noteq> 0" using assms(1) by simp
    then show ?thesis unfolding leap_year_def four by simp
  qed
qed

lemma days_civil:
  assumes "civil_of_days z = (y, m, d)"
  shows "days_of_civil y m d = z" and "1 \<le> m" "m \<le> 12" "1 \<le> d" "d \<le> days_in m y"
proof -
  define doe where "doe = (z + 306) mod 146097"
  define era where "era = (z + 306) div 146097"
  define c where "c = min 3 (doe div 36524)"
  define r where "r = doe - 36524 * c"
  define q where "q = r div 1461"
  define s where "s = r - 1461 * q"
  define a where "a = min 3 (s div 365)"
  define doy where "doy = s - 365 * a"
  define mp where "mp = (5 * doy + 2) div 153"
  define yoe where "yoe = 100 * c + 4 * q + a"
  have doe: "0 \<le> doe" "doe < 146097" by (simp_all add: doe_def)
  note year = year_of_day [OF doe, folded c_def, folded r_def, folded q_def, folded s_def, folded a_def, folded doy_def]
  note month = month_of_day [OF year(7,8), folded mp_def]
  have "civil_of_days z =
      (400 * era + 100 * c + 4 * q + a + (if (if mp < 10 then mp + 3 else mp - 9) \<le> 2 then 1 else 0),
       (if mp < 10 then mp + 3 else mp - 9), doy - (153 * mp + 2) div 5 + 1)"
    by (simp only: civil_of_days_def Let_def era_def [symmetric] doe_def [symmetric] c_def [symmetric]
        r_def [symmetric] q_def [symmetric] s_def [symmetric] a_def [symmetric] doy_def [symmetric] mp_def [symmetric])
  with assms have m: "m = (if mp < 10 then mp + 3 else mp - 9)" and d: "d = doy - (153 * mp + 2) div 5 + 1"
    and y: "y = 400 * era + yoe + (if m \<le> 2 then 1 else 0)"
    by (auto simp: yoe_def)
  show "1 \<le> m" "m \<le> 12" "1 \<le> d" using m d month(1-3) by auto
  have yoe: "0 \<le> yoe" "yoe < 400" using year(1-6) by (auto simp: yoe_def)
  have y': "(if m \<le> 2 then y - 1 else y) = 400 * era + yoe" using y by simp
  have mp': "(if m \<le> 2 then m + 9 else m - 3) = mp" using m month(1,2) by auto
  have "yoe div 4 = 25 * c + q" "yoe div 100 = c" using year(1-6) by (auto simp: yoe_def)
  moreover have "(400 * era + yoe) div 400 = era" "(400 * era + yoe) mod 400 = yoe" using yoe by auto
  moreover have "z + 306 = era * 146097 + doe" by (simp add: era_def doe_def)
  ultimately show "days_of_civil y m d = z"
    unfolding days_of_civil_def Let_def y' mp' by (simp add: d yoe_def doy_def s_def r_def)
  show "d \<le> days_in m y"
  proof (cases "m = 2")
    case True
    then have mp11: "mp = 11" and y2: "y = 400 * era + yoe + 1" using m y month(1,2) by (auto split: if_splits)
    show ?thesis
    proof (cases "doy = 365")
      case True
      with year(9) have "a = 3" "q = 24 \<longrightarrow> c = 3" by auto
      then have "leap_year y" using leap_fourth [of q c era] year(3,4) by (simp add: y2 yoe_def)
      with \<open>m = 2\<close> month(6) [OF mp11] d show ?thesis by (simp add: days_in_def)
    next
      case False
      with year(8) month(7) [OF mp11] d \<open>m = 2\<close> show ?thesis by (simp add: days_in_def)
    qed
  next
    case False
    then show ?thesis
      using m d month by (auto simp: days_in_def split: if_splits)
  qed
qed

subsection \<open>Reading a time\<close>

text \<open>A number of decimal digits, within bounds.\<close>

definition parse_uint :: "string \<Rightarrow> int \<Rightarrow> int \<Rightarrow> int option" where
  "parse_uint s lo hi =
     (let x = int (digits_val s) in
      if list_all is_digit s \<and> lo \<le> x \<and> x \<le> hi then Some x else None)"

text \<open>The fraction of a second in nanoseconds, of which nine digits count, and what follows it.\<close>

definition parse_fraction :: "string \<Rightarrow> int \<times> string" where
  "parse_fraction s =
     (case s of
        p # c # _ \<Rightarrow>
          if p = CHR ''.'' \<and> is_digit c then
            (let ds = takeWhile is_digit (tl s); used = take 9 ds
             in (int (digits_val used) * 10 ^ (9 - length used), dropWhile is_digit (tl s)))
          else (0, s)
      | _ \<Rightarrow> (0, s))"

definition parse_zone :: "string \<Rightarrow> int option" where
  "parse_zone s =
     (if s = ''Z'' then Some 0
      else case s of
        [sg, h1, h2, co, m1, m2] \<Rightarrow>
          (case (parse_uint [h1, h2] 0 23, parse_uint [m1, m2] 0 59) of
             (Some h, Some m) \<Rightarrow>
               if (sg = CHR ''-'' \<or> sg = CHR ''+'') \<and> co = CHR '':''
               then Some ((if sg = CHR ''-'' then -1 else 1) * (h * 60 + m) * 60) else None
           | _ \<Rightarrow> None)
      | _ \<Rightarrow> None)"

text \<open>\<open>2006-01-02T15:04:05\<close>: the day and the second of the day.\<close>

definition parse_date_time :: "string \<Rightarrow> (int \<times> int) option" where
  "parse_date_time s =
     (case (parse_uint (take 4 s) 0 9999, parse_uint (take 2 (drop 5 s)) 1 12) of
        (Some y, Some m) \<Rightarrow>
          (case (parse_uint (take 2 (drop 8 s)) 1 (days_in m y), parse_uint (take 2 (drop 11 s)) 0 23,
                 parse_uint (take 2 (drop 14 s)) 0 59, parse_uint (take 2 (drop 17 s)) 0 59) of
             (Some d, Some hh, Some mm, Some ss) \<Rightarrow>
               if s ! 4 = CHR ''-'' \<and> s ! 7 = CHR ''-'' \<and> s ! 10 = CHR ''T'' \<and> s ! 13 = CHR '':'' \<and> s ! 16 = CHR '':''
               then Some (days_of_civil y m d, hh * 3600 + mm * 60 + ss) else None
           | _ \<Rightarrow> None)
      | _ \<Rightarrow> None)"

definition parse_rfc3339 :: "string \<Rightarrow> gotime option" where
  "parse_rfc3339 s =
     (if length s < 19 then None
      else case parse_date_time s of
        None \<Rightarrow> None
      | Some (day, sod) \<Rightarrow>
          (let (ns, rest) = parse_fraction (drop 19 s) in
           case parse_zone rest of
             None \<Rightarrow> None
           | Some off \<Rightarrow>
               Some \<lparr>instant = (day * 86400 + sod - off) * nanos_per_second + ns, zone = off\<rparr>))"

text \<open>\<open>time.Parse\<close> with \<open>2006-01-02T15:04:05Z07:00\<close>. \<open>getnum\<close> takes two digits, or one where the layout
  does not fix the width; \<open>skip\<close> takes a byte of the layout.\<close>

fun skip :: "char \<Rightarrow> string \<Rightarrow> string option" where
  "skip c [] = None"
| "skip c (x # s) = (if x = c then Some s else None)"

fun getnum :: "bool \<Rightarrow> string \<Rightarrow> (int \<times> string) option" where
  "getnum fixed (c # d # s) =
     (if \<not> is_digit c then None
      else if is_digit d then Some (int (digits_val [c, d]), s)
      else if fixed then None else Some (int (digits_val [c]), d # s))"
| "getnum fixed [c] = (if is_digit c \<and> \<not> fixed then Some (int (digits_val [c]), []) else None)"
| "getnum fixed [] = None"

definition num_in :: "bool \<Rightarrow> int \<Rightarrow> int \<Rightarrow> string \<Rightarrow> (int \<times> string) option" where
  "num_in fixed lo hi s =
     do { (x, rest) \<leftarrow> getnum fixed s; if lo \<le> x \<and> x \<le> hi then Some (x, rest) else None }"

definition long_year :: "string \<Rightarrow> (int \<times> string) option" where
  "long_year s =
     (if 4 \<le> length s \<and> list_all is_digit (take 4 s) then Some (int (digits_val (take 4 s)), drop 4 s) else None)"

definition layout_fraction :: "string \<Rightarrow> int \<times> string" where
  "layout_fraction s =
     (case s of
        p # c # rest \<Rightarrow>
          if (p = CHR ''.'' \<or> p = CHR '','') \<and> is_digit c then parse_fraction (CHR ''.'' # c # rest) else (0, s)
      | _ \<Rightarrow> (0, s))"

definition layout_zone :: "string \<Rightarrow> (int \<times> string) option" where
  "layout_zone s =
     (if s \<noteq> [] \<and> hd s = CHR ''Z'' then Some (0, tl s)
      else if length s < 6 \<or> s ! 3 \<noteq> CHR '':'' then None
      else do {
        (h, _) \<leftarrow> num_in True 0 24 (slice_of 1 3 s);
        (m, _) \<leftarrow> num_in True 0 60 (slice_of 4 6 s);
        if hd s = CHR ''+'' then Some ((h * 60 + m) * 60, drop 6 s)
        else if hd s = CHR ''-'' then Some (- ((h * 60 + m) * 60), drop 6 s) else None })"

definition parse_layout :: "string \<Rightarrow> gotime option" where
  "parse_layout s0 =
     do {
       (y, s) \<leftarrow> long_year s0; s \<leftarrow> skip CHR ''-'' s;
       (mo, s) \<leftarrow> num_in True 1 12 s; s \<leftarrow> skip CHR ''-'' s;
       (d, s) \<leftarrow> num_in True 1 (days_in mo y) s; s \<leftarrow> skip CHR ''T'' s;
       (hh, s) \<leftarrow> num_in False 0 23 s; s \<leftarrow> skip CHR '':'' s;
       (mm, s) \<leftarrow> num_in True 0 59 s; s \<leftarrow> skip CHR '':'' s;
       (ss, s) \<leftarrow> num_in True 0 59 s;
       (off, s') \<leftarrow> layout_zone (snd (layout_fraction s));
       if s' \<noteq> [] then None
       else Some \<lparr>instant = (days_of_civil y mo d * 86400 + hh * 3600 + mm * 60 + ss - off) * nanos_per_second
                              + fst (layout_fraction s),
                  zone = off\<rparr>
     }"

definition parse_time :: "string \<Rightarrow> gotime option" where
  "parse_time s = (case parse_rfc3339 s of Some t \<Rightarrow> Some t | None \<Rightarrow> parse_layout s)"

subsection \<open>Reading what was printed\<close>

lemma digits_val_Cons: "digits_val (c # s) = (of_char c - 48) * 10 ^ length s + digits_val s"
proof (induction s rule: rev_induct)
  case Nil
  show ?case by (simp add: digits_val_def)
next
  case (snoc x s)
  then show ?case using digits_val_snoc [of "c # s" x] by (simp add: algebra_simps)
qed

lemma digits_val_Nil [simp]: "digits_val [] = 0"
  by (simp add: digits_val_def)

lemma digits_val_zeros: "digits_val (replicate n CHR ''0'' @ s) = digits_val s"
  by (induction n) (simp_all add: digits_val_Cons)

lemma digits_of_length: "n < 10 ^ w \<Longrightarrow> 0 < w \<Longrightarrow> length (digits_of n) \<le> w"
proof (induction w arbitrary: n)
  case (Suc w)
  show ?case
  proof (cases "n < 10")
    case True
    then show ?thesis by (simp add: digits_of.simps [of n])
  next
    case False
    then have "0 < w" using Suc.prems(1) by (cases w) auto
    moreover have "n div 10 < 10 ^ w" using Suc.prems(1) by (simp add: less_mult_imp_div_less mult.commute)
    ultimately show ?thesis using Suc.IH False by (simp add: digits_of.simps [of n])
  qed
qed simp

lemma pad_digits_ok:
  assumes "0 \<le> i" and "i < 10 ^ w" and "0 < w"
  shows "length (pad_digits w i) = w" and "list_all is_digit (pad_digits w i)" and "int (digits_val (pad_digits w i)) = i"
proof -
  have "nat i < 10 ^ w" using assms(1,2) by (simp add: nat_less_iff)
  then show "length (pad_digits w i) = w"
    using assms(1) digits_of_length [OF _ assms(3)] by (simp add: pad_digits_def Let_def)
  show "list_all is_digit (pad_digits w i)"
    using assms(1) digits_of_ok [of "nat i"] by (auto simp: pad_digits_def Let_def list_all_iff is_digit_def byte_in_def)
  show "int (digits_val (pad_digits w i)) = i"
    using assms(1) digits_of_ok [of "nat i"] by (simp add: pad_digits_def Let_def digits_val_zeros)
qed

lemma parse_uint_pad:
  assumes "0 \<le> i" and "i < 10 ^ w" and "0 < w" and "lo \<le> i" and "i \<le> hi"
  shows "parse_uint (pad_digits w i) lo hi = Some i"
  using pad_digits_ok [OF assms(1-3)] assms(4,5) by (simp add: parse_uint_def)

lemma drop_zeros_digits:
  assumes "list_all is_digit s"
  shows "list_all is_digit (drop_zeros s)" and "length (drop_zeros s) \<le> length s"
    and "digits_val (drop_zeros s) * 10 ^ (length s - length (drop_zeros s)) = digits_val s"
proof -
  have len: "length (drop_zeros s) \<le> length s" for s using length_dropWhile_le [of _ "rev s"] by (simp add: drop_zeros_def)
  show "length (drop_zeros s) \<le> length s" by (rule len)
  show "list_all is_digit (drop_zeros s)"
    using assms by (auto simp: drop_zeros_def list_all_iff dest: set_dropWhileD)
  show "digits_val (drop_zeros s) * 10 ^ (length s - length (drop_zeros s)) = digits_val s"
  proof (induction s rule: rev_induct)
    case (snoc x s)
    show ?case
    proof (cases "x = CHR ''0''")
      case True
      then have "drop_zeros (s @ [x]) = drop_zeros s" by (simp add: drop_zeros_def)
      with snoc len [of s] show ?thesis by (simp add: True Suc_diff_le)
    next
      case False
      then show ?thesis by (simp add: drop_zeros_def)
    qed
  qed (simp add: drop_zeros_def)
qed

text \<open>A whole number of minutes less than a day.\<close>

definition zone_ok :: "int \<Rightarrow> bool" where
  "zone_ok off \<longleftrightarrow> off mod 60 = 0 \<and> \<bar>off\<bar> < 86400"

lemma pad_two:
  assumes "0 \<le> i" and "i < 100"
  obtains a b where "pad_digits 2 i = [a, b]" and "is_digit a" and "is_digit b"
proof -
  have len: "length (pad_digits 2 i) = 2" and dig: "list_all is_digit (pad_digits 2 i)"
    using pad_digits_ok [of i 2] assms by simp_all
  from len obtain a b where "pad_digits 2 i = [a, b]" by (auto simp: numeral_2_eq_2 length_Suc_conv)
  with dig that show thesis by simp
qed

lemma parse_zone_suffix:
  assumes "zone_ok off"
  shows "parse_zone (zone_suffix off) = Some off"
proof (cases "off = 0")
  case False
  define mins where "mins = \<bar>off\<bar> div 60"
  have off: "\<bar>off\<bar> = mins * 60" using assms by (auto simp: mins_def zone_ok_def abs_if)
  then have m: "0 < mins" "mins < 1440" using assms False by (auto simp: zone_ok_def)
  have h: "0 \<le> mins div 60" "mins div 60 \<le> 23" and mm: "0 \<le> mins mod 60" "mins mod 60 \<le> 59"
    using m by auto
  obtain a b where ab: "pad_digits 2 (mins div 60) = [a, b]" 
    by (rule pad_two [of "mins div 60"]) (use h in auto)
  obtain c d where cd: "pad_digits 2 (mins mod 60) = [c, d]" 
    by (rule pad_two [of "mins mod 60"]) (use mm in auto)
  have "parse_uint [a, b] 0 23 = Some (mins div 60)"
    using parse_uint_pad [of "mins div 60" 2 0 23] h ab by simp
  moreover have "parse_uint [c, d] 0 59 = Some (mins mod 60)"
    using parse_uint_pad [of "mins mod 60" 2 0 59] mm cd by simp
  moreover have "(mins div 60 * 60 + mins mod 60) * 60 = \<bar>off\<bar>" using off by simp
  ultimately show ?thesis
    using False m by (auto simp: zone_suffix_def mins_def [symmetric] Let_def ab cd parse_zone_def)
qed (simp add: zone_suffix_def parse_zone_def)

lemma zone_suffix_head: "zone_suffix off = c # s \<Longrightarrow> c \<noteq> CHR ''.'' \<and> \<not> is_digit c"
  by (auto simp: zone_suffix_def Let_def is_digit_def byte_in_def split: if_splits)

lemma zone_suffix_nonempty: "zone_suffix off \<noteq> []"
  by (simp add: zone_suffix_def Let_def)

lemma parse_fraction_none: "parse_fraction (zone_suffix off) = (0, zone_suffix off)"
proof -
  obtain c s where c: "zone_suffix off = c # s" using zone_suffix_nonempty by (cases "zone_suffix off") auto
  from zone_suffix_head [OF c] show ?thesis unfolding c by (auto simp: parse_fraction_def split: list.split)
qed

lemma parse_fraction_digits:
  assumes "0 < ns" and "ns < nanos_per_second"
  shows "parse_fraction (''.'' @ drop_zeros (pad_digits 9 ns) @ zone_suffix off) = (ns, zone_suffix off)"
proof -
  let ?p = "pad_digits 9 ns" and ?z = "zone_suffix off"
  have p: "length ?p = 9" "list_all is_digit ?p" "int (digits_val ?p) = ns"
    using pad_digits_ok [of ns 9] assms by (simp_all add: nanos_per_second_def)
  note dz = drop_zeros_digits [OF p(2)]
  have "drop_zeros ?p \<noteq> []"
    using dz(3) p(3) assms(1) by auto
  then obtain e f where ef: "drop_zeros ?p = e # f" "is_digit e" using dz(1) by (cases "drop_zeros ?p") auto
  obtain c s where c: "?z = c # s" using zone_suffix_nonempty by (cases ?z) auto
  then have z: "takeWhile is_digit ?z = []" "dropWhile is_digit ?z = ?z" using zone_suffix_head [OF c] by simp_all
  have tw: "takeWhile is_digit (drop_zeros ?p @ ?z) = drop_zeros ?p" "dropWhile is_digit (drop_zeros ?p @ ?z) = ?z"
    using dz(1) z by (simp_all add: list_all_iff takeWhile_append2 dropWhile_append2)
  have "int (digits_val (drop_zeros ?p)) * 10 ^ (9 - length (drop_zeros ?p)) = ns"
    using dz(3) p(1,3) by (metis of_nat_mult of_nat_numeral of_nat_power)
  moreover have "take 9 (drop_zeros ?p) = drop_zeros ?p" using dz(2) p(1) by simp
  ultimately show ?thesis
    using tw unfolding parse_fraction_def ef by (simp add: ef(2) Let_def)
qed

lemma pad_four:
  assumes "0 \<le> i" and "i < 10000"
  obtains a b c d where "pad_digits 4 i = [a, b, c, d]"
proof -
  have "length (pad_digits 4 i) = 4" using pad_digits_ok [of i 4] assms by simp
  then show thesis using that by (auto simp: eval_nat_numeral length_Suc_conv)
qed

text \<open>The fixed part of a time: the year in four digits, everything else in two.\<close>

lemma parse_printed_date:
  assumes y: "0 \<le> y" "y \<le> 9999" and m: "1 \<le> m" "m \<le> 12" and d: "1 \<le> d" "d \<le> days_in m y"
    and sod: "0 \<le> sod" "sod < 86400"
    and s_eq: "s = pad_digits 4 y @ ''-'' @ pad_digits 2 m @ ''-'' @ pad_digits 2 d @ ''T''
      @ pad_digits 2 (sod div 3600) @ '':'' @ pad_digits 2 (sod div 60 mod 60) @ '':'' @ pad_digits 2 (sod mod 60) @ rest"
  shows "parse_date_time s = Some (days_of_civil y m d, sod)" and "drop 19 s = rest" and "19 \<le> length s"
proof -
  have d31: "d \<le> 31" using d by (auto simp: days_in_def split: if_splits)
  have hh: "0 \<le> sod div 3600" "sod div 3600 \<le> 23" and mm: "0 \<le> sod div 60 mod 60" "sod div 60 mod 60 \<le> 59"
    and ss: "0 \<le> sod mod 60" "sod mod 60 \<le> 59"
    using sod by auto
  obtain y1 y2 y3 y4 where yl: "pad_digits 4 y = [y1, y2, y3, y4]" by (rule pad_four [of y]) (use y in auto)
  obtain m1 m2 where ml: "pad_digits 2 m = [m1, m2]" by (rule pad_two [of m]) (use m in auto)
  obtain d1 d2 where dl: "pad_digits 2 d = [d1, d2]" by (rule pad_two [of d]) (use d d31 in auto)
  obtain h1 h2 where hl: "pad_digits 2 (sod div 3600) = [h1, h2]" by (rule pad_two [of "sod div 3600"]) (use hh in auto)
  obtain i1 i2 where il: "pad_digits 2 (sod div 60 mod 60) = [i1, i2]"
    by (rule pad_two [of "sod div 60 mod 60"]) (use mm in auto)
  obtain s1 s2 where sl: "pad_digits 2 (sod mod 60) = [s1, s2]" by (rule pad_two [of "sod mod 60"]) (use ss in auto)
  have s: "s = y1 # y2 # y3 # y4 # CHR ''-'' # m1 # m2 # CHR ''-'' # d1 # d2 # CHR ''T'' # h1 # h2 # CHR '':''
      # i1 # i2 # CHR '':'' # s1 # s2 # rest"
    by (simp add: s_eq yl ml dl hl il sl)
  show "drop 19 s = rest" "19 \<le> length s" by (simp_all add: s)
  have parts: "parse_uint [y1, y2, y3, y4] 0 9999 = Some y" "parse_uint [m1, m2] 1 12 = Some m"
    "parse_uint [d1, d2] 1 (days_in m y) = Some d" "parse_uint [h1, h2] 0 23 = Some (sod div 3600)"
    "parse_uint [i1, i2] 0 59 = Some (sod div 60 mod 60)" "parse_uint [s1, s2] 0 59 = Some (sod mod 60)"
    using y m d d31 hh mm ss
    by (simp_all add: yl [symmetric] ml [symmetric] dl [symmetric] hl [symmetric] il [symmetric] sl [symmetric]
        parse_uint_pad)
  have "sod div 3600 = sod div 60 div 60" by (simp flip: zdiv_zmult2_eq)
  then have "sod div 3600 * 3600 + sod div 60 mod 60 * 60 + sod mod 60 = sod"
    using div_mult_mod_eq [of "sod div 60" 60] div_mult_mod_eq [of sod 60] by linarith
  with parts show "parse_date_time s = Some (days_of_civil y m d, sod)"
    by (simp add: parse_date_time_def s)
qed

lemma parse_format:
  assumes "time_marshal_error t = None" and "zone t mod 60 = 0"
  shows "parse_rfc3339 (format_rfc3339_nano t) = Some t"
proof -
  define ns where "ns = instant t mod nanos_per_second"
  define secs where "secs = local_seconds t"
  define frac where "frac = (if ns = 0 then [] else ''.'' @ drop_zeros (pad_digits 9 ns))"
  obtain y m d where civil: "civil_of_days (secs div 86400) = (y, m, d)" by (cases "civil_of_days (secs div 86400)")
  have y: "0 \<le> y" "y \<le> 9999" and off: "zone_ok (zone t)"
    using assms civil by (auto simp: time_marshal_error_def secs_def zone_ok_def not_less split: if_splits)
  note date = days_civil [OF civil]
  have sod: "0 \<le> secs mod 86400" "secs mod 86400 < 86400" by simp_all
  define printed where "printed = pad_digits 4 y @ ''-'' @ pad_digits 2 m @ ''-'' @ pad_digits 2 d @ ''T''
      @ pad_digits 2 (secs mod 86400 div 3600) @ '':'' @ pad_digits 2 (secs mod 86400 div 60 mod 60) @ '':''
      @ pad_digits 2 (secs mod 86400 mod 60) @ frac @ zone_suffix (zone t)"
  note parsed = parse_printed_date [OF y date(2-5) sod printed_def]
  have ns: "0 \<le> ns" "ns < nanos_per_second" by (simp_all add: ns_def nanos_per_second_def)
  have f: "parse_fraction (frac @ zone_suffix (zone t)) = (ns, zone_suffix (zone t))"
    using parse_fraction_none parse_fraction_digits [of ns "zone t"] ns by (auto simp: frac_def)
  have "secs = instant t div nanos_per_second + zone t"
    by (simp add: secs_def local_seconds_def nanos_per_second_def)
  then have "(secs div 86400 * 86400 + secs mod 86400 - zone t) * nanos_per_second + ns = instant t"
    by (simp add: ns_def)
  moreover have "format_rfc3339_nano t = printed"
    by (simp add: format_rfc3339_nano_def format_with_def civil secs_def [symmetric] ns_def [symmetric] frac_def Let_def printed_def
        del: append.simps)
  ultimately show ?thesis
    using parsed f parse_zone_suffix [OF off] date(1) by (simp add: parse_rfc3339_def not_less)
qed

end
