(* ===== verification/Go_Errors.thy ===== *)
theory Go_Errors
  imports Go_Strings
begin

text \<open>
  Go error values. A package-level \<open>var ErrX = errors.New(...)\<close> is a constructor of its
  package's datatype, identified by that constructor as Go identifies it by its address; the
  packages' datatypes are summed in \<open>sentinel\<close>. \<open>goerr\<close> adds \<open>errors.New\<close> made on the
  spot, \<open>fmt.Errorf\<close> with the errors its \<open>%w\<close> verbs wrap, and the packages' error structs.
  \<open>err_is\<close> is \<open>errors.Is\<close> with the structs' \<open>Is\<close> and \<open>Unwrap\<close> methods, \<open>err_msg\<close> is
  \<open>Error()\<close>.
\<close>

subsection \<open>The packages' error variables\<close>

datatype agentaddr_err =
    ErrInvalidRecordLength | ErrUnsupportedVersion | ErrZeroTTL
  | ErrInvalidPublicKey | ErrInvalidPrivateKey | ErrInvalidSignature | ErrEmptyAgentID

fun agentaddr_err_text :: "agentaddr_err \<Rightarrow> string" where
  "agentaddr_err_text ErrInvalidRecordLength = ''agent address record must be exactly 120 bytes''"
| "agentaddr_err_text ErrUnsupportedVersion = ''unsupported agent address version''"
| "agentaddr_err_text ErrZeroTTL = ''agent address ttl must be greater than zero''"
| "agentaddr_err_text ErrInvalidPublicKey = ''invalid ed25519 public key''"
| "agentaddr_err_text ErrInvalidPrivateKey = ''invalid ed25519 private key''"
| "agentaddr_err_text ErrInvalidSignature = ''invalid agent address signature''"
| "agentaddr_err_text ErrEmptyAgentID = ''agent id is empty''"

datatype agentfacts_err =
    AF_ErrValidation | AF_ErrInvalidSchemaVersion | AF_ErrAgentIDMismatch | AF_ErrEmptyController
  | AF_ErrNotYetValid | AF_ErrExpired | AF_ErrMissingRequiredCapability | AF_ErrNoEndpoints
  | AF_ErrEmptyEndpointID | AF_ErrUnsupportedEndpointType | AF_ErrUnsupportedProtocol
  | AF_ErrInvalidEndpointURL | AF_ErrZeroEndpointTTL

fun agentfacts_err_text :: "agentfacts_err \<Rightarrow> string" where
  "agentfacts_err_text AF_ErrValidation = ''agent facts validation failed''"
| "agentfacts_err_text AF_ErrInvalidSchemaVersion = ''agent facts schemaVersion is unsupported''"
| "agentfacts_err_text AF_ErrAgentIDMismatch = ''agent facts id does not match requested agent id''"
| "agentfacts_err_text AF_ErrEmptyController = ''agent facts controller is empty''"
| "agentfacts_err_text AF_ErrNotYetValid = ''agent facts validFrom is in the future''"
| "agentfacts_err_text AF_ErrExpired = ''agent facts validUntil is not in the future''"
| "agentfacts_err_text AF_ErrMissingRequiredCapability = ''agent facts missing required capability''"
| "agentfacts_err_text AF_ErrNoEndpoints = ''agent facts must include at least one endpoint''"
| "agentfacts_err_text AF_ErrEmptyEndpointID = ''agent facts endpoint id is empty''"
| "agentfacts_err_text AF_ErrUnsupportedEndpointType = ''agent facts endpoint type is unsupported''"
| "agentfacts_err_text AF_ErrUnsupportedProtocol = ''agent facts endpoint protocol must be https''"
| "agentfacts_err_text AF_ErrInvalidEndpointURL = ''agent facts endpoint url is invalid''"
| "agentfacts_err_text AF_ErrZeroEndpointTTL =
     ''agent facts endpoint ttlSeconds must be greater than zero''"

datatype trust_err =
    TR_ErrDenied | TR_ErrMissingCredential | TR_ErrMissingCredentialID
  | TR_ErrUnsupportedCredentialType | TR_ErrUntrustedIssuer | TR_ErrSubjectMismatch
  | TR_ErrNotYetValid | TR_ErrExpired | TR_ErrMissingRequiredCapability
  | TR_ErrInvalidSignatureEncoding | TR_ErrInvalidSignature | TR_ErrCredentialRevoked

fun trust_err_text :: "trust_err \<Rightarrow> string" where
  "trust_err_text TR_ErrDenied = ''credential trust denied''"
| "trust_err_text TR_ErrMissingCredential = ''no credential grants required capability''"
| "trust_err_text TR_ErrMissingCredentialID = ''credential id is empty''"
| "trust_err_text TR_ErrUnsupportedCredentialType = ''credential type is unsupported''"
| "trust_err_text TR_ErrUntrustedIssuer = ''credential issuer is not allowlisted''"
| "trust_err_text TR_ErrSubjectMismatch = ''credential subject does not match requested agent id''"
| "trust_err_text TR_ErrNotYetValid = ''credential validFrom is in the future''"
| "trust_err_text TR_ErrExpired = ''credential validUntil is not in the future''"
| "trust_err_text TR_ErrMissingRequiredCapability = ''credential missing required capability''"
| "trust_err_text TR_ErrInvalidSignatureEncoding = ''credential signature is not valid base64''"
| "trust_err_text TR_ErrInvalidSignature = ''credential signature is invalid''"
| "trust_err_text TR_ErrCredentialRevoked = ''credential is revoked''"

datatype resolver_err =
    RS_ErrValidation | RS_ErrNotFound | RS_ErrVerification | RS_ErrMissingIndexStore
  | RS_ErrMissingFactsStore | RS_ErrMissingPointerResolver | RS_ErrNoEndpoint
  | RS_ErrTrustDenied | RS_ErrExpired

fun resolver_err_text :: "resolver_err \<Rightarrow> string" where
  "resolver_err_text RS_ErrValidation = ''resolve validation failed''"
| "resolver_err_text RS_ErrNotFound = ''resolve record not found''"
| "resolver_err_text RS_ErrVerification = ''resolve verification failed''"
| "resolver_err_text RS_ErrMissingIndexStore = ''resolver service requires an index store''"
| "resolver_err_text RS_ErrMissingFactsStore = ''resolver service requires a facts store''"
| "resolver_err_text RS_ErrMissingPointerResolver =
     ''resolver service requires a facts pointer resolver''"
| "resolver_err_text RS_ErrNoEndpoint = ''no endpoint available''"
| "resolver_err_text RS_ErrTrustDenied = ''resolve trust denied''"
| "resolver_err_text RS_ErrExpired = ''agent address record expired''"

datatype registration_err = RG_ErrValidation | RG_ErrMissingFactsStore | RG_ErrMissingIndexStore

fun registration_err_text :: "registration_err \<Rightarrow> string" where
  "registration_err_text RG_ErrValidation = ''registration validation failed''"
| "registration_err_text RG_ErrMissingFactsStore = ''registration service requires a facts store''"
| "registration_err_text RG_ErrMissingIndexStore = ''registration service requires an index store''"

datatype admin_err =
    AD_ErrValidation | AD_ErrNotFound | AD_ErrMissingIndexStore | AD_ErrMissingAuditStore
  | AD_ErrMissingRevocationStore

fun admin_err_text :: "admin_err \<Rightarrow> string" where
  "admin_err_text AD_ErrValidation = ''admin validation failed''"
| "admin_err_text AD_ErrNotFound = ''admin record not found''"
| "admin_err_text AD_ErrMissingIndexStore = ''admin service requires an index store''"
| "admin_err_text AD_ErrMissingAuditStore = ''admin service requires an audit store''"
| "admin_err_text AD_ErrMissingRevocationStore = ''admin service requires a revocation store''"

datatype audit_err = AU_ErrInvalidEventInput | AU_ErrHashChainInvalid | AU_ErrInvalidQuery

fun audit_err_text :: "audit_err \<Rightarrow> string" where
  "audit_err_text AU_ErrInvalidEventInput = ''invalid audit event input''"
| "audit_err_text AU_ErrHashChainInvalid = ''audit hash chain invalid''"
| "audit_err_text AU_ErrInvalidQuery = ''invalid audit query''"

datatype revocation_err = RV_ErrNotFound | RV_ErrInvalidInput

fun revocation_err_text :: "revocation_err \<Rightarrow> string" where
  "revocation_err_text RV_ErrNotFound = ''revocation record not found''"
| "revocation_err_text RV_ErrInvalidInput = ''invalid revocation input''"

datatype index_err = IX_ErrNotFound | IX_ErrStaleSequence | IX_ErrSequenceConflict

fun index_err_text :: "index_err \<Rightarrow> string" where
  "index_err_text IX_ErrNotFound = ''agent address record not found''"
| "index_err_text IX_ErrStaleSequence = ''agent address record sequence is stale''"
| "index_err_text IX_ErrSequenceConflict =
     ''agent address record sequence conflicts with current record''"

datatype config_err = CF_ErrInvalidKeyConfig | CF_ErrInvalidMode | CF_ErrInvalidTrustConfig

fun config_err_text :: "config_err \<Rightarrow> string" where
  "config_err_text CF_ErrInvalidKeyConfig = ''invalid key configuration''"
| "config_err_text CF_ErrInvalidMode = ''invalid runtime mode''"
| "config_err_text CF_ErrInvalidTrustConfig = ''invalid trust issuer configuration''"

datatype sentinel =
    AgentAddr agentaddr_err | AgentFacts agentfacts_err | Trust trust_err | Resolver resolver_err
  | Registration registration_err | Admin admin_err | Audit audit_err | Revocation revocation_err
  | Index index_err | Config config_err | FactsErrNotFound

fun sentinel_text :: "sentinel \<Rightarrow> string" where
  "sentinel_text (AgentAddr e) = agentaddr_err_text e"
| "sentinel_text (AgentFacts e) = agentfacts_err_text e"
| "sentinel_text (Trust e) = trust_err_text e"
| "sentinel_text (Resolver e) = resolver_err_text e"
| "sentinel_text (Registration e) = registration_err_text e"
| "sentinel_text (Admin e) = admin_err_text e"
| "sentinel_text (Audit e) = audit_err_text e"
| "sentinel_text (Revocation e) = revocation_err_text e"
| "sentinel_text (Index e) = index_err_text e"
| "sentinel_text (Config e) = config_err_text e"
| "sentinel_text FactsErrNotFound = ''agent facts not found''"

subsection \<open>Error values\<close>

datatype goerr =
    Sentinel sentinel
  | ErrNew string
  | ErrWrap string "goerr list"
  | FactsValidationError string goerr
  | RegisterValidationError string goerr
  | ResolveValidationError string goerr
  | ResolveVerificationError string goerr
  | AdminValidationError string goerr
  | TrustVerificationError goerr

text \<open>The \<open>Error()\<close> methods of the error structs, given the text of the error they carry.\<close>

definition field_error_text :: "string \<Rightarrow> string \<Rightarrow> string \<Rightarrow> string" where
  "field_error_text base field inner =
     (if field = [] then base @ '': '' @ inner else base @ '': '' @ field @ '': '' @ inner)"

definition facts_validation_text :: "string \<Rightarrow> string \<Rightarrow> string" where
  "facts_validation_text field inner =
     field_error_text (agentfacts_err_text AF_ErrValidation) field inner"

definition register_validation_text :: "string \<Rightarrow> string \<Rightarrow> string" where
  "register_validation_text field inner =
     field_error_text (registration_err_text RG_ErrValidation) field inner"

definition resolve_validation_text :: "string \<Rightarrow> string \<Rightarrow> string" where
  "resolve_validation_text field inner =
     field_error_text (resolver_err_text RS_ErrValidation) field inner"

definition resolve_verification_text :: "string \<Rightarrow> string \<Rightarrow> string" where
  "resolve_verification_text step inner =
     field_error_text (resolver_err_text RS_ErrVerification) step inner"

definition admin_validation_text :: "string \<Rightarrow> string \<Rightarrow> string" where
  "admin_validation_text field inner =
     field_error_text (admin_err_text AD_ErrValidation) field inner"

definition trust_verification_text :: "string \<Rightarrow> string" where
  "trust_verification_text inner = trust_err_text TR_ErrDenied @ '': '' @ inner"

primrec err_msg :: "goerr \<Rightarrow> string" where
  "err_msg (Sentinel s) = sentinel_text s"
| "err_msg (ErrNew m) = m"
| "err_msg (ErrWrap m es) = m"
| "err_msg (FactsValidationError f e) = facts_validation_text f (err_msg e)"
| "err_msg (RegisterValidationError f e) = register_validation_text f (err_msg e)"
| "err_msg (ResolveValidationError f e) = resolve_validation_text f (err_msg e)"
| "err_msg (ResolveVerificationError f e) = resolve_verification_text f (err_msg e)"
| "err_msg (AdminValidationError f e) = admin_validation_text f (err_msg e)"
| "err_msg (TrustVerificationError e) = trust_verification_text (err_msg e)"

text \<open>The \<open>Is\<close> methods of the error structs; \<open>errors.Is\<close> then looks into what they wrap.\<close>

fun struct_is :: "goerr \<Rightarrow> sentinel \<Rightarrow> bool" where
  "struct_is (FactsValidationError _ _) t = (t = AgentFacts AF_ErrValidation)"
| "struct_is (RegisterValidationError _ _) t = (t = Registration RG_ErrValidation)"
| "struct_is (ResolveValidationError _ _) t = (t = Resolver RS_ErrValidation)"
| "struct_is (ResolveVerificationError _ _) t = (t = Resolver RS_ErrVerification)"
| "struct_is (AdminValidationError _ _) t = (t = Admin AD_ErrValidation)"
| "struct_is (TrustVerificationError _) t = (t = Trust TR_ErrDenied)"
| "struct_is _ t = False"

fun err_is :: "goerr \<Rightarrow> sentinel \<Rightarrow> bool" where
  "err_is (Sentinel s) t = (s = t)"
| "err_is (ErrNew _) t = False"
| "err_is (ErrWrap _ es) t = list_ex (\<lambda>e. err_is e t) es"
| "err_is (FactsValidationError f e) t = (struct_is (FactsValidationError f e) t \<or> err_is e t)"
| "err_is (RegisterValidationError f e) t = (struct_is (RegisterValidationError f e) t \<or> err_is e t)"
| "err_is (ResolveValidationError f e) t = (struct_is (ResolveValidationError f e) t \<or> err_is e t)"
| "err_is (ResolveVerificationError f e) t = (struct_is (ResolveVerificationError f e) t \<or> err_is e t)"
| "err_is (AdminValidationError f e) t = (struct_is (AdminValidationError f e) t \<or> err_is e t)"
| "err_is (TrustVerificationError e) t = (struct_is (TrustVerificationError e) t \<or> err_is e t)"

text \<open>\<open>fmt.Errorf("prefix: %w", err)\<close> and \<open>fmt.Errorf("%w: suffix", sentinel)\<close>.\<close>

definition wrap_err :: "string \<Rightarrow> goerr \<Rightarrow> goerr" where
  "wrap_err prefix e = ErrWrap (prefix @ '': '' @ err_msg e) [e]"

definition sentinel_err :: "sentinel \<Rightarrow> string \<Rightarrow> goerr" where
  "sentinel_err s suffix = ErrWrap (sentinel_text s @ '': '' @ suffix) [Sentinel s]"

text \<open>\<open>fmt.Errorf("%w: %w", sentinel, err)\<close>.\<close>

definition both_err :: "sentinel \<Rightarrow> goerr \<Rightarrow> goerr" where
  "both_err s e = ErrWrap (sentinel_text s @ '': '' @ err_msg e) [Sentinel s, e]"

lemma err_is_wrap [simp]: "err_is (wrap_err p e) t = err_is e t"
  by (simp add: wrap_err_def)

lemma err_is_sentinel_err [simp]: "err_is (sentinel_err s m) t \<longleftrightarrow> s = t"
  by (simp add: sentinel_err_def)

lemma err_is_both [simp]: "err_is (both_err s e) t \<longleftrightarrow> s = t \<or> err_is e t"
  by (simp add: both_err_def)

end
