(* ===== verification/Go_Sha256.thy ===== *)
theory Go_Sha256
  imports Go_Encoding
begin

text \<open>
  \<open>crypto/sha256\<close>: the padding, the message schedule and the compression function of SHA-256 on
  32-bit words, as FIPS 180-4 gives them, and \<open>sha256.Sum256\<close>.
\<close>

unbundle bit_operations_syntax

text \<open>The constants are the first 32 bits of the fractional parts of the cube roots of the first 64
  primes, and of the square roots of the first eight. The root is found bit by bit, from \<open>b\<close> bits.\<close>

fun int_root :: "nat \<Rightarrow> nat \<Rightarrow> nat \<Rightarrow> nat \<Rightarrow> nat" where
  "int_root k 0 n r = r"
| "int_root k (Suc b) n r = int_root k b n (if (r + 2 ^ b) ^ k \<le> n then r + 2 ^ b else r)"

lemma int_root_bounds:
  "r ^ k \<le> n \<Longrightarrow> n < (r + 2 ^ b) ^ k \<Longrightarrow>
   int_root k b n r ^ k \<le> n \<and> n < (int_root k b n r + 1) ^ k"
proof (induction b arbitrary: r)
  case (Suc b)
  have double: "r + 2 ^ Suc b = r + 2 ^ b + 2 ^ b" by simp
  show ?case using Suc.prems Suc.IH [of r] Suc.IH [of "r + 2 ^ b"] unfolding double
    by (cases "(r + 2 ^ b) ^ k \<le> n") (simp_all add: not_le)
qed simp

definition root_fraction :: "nat \<Rightarrow> nat \<Rightarrow> 32 word" where
  "root_fraction k p = of_nat (int_root k 35 (p * 2 ^ (32 * k)) 0)"

definition primes_below :: "nat \<Rightarrow> nat list" where
  "primes_below n = filter (\<lambda>p. \<forall>d \<in> set [2..<p]. p mod d \<noteq> 0) [2..<n]"

definition round_constants :: "32 word list" where
  "round_constants = map (root_fraction 3) (primes_below 312)"

definition initial_state :: "32 word list" where
  "initial_state = map (root_fraction 2) (primes_below 20)"

definition rotate_right :: "nat \<Rightarrow> 32 word \<Rightarrow> 32 word" where
  "rotate_right n x = (drop_bit n x OR push_bit (32 - n) x)"

text \<open>The message followed by a one bit, zeros up to eight bytes before a full block, and its length
  in bits.\<close>

definition sha256_pad :: "bytes \<Rightarrow> bytes" where
  "sha256_pad m =
     m @ [char_of (128 :: nat)] @ replicate ((119 - length m mod 64) mod 64) (char_of (0 :: nat))
     @ arr_bytes (of_nat (8 * length m) :: 64 word)"

function chunks :: "nat \<Rightarrow> 'a list \<Rightarrow> 'a list list" where
  "chunks n xs = (if n = 0 \<or> xs = [] then [] else take n xs # chunks n (drop n xs))"
  by pat_completeness auto
termination by (relation "measure (length \<circ> snd)") auto

declare chunks.simps [simp del]

lemma sha256_pad_blocks: "64 dvd length (sha256_pad m)"
proof -
  define r where "r = length m mod 64"
  have n: "length m = 64 * (length m div 64) + r" by (simp add: r_def)
  have "(119 - r) mod 64 + r + 9 = (if r \<le> 55 then 64 else 128)"
  proof (cases "r \<le> 55")
    case True
    then have "119 - r = 64 + (55 - r)" by simp
    then have "(119 - r) mod 64 = (55 - r) mod 64" by (simp only: mod_add_self1)
    then show ?thesis using True by simp
  qed (simp add: r_def less_imp_le)
  then have "64 dvd (119 - r) mod 64 + r + 9" by simp
  then have "64 dvd 64 * (length m div 64) + ((119 - r) mod 64 + r + 9)" by (simp only: dvd_add dvd_triv_left)
  then have "64 dvd length m + ((119 - r) mod 64 + 9)" by (subst n) (simp add: add_ac)
  then show ?thesis by (simp add: sha256_pad_def r_def add_ac)
qed

lemma sha256_pad_message: "take (length m) (sha256_pad m) = m"
  by (simp add: sha256_pad_def)

lemma concat_chunks: "0 < n \<Longrightarrow> concat (chunks n xs) = xs"
  by (induction n xs rule: chunks.induct) (subst chunks.simps, auto)

text \<open>The schedule is built backwards: the newest word first.\<close>

fun extend_schedule :: "nat \<Rightarrow> 32 word list \<Rightarrow> 32 word list" where
  "extend_schedule 0 ws = ws"
| "extend_schedule (Suc n) ws =
     (let w15 = ws ! 14; w2 = ws ! 1;
          s0 = rotate_right 7 w15 XOR rotate_right 18 w15 XOR drop_bit 3 w15;
          s1 = rotate_right 17 w2 XOR rotate_right 19 w2 XOR drop_bit 10 w2
      in extend_schedule n ((ws ! 15 + s0 + ws ! 6 + s1) # ws))"

definition message_schedule :: "bytes \<Rightarrow> 32 word list" where
  "message_schedule block = rev (extend_schedule 48 (rev (map arr_of (chunks 4 block))))"

fun sha256_round :: "32 word list \<Rightarrow> 32 word \<times> 32 word \<Rightarrow> 32 word list" where
  "sha256_round [a, b, c, d, e, f, g, h] (k, w) =
     (let s1 = rotate_right 6 e XOR rotate_right 11 e XOR rotate_right 25 e;
          ch = (e AND f) XOR ((NOT e) AND g);
          t1 = h + s1 + ch + k + w;
          s0 = rotate_right 2 a XOR rotate_right 13 a XOR rotate_right 22 a;
          maj = (a AND b) XOR (a AND c) XOR (b AND c)
      in [t1 + (s0 + maj), a, b, c, d + t1, e, f, g])"
| "sha256_round st _ = st"

definition sha256_block :: "32 word list \<Rightarrow> bytes \<Rightarrow> 32 word list" where
  "sha256_block st block =
     map2 (+) st (foldl sha256_round st (zip round_constants (message_schedule block)))"

definition sha256 :: "bytes \<Rightarrow> 256 word" where
  "sha256 m = arr_of (concat (map arr_bytes (foldl sha256_block initial_state (chunks 64 (sha256_pad m)))))"

text \<open>\<open>sha256.Sum256(data)\<close> as its 32 bytes.\<close>

definition sum256 :: "bytes \<Rightarrow> bytes" where
  "sum256 data = arr_bytes (sha256 data)"

lemma length_sum256 [simp, bytes_simps]: "length (sum256 data) = 32"
  by (simp add: sum256_def)

end
