(* ===== verification/Go_Url.thy ===== *)
theory Go_Url
  imports Go_Encoding "HOL-Library.Monad_Syntax"
begin

text \<open>
  \<open>url.ParseRequestURI\<close> of Go 1.26 as far as its caller looks at it: whether it fails, the scheme and
  the host. A failure is \<open>None\<close>, since the caller drops the error. The host part follows RFC 3986
  with Go's restrictions: percent escapes in a host stand for bytes outside ASCII, a host in square
  brackets is an IPv6 address as \<open>netip.ParseAddr\<close> reads it, and a host of an http or https URL has
  no colon but the one before the port.
\<close>

subsection \<open>Escapes\<close>

definition is_alpha :: "char \<Rightarrow> bool" where
  "is_alpha c \<longleftrightarrow> byte_in 65 90 c \<or> byte_in 97 122 c"

datatype escape_mode = EncodePath | EncodeUserPassword | EncodeHost | EncodeZone

text \<open>\<open>shouldEscape\<close> for a host: what may stand in a host as it is.\<close>

definition host_byte :: "char \<Rightarrow> bool" where
  "host_byte c \<longleftrightarrow> is_alpha c \<or> is_digit c \<or> c \<in> set ''!$&()*+,;=:[]<>-_.~'' \<or> c = CHR 39 \<or> c = CHR 34"

text \<open>\<open>unescape\<close>: in a host an escape below 128 must be \<open>%25\<close>, in a zone it must be \<open>%25\<close>, a space or
  a byte a host may have.\<close>

definition escape_ok :: "escape_mode \<Rightarrow> nat \<Rightarrow> bool" where
  "escape_ok mode v \<longleftrightarrow>
     (case mode of
        EncodeHost \<Rightarrow> 128 \<le> v \<or> v = 37
      | EncodeZone \<Rightarrow> v = 37 \<or> v = 32 \<or> host_byte (char_of v)
      | _ \<Rightarrow> True)"

definition byte_ok :: "escape_mode \<Rightarrow> char \<Rightarrow> bool" where
  "byte_ok mode c \<longleftrightarrow> (mode = EncodeHost \<or> mode = EncodeZone) \<longrightarrow> 128 \<le> (of_char c :: nat) \<or> host_byte c"

fun unescape :: "escape_mode \<Rightarrow> string \<Rightarrow> string option" where
  "unescape mode [] = Some []"
| "unescape mode (c # s) =
     (if c = CHR ''%'' then
        (case s of
           h # l # rest \<Rightarrow>
             if is_hex h \<and> is_hex l \<and> escape_ok mode (16 * hex_value h + hex_value l)
             then map_option (Cons (char_of (16 * hex_value h + hex_value l))) (unescape mode rest) else None
         | _ \<Rightarrow> None)
      else if byte_ok mode c then map_option (Cons c) (unescape mode s) else None)"

subsection \<open>IP addresses\<close>

text \<open>\<open>parseIPv4Fields\<close>: four numbers below 256 without leading zeros.\<close>

definition ipv4_field :: "string \<Rightarrow> bool" where
  "ipv4_field f \<longleftrightarrow> f \<noteq> [] \<and> list_all is_digit f \<and> (length f = 1 \<or> hd f \<noteq> CHR ''0'') \<and> digits_val f \<le> 255"

definition ipv4_fields :: "string \<Rightarrow> bool" where
  "ipv4_fields s \<longleftrightarrow> length (split_on CHR ''.'' s) = 4 \<and> list_all ipv4_field (split_on CHR ''.'' s)"

text \<open>The loop of \<open>parseIPv6\<close>: \<open>i\<close> bytes are read, \<open>ellipsis\<close> says whether a double colon was. The
  result is the bytes read at the end and whether there was a double colon.\<close>

function ipv6_groups :: "nat \<Rightarrow> bool \<Rightarrow> string \<Rightarrow> (nat \<times> bool) option" where
  "ipv6_groups i ellipsis s =
     (if 16 \<le> i then (if s = [] then Some (i, ellipsis) else None)
      else
        (let off = length (takeWhile is_hex s); rest = drop off s in
         if off = 0 \<or> 4 < off then None
         else if rest \<noteq> [] \<and> hd rest = CHR ''.'' then
           (if (\<not> ellipsis \<and> i \<noteq> 12) \<or> 12 < i \<or> \<not> ipv4_fields s then None else Some (i + 4, ellipsis))
         else if rest = [] then Some (i + 2, ellipsis)
         else if hd rest \<noteq> CHR '':'' \<or> tl rest = [] then None
         else if hd (tl rest) = CHR '':'' then
           (if ellipsis then None
            else if tl (tl rest) = [] then Some (i + 2, True)
            else ipv6_groups (i + 2) True (tl (tl rest)))
         else ipv6_groups (i + 2) ellipsis (tl rest)))"
  by pat_completeness auto
termination by (relation "measure (\<lambda>(i, _, _). 16 - i)") auto

declare ipv6_groups.simps [simp del]

text \<open>\<open>netip.ParseAddr\<close> for an IPv6 address; the zone after a percent sign must not be empty.\<close>

definition ipv6_addr :: "string \<Rightarrow> bool" where
  "ipv6_addr s \<longleftrightarrow>
     (let addr = takeWhile (\<lambda>c. c \<noteq> CHR ''%'') s; leading = has_prefix addr ''::'' in
      (addr = s \<or> drop (Suc (length addr)) s \<noteq> [])
      \<and> (addr = ''::''
         \<or> (case ipv6_groups 0 leading (if leading then drop 2 addr else addr) of
              None \<Rightarrow> False
            | Some (i, ellipsis) \<Rightarrow> ellipsis = (i < 16))))"

subsection \<open>The authority\<close>

text \<open>What is before and after the last of a byte, as \<open>strings.LastIndex\<close> finds it, and
  \<open>strings.Cut\<close>.\<close>

definition cut_last :: "char \<Rightarrow> string \<Rightarrow> (string \<times> string) option" where
  "cut_last c s =
     (if c \<in> set s
      then Some (rev (tl (dropWhile (\<lambda>x. x \<noteq> c) (rev s))), rev (takeWhile (\<lambda>x. x \<noteq> c) (rev s)))
      else None)"

definition cut_first :: "char \<Rightarrow> string \<Rightarrow> string \<times> string" where
  "cut_first c s = (takeWhile (\<lambda>x. x \<noteq> c) s, drop (Suc (length (takeWhile (\<lambda>x. x \<noteq> c) s))) s)"

definition valid_optional_port :: "string \<Rightarrow> bool" where
  "valid_optional_port port \<longleftrightarrow> port = [] \<or> (hd port = CHR '':'' \<and> list_all is_digit (tl port))"

text \<open>A host name in brackets may have a zone, which starts at the first \<open>%25\<close>.\<close>

fun split_zone :: "string \<Rightarrow> string \<times> string" where
  "split_zone [] = ([], [])"
| "split_zone (c # s) =
     (if has_prefix (c # s) ''%25'' then ([], c # s)
      else (let (host, zone) = split_zone s in (c # host, zone)))"

definition parse_ip_literal :: "string \<Rightarrow> string option" where
  "parse_ip_literal host =
     do {
       (name, port) \<leftarrow> cut_last CHR '']'' (tl host);
       (if valid_optional_port port then Some () else None);
       port' \<leftarrow> unescape EncodeHost port;
       name' \<leftarrow> unescape EncodeHost (fst (split_zone name));
       zone' \<leftarrow> unescape EncodeZone (snd (split_zone name));
       if ipv6_addr (name' @ zone') then Some (''['' @ name' @ zone' @ '']'' @ port') else None
     }"

definition parse_host :: "string \<Rightarrow> string \<Rightarrow> string option" where
  "parse_host scheme host =
     (if CHR ''['' \<in> set host then (if hd host = CHR ''['' \<and> CHR ''['' \<notin> set (tl host) then parse_ip_literal host else None)
      else
        (let first = dropWhile (\<lambda>c. c \<noteq> CHR '':'') host;
             port = (if scheme = ''http'' \<or> scheme = ''https'' then first
                     else case cut_last CHR '':'' host of None \<Rightarrow> [] | Some (_, p) \<Rightarrow> CHR '':'' # p)
         in if valid_optional_port port then unescape EncodeHost host else None))"

definition valid_userinfo :: "string \<Rightarrow> bool" where
  "valid_userinfo s \<longleftrightarrow>
     list_all (\<lambda>c. is_alpha c \<or> is_digit c \<or> c \<in> set ''-._:~!$&()*+,;=%@'' \<or> c = CHR 39) s"

definition parse_authority :: "string \<Rightarrow> string \<Rightarrow> string option" where
  "parse_authority scheme authority =
     (case cut_last CHR ''@'' authority of
        None \<Rightarrow> parse_host scheme authority
      | Some (userinfo, host) \<Rightarrow>
          do {
            h \<leftarrow> parse_host scheme host;
            (if valid_userinfo userinfo then Some () else None);
            unescape EncodeUserPassword (fst (cut_first CHR '':'' userinfo));
            unescape EncodeUserPassword (snd (cut_first CHR '':'' userinfo));
            Some h
          })"

subsection \<open>The whole\<close>

text \<open>\<open>getScheme\<close>: the text before the first colon when it is a letter followed by letters, digits,
  plus, minus and dots.\<close>

definition get_scheme :: "string \<Rightarrow> (string \<times> string) option" where
  "get_scheme s =
     (let scheme = takeWhile (\<lambda>c. is_alpha c \<or> is_digit c \<or> c \<in> set ''+-.'') s; rest = drop (length scheme) s in
      if s \<noteq> [] \<and> hd s = CHR '':'' then None
      else if scheme \<noteq> [] \<and> is_alpha (hd scheme) \<and> rest \<noteq> [] \<and> hd rest = CHR '':'' then Some (scheme, tl rest)
      else Some ([], s))"

definition is_control :: "char \<Rightarrow> bool" where
  "is_control c \<longleftrightarrow> (of_char c :: nat) < 32 \<or> (of_char c :: nat) = 127"

definition parse_request_uri :: "string \<Rightarrow> (string \<times> string) option" where
  "parse_request_uri s =
     (if list_ex is_control s \<or> s = [] then None
      else if s = ''*'' then Some ([], [])
      else do {
        (sch, rest) \<leftarrow> get_scheme s;
        let scheme = map (\<lambda>c. char_of (ascii_lower (of_char c))) sch;
        let hier = fst (cut_first CHR ''?'' rest);
        if \<not> has_prefix hier ''/'' then (if scheme \<noteq> [] then Some (scheme, []) else None)
        else if scheme \<noteq> [] \<and> has_prefix hier ''//'' then
          do {
            host \<leftarrow> parse_authority scheme (takeWhile (\<lambda>c. c \<noteq> CHR ''/'') (drop 2 hier));
            unescape EncodePath (dropWhile (\<lambda>c. c \<noteq> CHR ''/'') (drop 2 hier));
            Some (scheme, host)
          }
        else do { unescape EncodePath hier; Some (scheme, []) }
      })"

subsection \<open>What an accepted https URL looks like\<close>

definition https_url :: "string \<Rightarrow> bool" where
  "https_url s \<longleftrightarrow>
     (\<exists>scheme authority rest. s = scheme @ ''://'' @ authority @ rest
        \<and> map (\<lambda>c. char_of (ascii_lower (of_char c))) scheme = ''https''
        \<and> authority \<noteq> [] \<and> CHR ''/'' \<notin> set authority \<and> CHR ''?'' \<notin> set authority
        \<and> (rest = [] \<or> hd rest = CHR ''/'' \<or> hd rest = CHR ''?''))
     \<and> \<not> list_ex is_control s"

lemma scheme_choice:
  "(if a then None else if b then Some (p, q) else Some ([], s)) = Some (x, y) \<Longrightarrow> x \<noteq> [] \<Longrightarrow> b \<and> x = p \<and> y = q"
  by (simp split: if_splits)

lemma get_scheme_Some:
  assumes "get_scheme s = Some (scheme, rest)" and "scheme \<noteq> []"
  shows "s = scheme @ CHR '':'' # rest"
proof -
  define p where "p = takeWhile (\<lambda>c. is_alpha c \<or> is_digit c \<or> c \<in> set ''+-.'') s"
  define q where "q = drop (length p) s"
  have b: "q \<noteq> [] \<and> hd q = CHR '':''" and p: "scheme = p" "rest = tl q"
    using scheme_choice [OF assms(1) [unfolded get_scheme_def Let_def, folded p_def, folded q_def] assms(2)] by blast+
  then have "q = CHR '':'' # rest" using list.collapse [of q] by metis
  moreover have "s = p @ q" by (metis p_def q_def takeWhile_eq_take append_take_drop_id)
  ultimately show ?thesis using p(1) by simp
qed

lemma parse_authority_Nil: "parse_authority scheme [] = Some []"
  by (simp add: parse_authority_def cut_last_def parse_host_def valid_optional_port_def)

lemma parse_request_uri_https:
  assumes "parse_request_uri s = Some (''https'', host)" and "host \<noteq> []"
  shows "https_url s"
proof -
  obtain sch rest where gs: "get_scheme s = Some (sch, rest)"
    and sch: "map (\<lambda>c. char_of (ascii_lower (of_char c))) sch = ''https''"
    and hier: "has_prefix (fst (cut_first CHR ''?'' rest)) ''//''"
    and auth: "parse_authority ''https'' (takeWhile (\<lambda>c. c \<noteq> CHR ''/'') (drop 2 (fst (cut_first CHR ''?'' rest)))) = Some host"
    using assms by (auto simp: parse_request_uri_def Let_def bind_eq_Some_conv simp del: map_eq_Cons_conv
        split: if_splits)
  have ctrl: "\<not> list_ex is_control s" using assms(1) by (auto simp: parse_request_uri_def split: if_splits)
  from hier obtain h where h: "takeWhile (\<lambda>c. c \<noteq> CHR ''?'') rest = CHR ''/'' # CHR ''/'' # h"
    by (auto simp: has_prefix_iff cut_first_def)
  define authority where "authority = takeWhile (\<lambda>c. c \<noteq> CHR ''/'') h"
  define path where "path = dropWhile (\<lambda>c. c \<noteq> CHR ''/'') h @ dropWhile (\<lambda>c. c \<noteq> CHR ''?'') rest"
  have "rest = takeWhile (\<lambda>c. c \<noteq> CHR ''?'') rest @ dropWhile (\<lambda>c. c \<noteq> CHR ''?'') rest" by simp
  then have "rest = ''//'' @ authority @ path"
    unfolding h authority_def path_def by (metis append.assoc append_Cons append_Nil takeWhile_dropWhile_id)
  moreover have "sch \<noteq> []" using sch by auto
  ultimately have s: "s = sch @ ''://'' @ authority @ path" using get_scheme_Some [OF gs] by simp
  have "authority \<noteq> []" using auth assms(2) parse_authority_Nil by (auto simp: cut_first_def h authority_def [symmetric])
  moreover have "CHR ''/'' \<notin> set authority" by (auto simp: authority_def dest: set_takeWhileD)
  moreover have "CHR ''?'' \<notin> set authority"
  proof
    assume "CHR ''?'' \<in> set authority"
    then have "CHR ''?'' \<in> set h" unfolding authority_def by (meson set_takeWhileD)
    then have "CHR ''?'' \<in> set (takeWhile (\<lambda>c. c \<noteq> CHR ''?'') rest)" by (simp add: h)
    then show False by (auto dest: set_takeWhileD)
  qed
  moreover have "path = [] \<or> hd path = CHR ''/'' \<or> hd path = CHR ''?''"
  proof (cases "dropWhile (\<lambda>c. c \<noteq> CHR ''/'') h = []")
    case True
    then show ?thesis using hd_dropWhile [of "\<lambda>c. c \<noteq> CHR ''?''" rest] by (auto simp: path_def simp del: dropWhile_eq_Nil_conv)
  next
    case False
    then show ?thesis using hd_dropWhile [OF False] by (simp add: path_def hd_append del: dropWhile_eq_Nil_conv)
  qed
  ultimately show ?thesis
    unfolding https_url_def by (intro conjI exI [of _ sch] exI [of _ authority] exI [of _ path] s sch ctrl)
qed

end
