(* ===== verification/Wire_Types.thy ===== *)
theory Wire_Types
  imports Go_Json_Struct Go_Time_Parse Go_Errors Go_Sha256 Go_Url
begin

text \<open>
  The JSON documents the program exchanges (\<open>internal/agentfacts\<close>: \<open>AgentFacts\<close>,
  \<open>CapabilityCredential\<close>, \<open>Endpoint\<close>), and \<open>runtime\<close>, the record of what the program
  takes from outside: the signatures of \<open>crypto/ed25519\<close>, the lower-case and printable tables of
  Unicode, and the texts of the errors of \<open>encoding/json\<close> (by the type that is decoded). Every
  theorem holds for every such record; what a theorem relies on is a named predicate
  (\<open>keypair_ok\<close>, \<open>lower_ok\<close>).
\<close>

record capability_credential =
  cred_id :: string
  cred_type :: string
  cred_issuer :: string
  cred_subject :: string
  cred_capabilities :: "string list option"
  cred_valid_from :: gotime
  cred_valid_until :: gotime
  cred_signature :: string

record endpoint =
  ep_id :: string
  ep_type :: string
  ep_url :: string
  ep_protocol :: string
  ep_ttl_seconds :: "16 word"

record agent_facts =
  af_schema_version :: string
  af_id :: string
  af_controller :: string
  af_valid_from :: gotime
  af_valid_until :: gotime
  af_capabilities :: "string list"
  af_credentials :: "capability_credential list"
  af_endpoints :: "endpoint list"

record runtime =
  rt_lower :: "nat \<Rightarrow> nat"
  rt_ed_sign :: "bytes \<Rightarrow> bytes \<Rightarrow> 512 word"
  rt_ed_verify :: "bytes \<Rightarrow> bytes \<Rightarrow> bytes \<Rightarrow> bool"
  rt_json_error :: "string \<Rightarrow> bytes \<Rightarrow> string"
  rt_printable :: "nat \<Rightarrow> bool"

text \<open>The text of an error of the operating system, the database or its driver, which is none of
  the program's own errors: as a Go error it is \<open>ErrNew\<close> of that text.\<close>

type_synonym os_error = string
type_synonym db_error = string

definition ed_private_key_size :: nat where
  "ed_private_key_size = 64"

definition ed_public_key_size :: nat where
  "ed_public_key_size = 32"

text \<open>\<open>PrivateKey.Public()\<close> is the second half of the private key.\<close>

definition ed_public :: "bytes \<Rightarrow> bytes" where
  "ed_public private = drop 32 private"

text \<open>A nullable text column: \<open>sql.NullString{String: value, Valid: value != ""}\<close> on the way in,
  its \<open>String\<close> on the way out.\<close>

definition null_string :: "string \<Rightarrow> string option" where
  "null_string value = (if value = [] then None else Some value)"

definition null_string_value :: "string option \<Rightarrow> string" where
  "null_string_value v = (case v of None \<Rightarrow> [] | Some s \<Rightarrow> s)"

lemma null_string_round_trip [simp, store_simps]: "null_string_value (null_string s) = s"
  by (simp add: null_string_def null_string_value_def)

text \<open>What Ed25519 guarantees of a private key made by \<open>GenerateKey\<close> or \<open>NewKeyFromSeed\<close>: its
  signatures verify under its public half.\<close>

definition keypair_ok :: "runtime \<Rightarrow> bytes \<Rightarrow> bool" where
  "keypair_ok rt private \<longleftrightarrow>
     length private = ed_private_key_size
     \<and> (\<forall>m. rt_ed_verify rt (ed_public private) m (arr_bytes (rt_ed_sign rt private m)))"

text \<open>Two different inputs with one SHA-256 digest, or with one truncated to 128 bits.\<close>

definition sha256_collision :: "bytes \<Rightarrow> bytes \<Rightarrow> bool" where
  "sha256_collision a b \<longleftrightarrow> a \<noteq> b \<and> sha256 a = sha256 b"

end
