(* ===== verification/Http_Model.thy ===== *)
theory Http_Model
  imports Wire_Types
begin

text \<open>
  What the program uses of \<open>net/http\<close>. A handler is a function of the request and the world
  that returns the calls it makes on its \<open>ResponseWriter\<close>, in order; \<open>run_ops\<close> is what those
  calls do to the response. A request carries the answers of \<open>Header.Get\<close>, \<open>URL.Query().Get\<close>
  and \<open>PathValue\<close> as functions (the empty string for what is absent), the segments of its
  clean, decoded path, and the request id its context holds.
\<close>

record http_request =
  hq_method :: string
  hq_path :: string
  hq_segments :: "string list"
  hq_header :: "string \<Rightarrow> string"
  hq_query :: "string \<Rightarrow> string"
  hq_path_value :: "string \<Rightarrow> string"
  hq_body :: bytes
  hq_context_id :: string

datatype http_op =
    SetHeader string string
  | WriteHeader int
  | WriteBody bytes

type_synonym 'w handler = "http_request \<Rightarrow> 'w \<Rightarrow> http_op list \<times> 'w"

record http_response =
  hp_header :: "string \<Rightarrow> string option"
  hp_status :: int
  hp_body :: bytes

definition fresh_response :: http_response where
  "fresh_response = \<lparr>hp_header = (\<lambda>_. None), hp_status = 0, hp_body = []\<rparr>"

text \<open>The writer of \<open>net/http\<close>: the first \<open>WriteHeader\<close> counts, a body written before it sends
  200, headers set after it are not sent.\<close>

fun apply_op :: "http_response \<Rightarrow> http_op \<Rightarrow> http_response" where
  "apply_op r (SetHeader k v) =
     (if hp_status r = 0 then r\<lparr>hp_header := (hp_header r)(k \<mapsto> v)\<rparr> else r)"
| "apply_op r (WriteHeader n) = (if hp_status r = 0 then r\<lparr>hp_status := n\<rparr> else r)"
| "apply_op r (WriteBody b) =
     r\<lparr>hp_status := (if hp_status r = 0 then 200 else hp_status r), hp_body := hp_body r @ b\<rparr>"

definition run_ops :: "http_op list \<Rightarrow> http_response" where
  "run_ops ops = foldl apply_op fresh_response ops"

text \<open>A handler that never writes sends 200 when it returns.\<close>

definition final_status :: "http_op list \<Rightarrow> int" where
  "final_status ops = (let n = hp_status (run_ops ops) in if n = 0 then 200 else n)"

fun first_status :: "http_op list \<Rightarrow> int" where
  "first_status [] = 0"
| "first_status (SetHeader _ _ # ops) = first_status ops"
| "first_status (WriteHeader n # ops) = n"
| "first_status (WriteBody _ # ops) = 200"

definition status_text :: "int \<Rightarrow> string" where
  "status_text n =
     (if n = 200 then ''OK'' else if n = 400 then ''Bad Request''
      else if n = 401 then ''Unauthorized'' else if n = 403 then ''Forbidden''
      else if n = 404 then ''Not Found'' else if n = 405 then ''Method Not Allowed''
      else if n = 410 then ''Gone'' else if n = 500 then ''Internal Server Error'' else [])"

lemma apply_op_kept: "hp_status r \<noteq> 0 \<Longrightarrow> hp_status (apply_op r op) = hp_status r"
  by (cases op) auto

lemma status_kept: "hp_status r \<noteq> 0 \<Longrightarrow> hp_status (foldl apply_op r ops) = hp_status r"
  by (induction ops arbitrary: r) (simp_all add: apply_op_kept)

lemma first_status_from:
  "hp_status r = 0 \<Longrightarrow> \<forall>n. WriteHeader n \<in> set ops \<longrightarrow> n \<noteq> 0 \<Longrightarrow>
   hp_status (foldl apply_op r ops) = first_status ops"
  by (induction ops arbitrary: r rule: first_status.induct) (auto simp: status_kept)

lemma first_status_run:
  "\<forall>n. WriteHeader n \<in> set ops \<longrightarrow> n \<noteq> 0 \<Longrightarrow> hp_status (run_ops ops) = first_status ops"
  unfolding run_ops_def by (rule first_status_from) (simp_all add: fresh_response_def)

end
