(* ===== verification/Agent_Addr.thy ===== *)
theory Agent_Addr
  imports Wire_Types
begin

text \<open>
  \<open>internal/agentaddr\<close>: agent ids and their hash (\<open>identity.go\<close>, \<open>digest.go\<close>) and the
  120-byte signed record (\<open>agentaddr.go\<close>): its payload of 56 bytes, encoding, decoding, signing
  and verification. The lemmas show that a normalised id is non-empty, free of white space and a
  fixed point of normalisation, that encoding and decoding are inverse on every record that
  passes validation, and that a signed record verifies.
\<close>

subsection \<open>Identities\<close>

definition normalize_agent_id :: "runtime \<Rightarrow> string \<Rightarrow> goerr + string" where
  "normalize_agent_id rt agent_id =
     (let normalized = to_lower (rt_lower rt) (trim_space agent_id) in
      if normalized = [] then Inl (Sentinel (AgentAddr ErrEmptyAgentID))
      else if list_ex (\<lambda>d. is_space (fst d)) (runes normalized)
      then Inl (ErrNew ''agent id contains whitespace'')
      else Inr normalized)"

definition hash128 :: "bytes \<Rightarrow> 128 word" where
  "hash128 data = arr_of (take 16 (sum256 data))"

definition agent_id_hash :: "runtime \<Rightarrow> string \<Rightarrow> goerr + 128 word" where
  "agent_id_hash rt agent_id =
     (case normalize_agent_id rt agent_id of
        Inl e \<Rightarrow> Inl e
      | Inr normalized \<Rightarrow> Inr (hash128 normalized))"

lemma normalize_InrD:
  assumes "normalize_agent_id rt s = Inr n"
  shows "n \<noteq> []" and "\<forall>d \<in> set (runes n). \<not> is_space (fst d)"
    and "n = to_lower (rt_lower rt) (trim_space s)"
  using assms by (auto simp: normalize_agent_id_def Let_def list_ex_iff split: if_splits)

lemma normalize_fixpoint:
  assumes "lower_ok (rt_lower rt)" and "normalize_agent_id rt s = Inr n"
  shows "normalize_agent_id rt n = Inr n"
proof -
  note n = normalize_InrD [OF assms(2)]
  have "to_lower (rt_lower rt) (trim_space n) = n"
    using to_lower_idem [OF assms(1)] trim_space_no_space [OF n(2)] n(3) by simp
  with n(1,2) show ?thesis
    by (simp add: normalize_agent_id_def Let_def list_ex_iff)
qed

lemma agent_id_hash_cases:
  "agent_id_hash rt s = Inr h \<longleftrightarrow> (\<exists>n. normalize_agent_id rt s = Inr n \<and> h = hash128 n)"
  by (auto simp: agent_id_hash_def split: sum.splits)

lemma agent_id_hash_fixpoint:
  assumes "lower_ok (rt_lower rt)" and "normalize_agent_id rt s = Inr n"
  shows "agent_id_hash rt n = Inr (hash128 n)"
  using normalize_fixpoint [OF assms] by (simp add: agent_id_hash_def)

subsection \<open>The payload\<close>

record payload =
  p_version :: "8 word"
  p_flags :: "8 word"
  p_ttl_seconds :: "16 word"
  p_sequence :: "32 word"
  p_agent_id_hash :: "128 word"
  p_facts_ptr_hash128 :: "128 word"
  p_credential_set128 :: "128 word"

record agent_addr120 =
  aa_payload :: "448 word"
  aa_signature :: "512 word"

definition version1 :: "8 word" where
  "version1 = 1"

definition payload_size :: nat where
  "payload_size = 56"

definition signature_size :: nat where
  "signature_size = 64"

definition record_size :: nat where
  "record_size = payload_size + signature_size"

definition validate_payload_bytes :: "448 word \<Rightarrow> agentaddr_err option" where
  "validate_payload_bytes payload =
     (let bs = arr_bytes payload in
      if arr_of (slice_of 0 1 bs) \<noteq> version1 then Some ErrUnsupportedVersion
      else if arr_of (slice_of 2 4 bs) = (0 :: 16 word) then Some ErrZeroTTL
      else None)"

definition payload_layout :: "payload \<Rightarrow> bytes" where
  "payload_layout p =
     arr_bytes (p_version p) @ arr_bytes (p_flags p) @ arr_bytes (p_ttl_seconds p)
     @ arr_bytes (p_sequence p) @ arr_bytes (p_agent_id_hash p)
     @ arr_bytes (p_facts_ptr_hash128 p) @ arr_bytes (p_credential_set128 p)"

definition encode_payload :: "payload \<Rightarrow> goerr + 448 word" where
  "encode_payload p =
     (let out = arr_of (payload_layout p) in
      case validate_payload_bytes out of
        Some e \<Rightarrow> Inl (Sentinel (AgentAddr e))
      | None \<Rightarrow> Inr out)"

definition decode_payload :: "448 word \<Rightarrow> payload" where
  "decode_payload payload =
     (let bs = arr_bytes payload in
      \<lparr>p_version = arr_of (slice_of 0 1 bs),
       p_flags = arr_of (slice_of 1 2 bs),
       p_ttl_seconds = arr_of (slice_of 2 4 bs),
       p_sequence = arr_of (slice_of 4 8 bs),
       p_agent_id_hash = arr_of (slice_of 8 24 bs),
       p_facts_ptr_hash128 = arr_of (slice_of 24 40 bs),
       p_credential_set128 = arr_of (slice_of 40 56 bs)\<rparr>)"

definition agentaddr_new ::
  "runtime \<Rightarrow> string \<Rightarrow> 16 word \<Rightarrow> 8 word \<Rightarrow> 32 word \<Rightarrow> 128 word \<Rightarrow> 128 word \<Rightarrow> goerr + payload" where
  "agentaddr_new rt agent_id ttl_seconds flags sequence facts_ptr_hash128 credential_set128 =
     (if ttl_seconds = 0 then Inl (Sentinel (AgentAddr ErrZeroTTL))
      else case agent_id_hash rt agent_id of
        Inl e \<Rightarrow> Inl e
      | Inr h \<Rightarrow>
          Inr \<lparr>p_version = version1, p_flags = flags, p_ttl_seconds = ttl_seconds,
               p_sequence = sequence, p_agent_id_hash = h,
               p_facts_ptr_hash128 = facts_ptr_hash128, p_credential_set128 = credential_set128\<rparr>)"

subsection \<open>The signed record\<close>

definition sign_payload :: "runtime \<Rightarrow> payload \<Rightarrow> bytes \<Rightarrow> goerr + agent_addr120" where
  "sign_payload rt p private_key =
     (if length private_key \<noteq> ed_private_key_size then Inl (Sentinel (AgentAddr ErrInvalidPrivateKey))
      else case encode_payload p of
        Inl e \<Rightarrow> Inl e
      | Inr bs \<Rightarrow>
          Inr \<lparr>aa_payload = bs, aa_signature = rt_ed_sign rt private_key (arr_bytes bs)\<rparr>)"

definition encode_record :: "agent_addr120 \<Rightarrow> bytes" where
  "encode_record a = arr_bytes (aa_payload a) @ arr_bytes (aa_signature a)"

definition decode_record :: "bytes \<Rightarrow> goerr + agent_addr120" where
  "decode_record record =
     (if length record \<noteq> record_size then Inl (Sentinel (AgentAddr ErrInvalidRecordLength))
      else
        let addr = \<lparr>aa_payload = arr_of (take payload_size record),
                    aa_signature = arr_of (drop payload_size record)\<rparr> in
        case validate_payload_bytes (aa_payload addr) of
          Some e \<Rightarrow> Inl (Sentinel (AgentAddr e))
        | None \<Rightarrow> Inr addr)"

definition payload_of :: "agent_addr120 \<Rightarrow> payload" where
  "payload_of a = decode_payload (aa_payload a)"

definition verify_record :: "runtime \<Rightarrow> agent_addr120 \<Rightarrow> bytes \<Rightarrow> goerr option" where
  "verify_record rt a public_key =
     (if length public_key \<noteq> ed_public_key_size then Some (Sentinel (AgentAddr ErrInvalidPublicKey))
      else if \<not> rt_ed_verify rt public_key (arr_bytes (aa_payload a)) (arr_bytes (aa_signature a))
      then Some (Sentinel (AgentAddr ErrInvalidSignature))
      else None)"

lemma length_payload_layout [simp, bytes_simps]: "length (payload_layout p) = 56"
  by (simp add: payload_layout_def)

lemma layout_round_trip [simp]: "arr_bytes (arr_of (payload_layout p) :: 448 word) = payload_layout p"
  by (rule arr_bytes_arr_of) simp

lemma decode_payload_layout: "decode_payload (arr_of (payload_layout p)) = p"
  by (simp add: decode_payload_def Let_def) (simp add: payload_layout_def)

lemma layout_decode_payload: "payload_layout (decode_payload w) = arr_bytes w"
proof -
  have len: "length (arr_bytes w) = 56" by simp
  have part: "arr_bytes (arr_of (slice_of lo hi (arr_bytes w)) :: 'b::len word) = slice_of lo hi (arr_bytes w)"
    if "hi \<le> 56" "lo \<le> hi" "8 * (hi - lo) = LENGTH('b)" for lo hi
    using that len by (intro arr_bytes_arr_of) (simp add: slice_of_def)
  have "payload_layout (decode_payload w) =
      slice_of 0 1 (arr_bytes w) @ slice_of 1 2 (arr_bytes w) @ slice_of 2 4 (arr_bytes w) @ slice_of 4 8 (arr_bytes w)
      @ slice_of 8 24 (arr_bytes w) @ slice_of 24 40 (arr_bytes w) @ slice_of 40 56 (arr_bytes w)"
    by (simp add: payload_layout_def decode_payload_def Let_def part)
  also have "\<dots> = arr_bytes w"
    using len by (simp add: slice_join)
  finally show ?thesis .
qed

lemma payload_of_inj: "payload_of a = payload_of b \<Longrightarrow> aa_payload a = aa_payload b"
  using layout_decode_payload by (metis payload_of_def arr_round_trips(6))

lemma validate_layout:
  "validate_payload_bytes (arr_of (payload_layout p)) =
     (if p_version p \<noteq> version1 then Some ErrUnsupportedVersion
      else if p_ttl_seconds p = 0 then Some ErrZeroTTL else None)"
  by (simp add: validate_payload_bytes_def Let_def) (simp add: payload_layout_def)

lemma encode_payload_iff:
  "encode_payload p = Inr bs \<longleftrightarrow>
     p_version p = version1 \<and> p_ttl_seconds p \<noteq> 0 \<and> bs = arr_of (payload_layout p)"
  by (auto simp: encode_payload_def Let_def validate_layout)

lemma length_encode_record [simp, bytes_simps]: "length (encode_record a) = record_size"
  by (simp add: encode_record_def record_size_def payload_size_def signature_size_def)

lemma take_encode_record: "take payload_size (encode_record a) = arr_bytes (aa_payload a)"
  by (simp add: encode_record_def payload_size_def)

lemma drop_encode_record: "drop payload_size (encode_record a) = arr_bytes (aa_signature a)"
  by (simp add: encode_record_def payload_size_def)

lemma decode_encode_record:
  "decode_record (encode_record a) =
     (case validate_payload_bytes (aa_payload a) of
        Some e \<Rightarrow> Inl (Sentinel (AgentAddr e)) | None \<Rightarrow> Inr a)"
  by (simp add: decode_record_def Let_def take_encode_record drop_encode_record split: option.split)

lemma encode_decode_record:
  assumes "decode_record bs = Inr a"
  shows "encode_record a = bs"
proof -
  have len: "length bs = 120"
    using assms by (simp add: decode_record_def record_size_def payload_size_def signature_size_def
        split: if_splits)
  have "aa_payload a = arr_of (take 56 bs)" "aa_signature a = arr_of (drop 56 bs)"
    using assms by (auto simp: decode_record_def Let_def payload_size_def split: if_splits option.splits)
  moreover have "arr_bytes (arr_of (take 56 bs) :: 448 word) = take 56 bs"
    using len by (intro arr_bytes_arr_of) simp
  moreover have "arr_bytes (arr_of (drop 56 bs) :: 512 word) = drop 56 bs"
    using len by (intro arr_bytes_arr_of) simp
  ultimately show ?thesis by (simp add: encode_record_def)
qed

lemma decode_record_valid:
  "decode_record bs = Inr a \<Longrightarrow> validate_payload_bytes (aa_payload a) = None"
  by (auto simp: decode_record_def Let_def split: if_splits option.splits)

lemma encode_record_inj: "encode_record a = encode_record b \<longleftrightarrow> a = b"
proof
  assume e: "encode_record a = encode_record b"
  have "arr_bytes (aa_payload a) = arr_bytes (aa_payload b)"
    "arr_bytes (aa_signature a) = arr_bytes (aa_signature b)"
    using e take_encode_record drop_encode_record by metis+
  then have "aa_payload a = aa_payload b" "aa_signature a = aa_signature b"
    by (metis arr_round_trips)+
  then show "a = b" by simp
qed simp

lemma validate_ttl:
  "validate_payload_bytes w = None \<longleftrightarrow>
     p_version (decode_payload w) = version1 \<and> p_ttl_seconds (decode_payload w) \<noteq> 0"
  by (simp add: validate_payload_bytes_def decode_payload_def Let_def)

lemma sign_payload_iff:
  "sign_payload rt p sk = Inr a \<longleftrightarrow>
     length sk = ed_private_key_size \<and> p_version p = version1 \<and> p_ttl_seconds p \<noteq> 0
     \<and> a = \<lparr>aa_payload = arr_of (payload_layout p),
            aa_signature = rt_ed_sign rt sk (payload_layout p)\<rparr>"
  by (auto simp: sign_payload_def encode_payload_iff encode_payload_def Let_def validate_layout
      split: if_splits)

lemma signed_record_facts:
  assumes "sign_payload rt p sk = Inr a"
  shows "payload_of a = p" and "validate_payload_bytes (aa_payload a) = None"
    and "decode_record (encode_record a) = Inr a"
  using assms by (simp_all add: sign_payload_iff payload_of_def decode_payload_layout validate_layout
      decode_encode_record)

lemma length_ed_public: "length sk = ed_private_key_size \<Longrightarrow> length (ed_public sk) = ed_public_key_size"
  by (simp add: ed_public_def ed_private_key_size_def ed_public_key_size_def)

lemma signed_record_verifies:
  assumes "sign_payload rt p sk = Inr a" and "keypair_ok rt sk"
  shows "verify_record rt a (ed_public sk) = None"
  using assms by (simp add: sign_payload_iff verify_record_def keypair_ok_def length_ed_public)

lemma agentaddr_new_iff:
  "agentaddr_new rt agent_id ttl flags sq fp cs = Inr p \<longleftrightarrow>
     ttl \<noteq> 0 \<and> (\<exists>h. agent_id_hash rt agent_id = Inr h
       \<and> p = \<lparr>p_version = version1, p_flags = flags, p_ttl_seconds = ttl, p_sequence = sq,
              p_agent_id_hash = h, p_facts_ptr_hash128 = fp, p_credential_set128 = cs\<rparr>)"
  by (auto simp: agentaddr_new_def split: sum.splits)

lemma hash128_collision:
  "hash128 a = hash128 b \<longleftrightarrow> take 16 (sum256 a) = take 16 (sum256 b)"
proof
  assume "hash128 a = hash128 b"
  then have "arr_bytes (hash128 a) = arr_bytes (hash128 b)" by simp
  then show "take 16 (sum256 a) = take 16 (sum256 b)"
    by (simp add: hash128_def arr_bytes_arr_of)
qed (simp add: hash128_def)

end
