(* ===== verification/Go_Filepath.thy ===== *)
theory Go_Filepath
  imports Go_Strings
begin

text \<open>
  What the program uses of \<open>path/filepath\<close> on a system whose separator is the slash:
  \<open>Clean\<close>, \<open>Join\<close>, \<open>Dir\<close> and \<open>IsAbs\<close>. \<open>Clean\<close> is the loop over the elements of a path
  with the output as a stack: empty elements and \<open>.\<close> are dropped, \<open>..\<close> removes the element
  before it, is kept at the front of a relative path and dropped at the root. The lemmas
  give the form of a cleaned path and what joining a cleaned path to a directory yields.
\<close>

definition is_abs :: "string \<Rightarrow> bool" where
  "is_abs path = has_prefix path ''/''"

definition clean_step :: "bool \<Rightarrow> string list \<Rightarrow> string \<Rightarrow> string list" where
  "clean_step rooted out elem =
     (if elem = [] \<or> elem = ''.'' then out
      else if elem = ''..'' then
        (case out of
           prev # rest \<Rightarrow> if prev = ''..'' then elem # out else rest
         | [] \<Rightarrow> if rooted then [] else [elem])
      else elem # out)"

definition clean_elems :: "string \<Rightarrow> string list" where
  "clean_elems path = rev (foldl (clean_step (is_abs path)) [] (split_on CHR ''/'' path))"

definition clean_path :: "string \<Rightarrow> string" where
  "clean_path path =
     (let body = join ''/'' (clean_elems path) in
      if is_abs path then CHR ''/'' # body else if body = [] then ''.'' else body)"

fun join_path :: "string list \<Rightarrow> string" where
  "join_path [] = []"
| "join_path (e # es) = (if e = [] then join_path es else clean_path (join ''/'' (e # es)))"

text \<open>\<open>Dir\<close>: what is left after the final element, cleaned.\<close>

definition dir_path :: "string \<Rightarrow> string" where
  "dir_path path = clean_path (rev (dropWhile (\<lambda>c. c \<noteq> CHR ''/'') (rev path)))"

subsection \<open>Cleaned paths\<close>

definition normal_elem :: "string \<Rightarrow> bool" where
  "normal_elem e \<longleftrightarrow> e \<noteq> [] \<and> e \<noteq> ''.'' \<and> e \<noteq> ''..'' \<and> CHR ''/'' \<notin> set e"

definition stack_ok :: "bool \<Rightarrow> string list \<Rightarrow> bool" where
  "stack_ok rooted out \<longleftrightarrow>
     (\<exists>n ns. out = ns @ replicate n ''..'' \<and> list_all normal_elem ns \<and> (rooted \<longrightarrow> n = 0))"

lemma stack_ok_Nil [simp]: "stack_ok rooted []"
  by (simp add: stack_ok_def)

lemma stack_ok_step:
  assumes "stack_ok rooted out" and "CHR ''/'' \<notin> set e"
  shows "stack_ok rooted (clean_step rooted out e)"
proof -
  obtain n ns where out: "out = ns @ replicate n ''..''" "list_all normal_elem ns" "rooted \<longrightarrow> n = 0"
    using assms(1) by (auto simp: stack_ok_def)
  consider "e = [] \<or> e = ''.''" | "e = ''..''" | "normal_elem e"
    using assms(2) by (auto simp: normal_elem_def)
  then show ?thesis
  proof cases
    case 1
    then show ?thesis using assms(1) by (auto simp: clean_step_def)
  next
    case 3
    then have "clean_step rooted out e = (e # ns) @ replicate n ''..''"
      by (auto simp: clean_step_def normal_elem_def out)
    then show ?thesis
      unfolding stack_ok_def using out 3 by (intro exI [of _ n] exI [of _ "e # ns"]) simp
  next
    case dots: 2
    show ?thesis
    proof (cases ns)
      case (Cons x xs)
      then have "clean_step rooted out e = xs @ replicate n ''..''"
        using out by (auto simp: clean_step_def normal_elem_def dots)
      then show ?thesis
        unfolding stack_ok_def using out Cons by (intro exI [of _ n] exI [of _ xs]) simp
    next
      case Nil
      then have "clean_step rooted out e = (if rooted then [] else replicate (Suc n) ''..'')"
        using out by (cases n) (auto simp: clean_step_def dots)
      then show ?thesis
        unfolding stack_ok_def by (auto intro!: exI [of _ "if rooted then 0 else Suc n"] exI [of _ "[]"])
    qed
  qed
qed

lemma stack_ok_fold:
  "\<forall>e \<in> set es. CHR ''/'' \<notin> set e \<Longrightarrow> stack_ok rooted out \<Longrightarrow> stack_ok rooted (foldl (clean_step rooted) out es)"
  by (induction es arbitrary: out) (auto intro: stack_ok_step)

lemma clean_elems_form:
  obtains n ns where "clean_elems path = replicate n ''..'' @ ns" and "list_all normal_elem ns"
    and "is_abs path \<longrightarrow> n = 0"
proof -
  have "stack_ok (is_abs path) (foldl (clean_step (is_abs path)) [] (split_on CHR ''/'' path))"
    by (rule stack_ok_fold) (auto dest: split_on_no_sep)
  then obtain n ns where "foldl (clean_step (is_abs path)) [] (split_on CHR ''/'' path) = ns @ replicate n ''..''"
    "list_all normal_elem ns" "is_abs path \<longrightarrow> n = 0"
    unfolding stack_ok_def by blast
  then show thesis
    by (intro that [of n "rev ns"]) (auto simp: clean_elems_def list_all_iff)
qed

lemma fold_normal:
  "list_all normal_elem es \<Longrightarrow> foldl (clean_step rooted) out es = rev es @ out"
  by (induction es arbitrary: out) (auto simp: clean_step_def normal_elem_def)

lemma split_join:
  "es \<noteq> [] \<Longrightarrow> \<forall>e \<in> set es. sep \<notin> set e \<Longrightarrow> split_on sep (join [sep] es) = es"
proof (induction es)
  case (Cons e es)
  then show ?case by (cases es) (simp_all add: split_on_atom split_on_append)
qed simp

lemma split_append_sep: "split_on sep (s @ sep # t) = split_on sep s @ split_on sep t"
  by (induction s) (auto split: list.split)

lemma is_abs_append: "p \<noteq> [] \<Longrightarrow> is_abs (p @ q) = is_abs p"
  by (cases p) (auto simp: is_abs_def)

text \<open>A directory and a path below it.\<close>

lemma clean_elems_below:
  assumes "dir \<noteq> []" and "es \<noteq> []" and "list_all normal_elem es"
  shows "clean_elems (dir @ CHR ''/'' # join ''/'' es) = clean_elems dir @ es"
proof -
  have "split_on CHR ''/'' (join ''/'' es) = es"
    using assms(2,3) by (intro split_join) (auto simp: list_all_iff normal_elem_def)
  then show ?thesis
    using assms by (simp add: clean_elems_def split_append_sep is_abs_append fold_normal)
qed

lemma join_Cons: "join sep (e # es) = e @ (if es = [] then [] else sep @ join sep es)"
  by (cases es) simp_all

lemma join_nonempty: "es \<noteq> [] \<Longrightarrow> list_all normal_elem es \<Longrightarrow> join ''/'' es \<noteq> []"
  by (cases es) (auto simp: join_Cons normal_elem_def)

lemma not_abs_join:
  assumes "es \<noteq> []" and "list_all normal_elem es"
  shows "\<not> is_abs (join ''/'' es)"
proof -
  obtain e fs where es: "es = e # fs" using assms(1) by (cases es) auto
  with assms(2) obtain c t where "e = c # t" "c \<noteq> CHR ''/''" by (cases e) (auto simp: normal_elem_def)
  then show ?thesis by (simp add: es join_Cons is_abs_def)
qed

lemma clean_elems_normal:
  "es \<noteq> [] \<Longrightarrow> list_all normal_elem es \<Longrightarrow> clean_elems (join ''/'' es) = es"
  by (simp add: clean_elems_def fold_normal split_join list_all_iff normal_elem_def)

lemma clean_path_normal:
  "es \<noteq> [] \<Longrightarrow> list_all normal_elem es \<Longrightarrow> clean_path (join ''/'' es) = join ''/'' es"
  by (simp add: clean_path_def Let_def clean_elems_normal not_abs_join join_nonempty)

lemma join_eq_iff:
  assumes "es \<noteq> []" "fs \<noteq> []" "list_all normal_elem es" "list_all normal_elem fs"
  shows "join ''/'' es = join ''/'' fs \<longleftrightarrow> es = fs"
  using clean_elems_normal assms by metis

lemma clean_path_append_eq:
  assumes "dir \<noteq> []" "es \<noteq> []" "fs \<noteq> []" "list_all normal_elem es" "list_all normal_elem fs"
    and "clean_path (dir @ CHR ''/'' # join ''/'' es) = clean_path (dir @ CHR ''/'' # join ''/'' fs)"
  shows "es = fs"
proof -
  obtain n ns where d: "clean_elems dir = replicate n ''..'' @ ns" "list_all normal_elem ns"
    by (rule clean_elems_form [of dir])
  have no_sep: "\<forall>e \<in> set (clean_elems dir @ gs). CHR ''/'' \<notin> set e" if "list_all normal_elem gs" for gs
  proof -
    have "CHR ''/'' \<notin> set e" if "normal_elem e" for e using that by (simp add: normal_elem_def)
    moreover have "CHR ''/'' \<notin> set ''..''" by simp
    ultimately show ?thesis using d that unfolding list_all_iff d(1) set_append set_replicate_conv_if by auto
  qed
  have split: "split_on CHR ''/'' (join ''/'' (clean_elems dir @ gs)) = clean_elems dir @ gs"
    if "gs \<noteq> []" "list_all normal_elem gs" for gs
    using that no_sep [of gs] by (intro split_join) simp_all
  have inj: "es = fs" if "join ''/'' (clean_elems dir @ es) = join ''/'' (clean_elems dir @ fs)"
    using arg_cong [OF that, of "split_on CHR ''/''"] unfolding split [OF assms(2,4)] split [OF assms(3,5)]
    by simp
  have ne: "join ''/'' (clean_elems dir @ gs) \<noteq> []" if "gs \<noteq> []" "list_all normal_elem gs" for gs
  proof -
    note split [OF that]
    moreover have "[] \<notin> set gs"
      using that(2) unfolding list_all_iff normal_elem_def by blast
    then have "clean_elems dir @ gs \<noteq> [[]]"
      using that(1) by (cases "clean_elems dir"; cases gs) auto
    ultimately show ?thesis by (intro notI) simp
  qed
  show ?thesis
    using assms(6) inj ne [OF assms(2,4)] ne [OF assms(3,5)]
    by (simp add: clean_path_def Let_def clean_elems_below assms is_abs_append split: if_splits)
qed

end
