(* ===== verification/Facts_Store.thy ===== *)
theory Facts_Store
  imports Agent_Addr Go_Filepath
begin

text \<open>
  \<open>internal/facts\<close>: pointers to facts documents and their hash, the content-addressed
  \<open>FilesystemStore\<close> and the \<open>PostgresPointerStore\<close> that finds a pointer by its hash. A disk
  maps full paths to contents; \<open>fs_env\<close> and the fault arguments are what the operating system
  and the database answer, a failing \<open>WriteFile\<close> leaving the file with whatever it had written.
  The locales \<open>facts_store\<close> and \<open>pointer_store\<close> are the two interfaces with what the services
  rely on: a document put is the document got, unless two documents share a digest.
\<close>

record facts_pointer =
  fp_scheme :: string
  fp_path :: string

definition pointer_string :: "facts_pointer \<Rightarrow> string" where
  "pointer_string p = (if fp_scheme p = [] then fp_path p else fp_scheme p @ '':'' @ fp_path p)"

definition pointer_hash128 :: "facts_pointer \<Rightarrow> 128 word" where
  "pointer_hash128 p = hash128 (pointer_string p)"

subsection \<open>The filesystem store\<close>

definition filesystem_scheme :: string where
  "filesystem_scheme = ''fs''"

type_synonym disk = "string \<Rightarrow> bytes option"

record fs_env =
  fs_ctx :: "os_error option"
  fs_mkdir :: "os_error option"
  fs_write :: "(os_error \<times> bytes option) option"
  fs_read :: "os_error option"

definition new_filesystem_store :: "string \<Rightarrow> goerr + string" where
  "new_filesystem_store root =
     (if root = [] then Inl (ErrNew ''filesystem facts store requires a root directory'') else Inr root)"

definition deterministic_path :: "bytes \<Rightarrow> string" where
  "deterministic_path facts =
     (let encoded = hex_encode (sum256 facts)
      in join_path [slice_of 0 2 encoded, slice_of 2 4 encoded, encoded @ ''.facts''])"

definition clean_relative_path :: "string \<Rightarrow> goerr + string" where
  "clean_relative_path path =
     (if path = [] then Inl (ErrNew ''facts pointer path is empty'')
      else if is_abs path then Inl (ErrNew ''facts pointer path must be relative'')
      else
        let clean = clean_path path in
        if clean = ''.'' \<or> has_prefix clean ''../'' \<or> clean = ''..''
        then Inl (ErrNew ''facts pointer path escapes store root'')
        else Inr clean)"

definition fs_put ::
  "string \<Rightarrow> fs_env \<Rightarrow> disk \<Rightarrow> bytes \<Rightarrow> (goerr + facts_pointer) \<times> disk" where
  "fs_put root env disk facts =
     (case fs_ctx env of
        Some e \<Rightarrow> (Inl (ErrNew e), disk)
      | None \<Rightarrow>
        let relative_path = deterministic_path facts;
            full_path = join_path [root, relative_path]
        in (case fs_mkdir env of
              Some e \<Rightarrow> (Inl (wrap_err ''create facts directory'' (ErrNew e)), disk)
            | None \<Rightarrow>
              (case fs_write env of
                 Some (e, left) \<Rightarrow> (Inl (wrap_err ''write facts file'' (ErrNew e)), disk(full_path := left))
               | None \<Rightarrow>
                   (Inr \<lparr>fp_scheme = filesystem_scheme, fp_path = relative_path\<rparr>,
                    disk(full_path \<mapsto> facts)))))"

definition fs_get :: "runtime \<Rightarrow> string \<Rightarrow> fs_env \<Rightarrow> disk \<Rightarrow> facts_pointer \<Rightarrow> goerr + bytes" where
  "fs_get rt root env disk pointer =
     (case fs_ctx env of
        Some e \<Rightarrow> Inl (ErrNew e)
      | None \<Rightarrow>
        if fp_scheme pointer \<noteq> filesystem_scheme
        then Inl (ErrNew (''unsupported facts pointer scheme '' @ quote_text (rt_printable rt) (fp_scheme pointer)))
        else case clean_relative_path (fp_path pointer) of
          Inl e \<Rightarrow> Inl e
        | Inr relative_path \<Rightarrow>
            (case fs_read env of
               Some e \<Rightarrow> Inl (wrap_err ''read facts file'' (ErrNew e))
             | None \<Rightarrow>
                 (case disk (join_path [root, relative_path]) of
                    None \<Rightarrow> Inl (Sentinel FactsErrNotFound)
                  | Some data \<Rightarrow> Inr data)))"

subsection \<open>The pointer store\<close>

type_synonym pointer_table = "string \<Rightarrow> (string \<times> string) option"

definition pg_put_pointer ::
  "db_error option \<Rightarrow> pointer_table \<Rightarrow> facts_pointer \<Rightarrow> goerr option \<times> pointer_table" where
  "pg_put_pointer fault table pointer =
     (let facts_hash = pointer_hash128 pointer in
      if fp_scheme pointer = [] then (Some (ErrNew ''facts pointer scheme is empty''), table)
      else if fp_path pointer = [] then (Some (ErrNew ''facts pointer path is empty''), table)
      else case fault of
        Some e \<Rightarrow> (Some (wrap_err ''upsert facts pointer'' (ErrNew e)), table)
      | None \<Rightarrow>
          (None, table(hex_encode (arr_bytes facts_hash) \<mapsto> (fp_scheme pointer, fp_path pointer))))"

definition pg_resolve_pointer ::
  "db_error option \<Rightarrow> pointer_table \<Rightarrow> 128 word \<Rightarrow> goerr + facts_pointer" where
  "pg_resolve_pointer fault table facts_ptr_hash128 =
     (case fault of
        Some e \<Rightarrow> Inl (wrap_err ''resolve facts pointer'' (ErrNew e))
      | None \<Rightarrow>
        (case table (hex_encode (arr_bytes facts_ptr_hash128)) of
           None \<Rightarrow> Inl (Sentinel FactsErrNotFound)
         | Some (scheme, path) \<Rightarrow> Inr \<lparr>fp_scheme = scheme, fp_path = path\<rparr>))"

subsection \<open>Paths below the root\<close>

lemma clean_relative_path_elems:
  assumes "clean_relative_path path = Inr q"
  obtains es where "es \<noteq> []" and "list_all normal_elem es" and "q = join ''/'' es"
    and "es = clean_elems path"
proof -
  have p: "path \<noteq> []" "\<not> is_abs path" and q: "q = clean_path path"
    and c: "clean_path path \<noteq> ''.''" "\<not> has_prefix (clean_path path) ''../''" "clean_path path \<noteq> ''..''"
    using assms by (auto simp: clean_relative_path_def Let_def split: if_splits)
  obtain n ns where f: "clean_elems path = replicate n ''..'' @ ns" "list_all normal_elem ns"
    by (rule clean_elems_form)
  have body: "clean_path path = join ''/'' (clean_elems path)" "clean_elems path \<noteq> []"
    using c(1) p by (auto simp: clean_path_def Let_def split: if_splits)
  have "n = 0"
  proof (cases n)
    case (Suc k)
    then have "clean_path path = ''..'' @ (if replicate k ''..'' @ ns = [] then [] else ''/'' @ join ''/'' (replicate k ''..'' @ ns))"
      by (simp add: body(1) f(1) join_Cons)
    then show ?thesis using c(2,3) by (auto simp: has_prefix_iff split: if_splits)
  qed simp
  with f body q show thesis by (intro that [of ns]) auto
qed

lemma join_path_below:
  assumes "root \<noteq> []" and "es \<noteq> []" and "list_all normal_elem es"
  shows "join_path [root, join ''/'' es] = clean_path (root @ CHR ''/'' # join ''/'' es)"
  using assms by simp

text \<open>A hexadecimal name is a normal element.\<close>

lemma normal_hex:
  assumes "\<forall>c \<in> set e. is_hex c" and "e \<noteq> []"
  shows "normal_elem e"
proof -
  have "\<not> is_hex CHR ''.''" "\<not> is_hex CHR ''/''" by (simp_all add: is_hex_def byte_in_def)
  with assms show ?thesis by (auto simp: normal_elem_def)
qed

lemma normal_facts_name:
  assumes "\<forall>c \<in> set e. is_hex c" and "e \<noteq> []"
  shows "normal_elem (e @ ''.facts'')"
proof -
  have "\<not> is_hex CHR ''/''" by (simp add: is_hex_def byte_in_def)
  with assms show ?thesis by (cases e) (auto simp: normal_elem_def)
qed

definition path_elems :: "bytes \<Rightarrow> string list" where
  "path_elems facts =
     (let encoded = hex_encode (sum256 facts)
      in [slice_of 0 2 encoded, slice_of 2 4 encoded, encoded @ ''.facts''])"

lemma slice_hex: "slice_of lo hi s = e \<Longrightarrow> \<forall>c \<in> set s. P c \<Longrightarrow> \<forall>c \<in> set e. P c"
  by (auto simp: slice_of_def dest!: in_set_takeD in_set_dropD)

lemma normal_digest_slice:
  assumes "lo < hi" and "hi \<le> 64"
  shows "normal_elem (slice_of lo hi (hex_encode (sum256 facts)))"
proof (rule normal_hex)
  show "\<forall>c \<in> set (slice_of lo hi (hex_encode (sum256 facts))). is_hex c"
    by (rule slice_hex [OF refl]) (use hex_encode_hex in blast)
  have "length (slice_of lo hi (hex_encode (sum256 facts))) = hi - lo"
    using assms by simp
  then show "slice_of lo hi (hex_encode (sum256 facts)) \<noteq> []"
    using assms(1) by force
qed

lemma path_elems_normal: "list_all normal_elem (path_elems facts)"
proof -
  have "length (hex_encode (sum256 facts)) = 64" by simp
  then have "normal_elem (hex_encode (sum256 facts) @ ''.facts'')"
    using hex_encode_hex by (intro normal_facts_name) force+
  then show ?thesis by (simp add: path_elems_def Let_def normal_digest_slice)
qed

lemma path_elems_nonempty [simp]: "path_elems facts \<noteq> []"
  by (simp add: path_elems_def Let_def)

lemma deterministic_path_elems: "deterministic_path facts = join ''/'' (path_elems facts)"
proof -
  have "hd (path_elems facts) \<noteq> []"
    using path_elems_normal [of facts] by (simp add: path_elems_def Let_def normal_elem_def)
  then have "deterministic_path facts = clean_path (join ''/'' (path_elems facts))"
    by (simp add: deterministic_path_def path_elems_def Let_def)
  then show ?thesis using clean_path_normal [OF path_elems_nonempty path_elems_normal] by simp
qed

lemma path_elems_inj: "path_elems a = path_elems b \<longleftrightarrow> sha256 a = sha256 b"
  by (auto simp: path_elems_def Let_def hex_encode_inj sum256_def dest: arg_cong [where f = "arr_of :: bytes \<Rightarrow> 256 word"])

lemma deterministic_path_nonempty: "deterministic_path facts \<noteq> []"
  using join_nonempty [OF path_elems_nonempty path_elems_normal] by (simp add: deterministic_path_elems)

lemma clean_deterministic_path: "clean_relative_path (deterministic_path facts) = Inr (deterministic_path facts)"
proof -
  let ?es = "path_elems facts"
  have len: "length (slice_of 0 2 (hex_encode (sum256 facts))) = 2" by simp
  then obtain a b where ab: "slice_of 0 2 (hex_encode (sum256 facts)) = [a, b]"
    by (cases "slice_of 0 2 (hex_encode (sum256 facts))" rule: remdups_adj.cases) auto
  have "is_hex a" "is_hex b"
    using slice_hex [OF ab] hex_encode_hex by (metis list.set_intros)+
  moreover have "\<not> is_hex CHR ''.''" by (simp add: is_hex_def byte_in_def)
  ultimately have dots: "a \<noteq> CHR ''.''" by auto
  obtain t where t: "deterministic_path facts = a # b # CHR ''/'' # t"
    by (simp add: deterministic_path_elems path_elems_def Let_def ab)
  have "clean_path (deterministic_path facts) = deterministic_path facts"
    using clean_path_normal [OF path_elems_nonempty path_elems_normal] by (simp add: deterministic_path_elems)
  moreover have "\<not> is_abs (deterministic_path facts)"
    using not_abs_join [OF path_elems_nonempty path_elems_normal] by (simp add: deterministic_path_elems)
  ultimately show ?thesis
    using t dots by (simp add: clean_relative_path_def Let_def)
qed

lemma full_path_inj:
  "join_path [root, deterministic_path a] = join_path [root, deterministic_path b]
     \<longleftrightarrow> sha256 a = sha256 b"
proof (cases "root = []")
  case True
  then show ?thesis
    using path_elems_inj [of a b] clean_path_normal [OF path_elems_nonempty path_elems_normal]
      join_eq_iff [OF path_elems_nonempty path_elems_nonempty path_elems_normal path_elems_normal, of a b]
      deterministic_path_nonempty
    by (simp add: deterministic_path_elems)
next
  case False
  then show ?thesis
    using path_elems_inj [of a b]
      clean_path_append_eq [OF False path_elems_nonempty path_elems_nonempty path_elems_normal path_elems_normal, of a b]
    by (auto simp: deterministic_path_elems)
qed

text \<open>Every file that \<open>Get\<close> reads is strictly below the root.\<close>

lemma get_path_below_root:
  assumes "root \<noteq> []" and "clean_relative_path path = Inr q"
  obtains es where "es \<noteq> []" and "list_all normal_elem es"
    and "clean_elems (root @ CHR ''/'' # q) = clean_elems root @ es"
    and "join_path [root, q] = clean_path (root @ CHR ''/'' # q)"
proof -
  obtain es where es: "es \<noteq> []" "list_all normal_elem es" "q = join ''/'' es"
    using clean_relative_path_elems [OF assms(2)] by blast
  with assms(1) show thesis
    by (intro that [of es]) (simp_all add: clean_elems_below)
qed

subsection \<open>The interfaces\<close>

text \<open>\<open>ptr d\<close> is the pointer a document is stored under.\<close>

locale facts_store =
  fixes put :: "'x \<Rightarrow> 's \<Rightarrow> bytes \<Rightarrow> (goerr + facts_pointer) \<times> 's"
    and get :: "'s \<Rightarrow> facts_pointer \<Rightarrow> goerr + bytes"
    and ptr :: "bytes \<Rightarrow> facts_pointer"
  assumes put_pointer: "fst (put x s d) = Inr p \<Longrightarrow> p = ptr d"
    and get_put: "fst (put x s d) = Inr p \<Longrightarrow> get (snd (put x s d)) p = Inr d"
    and get_put_other: "ptr e \<noteq> ptr d \<Longrightarrow> get (snd (put x s e)) (ptr d) = get s (ptr d)"
begin

fun run_puts :: "'s \<Rightarrow> ('x \<times> bytes) list \<Rightarrow> 's" where
  "run_puts s [] = s"
| "run_puts s ((x, e) # ops) = run_puts (snd (put x s e)) ops"

text \<open>A stored document stays what it is while no other document with its pointer is put and no
  write of the document itself fails.\<close>

fun puts_keep :: "bytes \<Rightarrow> 's \<Rightarrow> ('x \<times> bytes) list \<Rightarrow> bool" where
  "puts_keep d s [] = True"
| "puts_keep d s ((x, e) # ops) =
     ((if e = d then is_inr (fst (put x s e)) else ptr e \<noteq> ptr d) \<and> puts_keep d (snd (put x s e)) ops)"

lemma get_run_puts:
  "get s (ptr d) = Inr d \<Longrightarrow> puts_keep d s ops \<Longrightarrow> get (run_puts s ops) (ptr d) = Inr d"
proof (induction s ops rule: run_puts.induct)
  case (2 s x e ops)
  have "get (snd (put x s e)) (ptr d) = Inr d"
  proof (cases "e = d")
    case True
    with 2(3) obtain p where "fst (put x s d) = Inr p" by (auto simp: is_inr_iff)
    with True show ?thesis using get_put put_pointer by metis
  next
    case False
    with 2 show ?thesis by (simp add: get_put_other)
  qed
  with 2 show ?case by simp
qed simp

end

locale pointer_store =
  fixes put_ptr :: "'t \<Rightarrow> facts_pointer \<Rightarrow> goerr option \<times> 't"
    and resolve :: "'t \<Rightarrow> 128 word \<Rightarrow> goerr + facts_pointer"
    and hash :: "facts_pointer \<Rightarrow> 128 word"
  assumes put_accepts: "fst (put_ptr t p) = None \<longleftrightarrow> fp_scheme p \<noteq> [] \<and> fp_path p \<noteq> []"
    and put_rejects: "fst (put_ptr t p) \<noteq> None \<Longrightarrow> snd (put_ptr t p) = t"
    and resolve_put: "fst (put_ptr t p) = None \<Longrightarrow>
      resolve (snd (put_ptr t p)) h = (if h = hash p then Inr p else resolve t h)"
begin

definition run_pointers :: "'t \<Rightarrow> facts_pointer list \<Rightarrow> 't" where
  "run_pointers t ps = foldl (\<lambda>t p. snd (put_ptr t p)) t ps"

lemma resolve_run_pointers:
  "resolve t h = Inr p \<Longrightarrow> \<forall>q \<in> set ps. hash q = h \<longrightarrow> q = p \<Longrightarrow> resolve (run_pointers t ps) h = Inr p"
proof (induction ps arbitrary: t)
  case (Cons q ps)
  have "resolve (snd (put_ptr t q)) h = Inr p"
    using Cons.prems resolve_put put_rejects by (cases "fst (put_ptr t q) = None") auto
  with Cons show ?case by (simp add: run_pointers_def)
qed (simp add: run_pointers_def)

end

text \<open>Both together: what the resolver fetches for a pointer hash.\<close>

locale facts_catalog = facts_store put get ptr + pointer_store put_ptr resolve hash
  for put :: "'x \<Rightarrow> 's \<Rightarrow> bytes \<Rightarrow> (goerr + facts_pointer) \<times> 's"
    and get ptr
    and put_ptr :: "'t \<Rightarrow> facts_pointer \<Rightarrow> goerr option \<times> 't"
    and resolve hash
begin

definition fetch :: "'s \<Rightarrow> 't \<Rightarrow> 128 word \<Rightarrow> goerr + bytes" where
  "fetch s t h = (case resolve t h of Inl e \<Rightarrow> Inl e | Inr p \<Rightarrow> get s p)"

lemma fetch_published:
  assumes "fst (put x s d) = Inr p" and "fst (put_ptr t p) = None"
    and "puts_keep d (snd (put x s d)) ops"
    and "\<forall>q \<in> set ps. hash q = hash p \<longrightarrow> q = p"
  shows "fetch (run_puts (snd (put x s d)) ops) (run_pointers (snd (put_ptr t p)) ps) (hash p) = Inr d"
proof -
  have p: "p = ptr d" using assms(1) by (rule put_pointer)
  have "resolve (run_pointers (snd (put_ptr t p)) ps) (hash p) = Inr p"
    using assms(2,4) by (intro resolve_run_pointers) (simp_all add: resolve_put)
  moreover have "get (run_puts (snd (put x s d)) ops) p = Inr d"
    unfolding p using get_put [OF assms(1)] assms(3) p by (intro get_run_puts) simp_all
  ultimately show ?thesis by (simp add: fetch_def)
qed

end

definition fs_pointer :: "bytes \<Rightarrow> facts_pointer" where
  "fs_pointer d = \<lparr>fp_scheme = filesystem_scheme, fp_path = deterministic_path d\<rparr>"

definition fs_ready :: fs_env where
  "fs_ready = \<lparr>fs_ctx = None, fs_mkdir = None, fs_write = None, fs_read = None\<rparr>"

lemma fs_pointer_inj: "fs_pointer d = fs_pointer e \<longleftrightarrow> sha256 d = sha256 e"
  by (simp add: fs_pointer_def deterministic_path_elems path_elems_inj
      join_eq_iff [OF path_elems_nonempty path_elems_nonempty path_elems_normal path_elems_normal])

lemma fs_get_pointer:
  "fs_get rt root fs_ready disk (fs_pointer d) =
     (case disk (join_path [root, deterministic_path d]) of
        None \<Rightarrow> Inl (Sentinel FactsErrNotFound) | Some data \<Rightarrow> Inr data)"
  by (simp add: fs_get_def fs_ready_def fs_pointer_def clean_deterministic_path del: join_path.simps)

lemma fs_put_Inr:
  "fst (fs_put root env disk d) = Inr p \<Longrightarrow>
   p = fs_pointer d \<and> snd (fs_put root env disk d) = disk(join_path [root, deterministic_path d] \<mapsto> d)"
  by (auto simp: fs_put_def fs_pointer_def Let_def simp del: join_path.simps split: option.splits)

lemma fs_put_disk:
  "snd (fs_put root env disk d) = disk
   \<or> (\<exists>v. snd (fs_put root env disk d) = disk(join_path [root, deterministic_path d] := v))"
  by (auto simp: fs_put_def Let_def simp del: join_path.simps split: option.splits)

lemma fs_get_put_other:
  assumes "fs_pointer e \<noteq> fs_pointer d"
  shows "fs_get rt root fs_ready (snd (fs_put root env disk e)) (fs_pointer d)
         = fs_get rt root fs_ready disk (fs_pointer d)"
proof -
  have "join_path [root, deterministic_path e] \<noteq> join_path [root, deterministic_path d]"
    using assms by (simp add: full_path_inj fs_pointer_inj del: join_path.simps)
  then show ?thesis
    using fs_put_disk [of root env disk e] by (auto simp: fs_get_pointer simp del: join_path.simps)
qed

interpretation fs: facts_store "fs_put root" "fs_get rt root fs_ready" "fs_pointer"
proof unfold_locales
  show "fst (fs_put root x s d) = Inr p \<Longrightarrow> p = fs_pointer d" for x s d p
    using fs_put_Inr by blast
  show "fst (fs_put root x s d) = Inr p \<Longrightarrow> fs_get rt root fs_ready (snd (fs_put root x s d)) p = Inr d" for x s d p
    using fs_put_Inr [of root x s d p] by (auto simp: fs_get_pointer simp del: join_path.simps)
qed (rule fs_get_put_other)

lemma hash_key_inj: "hex_encode (arr_bytes (h :: 128 word)) = hex_encode (arr_bytes g) \<longleftrightarrow> h = g"
  using arr_round_trips(4) by (metis hex_encode_inj)

interpretation pg_ptr: pointer_store "pg_put_pointer None" "pg_resolve_pointer None" "pointer_hash128"
  by unfold_locales
     (auto simp: pg_put_pointer_def pg_resolve_pointer_def Let_def hash_key_inj split: if_splits)

interpretation catalog: facts_catalog "fs_put root" "fs_get rt root fs_ready" "fs_pointer"
  "pg_put_pointer None" "pg_resolve_pointer None" "pointer_hash128"
  by unfold_locales

end
