(* ===== verification/Index_Store.thy ===== *)
theory Index_Store
  imports Agent_Addr
begin

text \<open>
  \<open>internal/index\<close>: the Postgres store of the signed address records, one current row for each
  agent hash and the history of the rows it replaced. \<open>index_put\<close> is one \<open>Put\<close> run alone: its
  transaction takes the error the database may return at each stage, and what is not committed
  is not in the table. The lemmas give the result of every branch; the locale \<open>index_store\<close> is
  the interface with what the services rely on: the sequence of a record never goes back.
\<close>

record indexed_record =
  ix_agent_hash :: "128 word"
  ix_agent_id :: string
  ix_record :: agent_addr120
  ix_sequence :: "32 word"
  ix_ttl_seconds :: "16 word"
  ix_created_at :: gotime
  ix_updated_at :: gotime

record index_row =
  ir_agent_hash :: bytes
  ir_agent_id :: string
  ir_record_bytes :: bytes
  ir_sequence :: "32 word"
  ir_ttl_seconds :: "16 word"
  ir_created_at :: gotime
  ir_updated_at :: gotime

record history_row =
  hr_id :: nat
  hr_row :: index_row
  hr_archived_at :: int

record index_table =
  it_rows :: "bytes \<Rightarrow> index_row option"
  it_history :: "history_row list"
  it_next_id :: nat

datatype index_stage = StageIndexBegin | StageCurrent | StageArchive | StageUpsert | StageIndexCommit

text \<open>\<open>ie_now\<close> is \<open>now()\<close>, the start of the transaction; \<open>ie_local\<close> the zone of a timestamp
  given by its instant.\<close>

record index_env =
  ie_fault :: "index_stage \<Rightarrow> db_error option"
  ie_now :: gotime

definition read_time :: "(int \<Rightarrow> int) \<Rightarrow> gotime \<Rightarrow> gotime" where
  "read_time local t = \<lparr>instant = instant t, zone = local (instant t)\<rparr>"

definition scan_indexed_record :: "(int \<Rightarrow> int) \<Rightarrow> index_row \<Rightarrow> goerr + indexed_record" where
  "scan_indexed_record local row =
     (if length (ir_agent_hash row) \<noteq> 16
      then Inl (ErrNew (''stored agent hash length = '' @ digits_of (length (ir_agent_hash row)) @ '', want 16''))
      else case decode_record (ir_record_bytes row) of
        Inl e \<Rightarrow> Inl e
      | Inr decoded \<Rightarrow>
          Inr \<lparr>ix_agent_hash = arr_of (ir_agent_hash row), ix_agent_id = ir_agent_id row,
               ix_record = decoded, ix_sequence = ir_sequence row,
               ix_ttl_seconds = ir_ttl_seconds row,
               ix_created_at = read_time local (ir_created_at row),
               ix_updated_at = read_time local (ir_updated_at row)\<rparr>)"

definition get_current ::
  "db_error option \<Rightarrow> (int \<Rightarrow> int) \<Rightarrow> index_table \<Rightarrow> 128 word \<Rightarrow> goerr + indexed_record" where
  "get_current fault local table agent_hash =
     (case fault of
        Some e \<Rightarrow> Inl (ErrNew e)
      | None \<Rightarrow>
        (case it_rows table (arr_bytes agent_hash) of
           None \<Rightarrow> Inl (Sentinel (Index IX_ErrNotFound))
         | Some row \<Rightarrow> scan_indexed_record local row))"

subsection \<open>Put\<close>

text \<open>The \<open>switch\<close> on the current record.\<close>

datatype put_decision = PutStale | PutSame | PutConflict | PutWrite

definition decide_put :: "indexed_record option \<Rightarrow> agent_addr120 \<Rightarrow> put_decision" where
  "decide_put current record =
     (case current of
        None \<Rightarrow> PutWrite
      | Some cur \<Rightarrow>
          if p_sequence (payload_of record) < ix_sequence cur then PutStale
          else if p_sequence (payload_of record) = ix_sequence cur
          then if encode_record record = encode_record (ix_record cur) then PutSame else PutConflict
          else PutWrite)"

text \<open>The two statements that write: the current row goes to the history, then is replaced. The
  row of a new agent takes its creation time from the default, an updated row keeps it.\<close>

definition archive_current :: "gotime \<Rightarrow> index_table \<Rightarrow> 128 word \<Rightarrow> index_table" where
  "archive_current now table agent_hash =
     (case it_rows table (arr_bytes agent_hash) of
        None \<Rightarrow> table
      | Some row \<Rightarrow>
          table\<lparr>it_history := it_history table
                  @ [\<lparr>hr_id = it_next_id table, hr_row = row, hr_archived_at = instant now\<rparr>],
                it_next_id := Suc (it_next_id table)\<rparr>)"

definition upsert_row ::
  "gotime \<Rightarrow> index_row option \<Rightarrow> 128 word \<Rightarrow> string \<Rightarrow> agent_addr120 \<Rightarrow> index_row" where
  "upsert_row now old agent_hash agent_id record =
     \<lparr>ir_agent_hash = arr_bytes agent_hash, ir_agent_id = agent_id,
      ir_record_bytes = encode_record record,
      ir_sequence = p_sequence (payload_of record), ir_ttl_seconds = p_ttl_seconds (payload_of record),
      ir_created_at = (case old of None \<Rightarrow> now | Some row \<Rightarrow> ir_created_at row),
      ir_updated_at = now\<rparr>"

definition upsert_current ::
  "gotime \<Rightarrow> index_table \<Rightarrow> 128 word \<Rightarrow> string \<Rightarrow> agent_addr120 \<Rightarrow> index_table" where
  "upsert_current now table agent_hash agent_id record =
     table\<lparr>it_rows := (it_rows table)(arr_bytes agent_hash \<mapsto>
             upsert_row now (it_rows table (arr_bytes agent_hash)) agent_hash agent_id record)\<rparr>"

definition write_record ::
  "index_env \<Rightarrow> index_table \<Rightarrow> 128 word \<Rightarrow> string \<Rightarrow> agent_addr120 \<Rightarrow> goerr option \<times> index_table" where
  "write_record env table agent_hash agent_id record =
     (case ie_fault env StageArchive of
        Some e \<Rightarrow> (Some (wrap_err ''archive current agent address record'' (ErrNew e)), table)
      | None \<Rightarrow>
     (case ie_fault env StageUpsert of
        Some e \<Rightarrow> (Some (wrap_err ''upsert current agent address record'' (ErrNew e)), table)
      | None \<Rightarrow>
     (case ie_fault env StageIndexCommit of
        Some e \<Rightarrow> (Some (wrap_err ''commit postgres index transaction'' (ErrNew e)), table)
      | None \<Rightarrow>
          (None, upsert_current (ie_now env) (archive_current (ie_now env) table agent_hash)
                   agent_hash agent_id record))))"

definition check_put :: "runtime \<Rightarrow> string \<Rightarrow> agent_addr120 \<Rightarrow> goerr + 128 word" where
  "check_put rt agent_id record =
     (case agent_id_hash rt agent_id of
        Inl e \<Rightarrow> Inl e
      | Inr agent_hash \<Rightarrow>
          if agent_hash \<noteq> p_agent_id_hash (payload_of record)
          then Inl (ErrNew ''agent id hash does not match record payload'')
          else case decode_record (encode_record record) of
            Inl e \<Rightarrow> Inl e
          | Inr _ \<Rightarrow> Inr agent_hash)"

definition index_put ::
  "runtime \<Rightarrow> index_env \<Rightarrow> index_table \<Rightarrow> string \<Rightarrow> agent_addr120 \<Rightarrow> goerr option \<times> index_table" where
  "index_put rt env table agent_id record =
     (case check_put rt agent_id record of
        Inl e \<Rightarrow> (Some e, table)
      | Inr agent_hash \<Rightarrow>
     (case ie_fault env StageIndexBegin of
        Some e \<Rightarrow> (Some (wrap_err ''begin postgres index transaction'' (ErrNew e)), table)
      | None \<Rightarrow>
     (case get_current (ie_fault env StageCurrent) (\<lambda>_. 0) table agent_hash of
        Inl e \<Rightarrow>
          if \<not> err_is e (Index IX_ErrNotFound)
          then (Some (wrap_err ''get current agent address record for update'' e), table)
          else write_record env table agent_hash agent_id record
      | Inr current \<Rightarrow>
          (case decide_put (Some current) record of
             PutStale \<Rightarrow> (Some (Sentinel (Index IX_ErrStaleSequence)), table)
           | PutSame \<Rightarrow> (map_option ErrNew (ie_fault env StageIndexCommit), table)
           | PutConflict \<Rightarrow> (Some (Sentinel (Index IX_ErrSequenceConflict)), table)
           | PutWrite \<Rightarrow> write_record env table agent_hash agent_id record))))"

subsection \<open>Get and History\<close>

definition index_get ::
  "db_error option \<Rightarrow> (int \<Rightarrow> int) \<Rightarrow> index_table \<Rightarrow> 128 word \<Rightarrow> goerr + indexed_record" where
  "index_get fault local table agent_hash =
     (case fault of
        Some e \<Rightarrow> Inl (wrap_err ''get current agent address record'' (ErrNew e))
      | None \<Rightarrow>
        (case it_rows table (arr_bytes agent_hash) of
           None \<Rightarrow> Inl (Sentinel (Index IX_ErrNotFound))
         | Some row \<Rightarrow>
             (case scan_indexed_record local row of
                Inl e \<Rightarrow> Inl (wrap_err ''get current agent address record'' e)
              | Inr r \<Rightarrow> Inr r)))"

fun scan_history :: "(int \<Rightarrow> int) \<Rightarrow> history_row list \<Rightarrow> goerr + indexed_record list" where
  "scan_history local [] = Inr []"
| "scan_history local (h # hs) =
     (case scan_indexed_record local (hr_row h) of
        Inl e \<Rightarrow> Inl (wrap_err ''scan agent address history'' e)
      | Inr r \<Rightarrow>
          (case scan_history local hs of
             Inl e \<Rightarrow> Inl e
           | Inr rs \<Rightarrow> Inr (r # rs)))"

text \<open>\<open>ORDER BY archived_at ASC, id ASC\<close>.\<close>

definition history_of :: "index_table \<Rightarrow> 128 word \<Rightarrow> history_row list" where
  "history_of table agent_hash =
     sort_key hr_archived_at (sort_key hr_id
       (filter (\<lambda>h. ir_agent_hash (hr_row h) = arr_bytes agent_hash) (it_history table)))"

definition index_history ::
  "db_error option \<Rightarrow> (int \<Rightarrow> int) \<Rightarrow> index_table \<Rightarrow> 128 word \<Rightarrow> goerr + indexed_record list" where
  "index_history fault local table agent_hash =
     (case fault of
        Some e \<Rightarrow> Inl (wrap_err ''query agent address history'' (ErrNew e))
      | None \<Rightarrow> scan_history local (history_of table agent_hash))"

subsection \<open>Well-formed tables\<close>

definition row_ok :: "runtime \<Rightarrow> index_row \<Rightarrow> bool" where
  "row_ok rt row \<longleftrightarrow>
     (\<exists>h a. ir_agent_hash row = arr_bytes h \<and> ir_record_bytes row = encode_record a
        \<and> decode_record (encode_record a) = Inr a
        \<and> ir_sequence row = p_sequence (payload_of a) \<and> ir_ttl_seconds row = p_ttl_seconds (payload_of a)
        \<and> p_agent_id_hash (payload_of a) = h \<and> agent_id_hash rt (ir_agent_id row) = Inr h)"

text \<open>The sequences an agent has had, oldest first: those of its history, then the current one.\<close>

definition history_seqs :: "index_table \<Rightarrow> 128 word \<Rightarrow> 32 word list" where
  "history_seqs table h =
     map (ir_sequence \<circ> hr_row) (filter (\<lambda>hr. ir_agent_hash (hr_row hr) = arr_bytes h) (it_history table))"

definition all_seqs :: "index_table \<Rightarrow> 128 word \<Rightarrow> 32 word list" where
  "all_seqs table h =
     history_seqs table h @ (case it_rows table (arr_bytes h) of None \<Rightarrow> [] | Some row \<Rightarrow> [ir_sequence row])"

definition index_wf :: "runtime \<Rightarrow> index_table \<Rightarrow> bool" where
  "index_wf rt table \<longleftrightarrow>
     (\<forall>(h :: 128 word) row. it_rows table (arr_bytes h) = Some row \<longrightarrow> ir_agent_hash row = arr_bytes h \<and> row_ok rt row)
     \<and> (\<forall>hr \<in> set (it_history table). row_ok rt (hr_row hr) \<and> hr_id hr < it_next_id table)
     \<and> sorted_wrt (<) (map hr_id (it_history table))
     \<and> (\<forall>h. sorted_wrt (<) (all_seqs table h) \<and> (it_rows table (arr_bytes h) = None \<longrightarrow> history_seqs table h = []))"

definition empty_index :: index_table where
  "empty_index = \<lparr>it_rows = (\<lambda>_. None), it_history = [], it_next_id = 0\<rparr>"

lemma index_wf_empty [simp]: "index_wf rt empty_index"
  by (simp add: index_wf_def empty_index_def all_seqs_def history_seqs_def)

lemma arr_bytes_hash_inj [simp]: "arr_bytes (h :: 128 word) = arr_bytes g \<longleftrightarrow> h = g"
  using arr_round_trips(4) by metis

lemma check_put_Inr:
  "check_put rt agent_id record = Inr h \<longleftrightarrow>
     agent_id_hash rt agent_id = Inr h \<and> p_agent_id_hash (payload_of record) = h
     \<and> validate_payload_bytes (aa_payload record) = None"
  by (auto simp: check_put_def decode_encode_record split: sum.splits option.splits)

lemma decode_encode_valid:
  "decode_record (encode_record a) = Inr a \<longleftrightarrow> validate_payload_bytes (aa_payload a) = None"
  by (auto simp: decode_encode_record split: option.splits)

lemma row_ok_upsert:
  "check_put rt agent_id record = Inr h \<Longrightarrow> row_ok rt (upsert_row now old h agent_id record)"
  by (auto simp: row_ok_def upsert_row_def check_put_Inr decode_encode_valid)

lemma upsert_row_simps [simp, store_simps]:
  "ir_agent_hash (upsert_row now old h agent_id record) = arr_bytes h"
  "ir_sequence (upsert_row now old h agent_id record) = p_sequence (payload_of record)"
  "ir_ttl_seconds (upsert_row now old h agent_id record) = p_ttl_seconds (payload_of record)"
  "ir_record_bytes (upsert_row now old h agent_id record) = encode_record record"
  "ir_agent_id (upsert_row now old h agent_id record) = agent_id"
  by (simp_all add: upsert_row_def)

text \<open>Reading a well-formed row.\<close>

lemma scan_row_ok:
  assumes "row_ok rt row" and "ir_agent_hash row = arr_bytes h"
  obtains a where "scan_indexed_record local row =
      Inr \<lparr>ix_agent_hash = h, ix_agent_id = ir_agent_id row, ix_record = a,
           ix_sequence = p_sequence (payload_of a), ix_ttl_seconds = p_ttl_seconds (payload_of a),
           ix_created_at = read_time local (ir_created_at row),
           ix_updated_at = read_time local (ir_updated_at row)\<rparr>"
    and "ir_record_bytes row = encode_record a" and "p_agent_id_hash (payload_of a) = h"
    and "ir_sequence row = p_sequence (payload_of a)" and "validate_payload_bytes (aa_payload a) = None"
    and "agent_id_hash rt (ir_agent_id row) = Inr h"
  using assms by (auto simp: row_ok_def scan_indexed_record_def decode_encode_valid [symmetric])

lemma get_current_None [simp]:
  "it_rows table (arr_bytes h) = None \<Longrightarrow>
   get_current None local table h = Inl (Sentinel (Index IX_ErrNotFound))"
  by (simp add: get_current_def)

definition written :: "index_env \<Rightarrow> index_table \<Rightarrow> 128 word \<Rightarrow> string \<Rightarrow> agent_addr120 \<Rightarrow> index_table" where
  "written env table h agent_id record =
     upsert_current (ie_now env) (archive_current (ie_now env) table h) h agent_id record"

lemma write_record_cases:
  "write_record env table h agent_id record = (None, written env table h agent_id record)
   \<or> (\<exists>e. write_record env table h agent_id record = (Some e, table))"
  by (simp add: write_record_def written_def split: option.split)

text \<open>What \<open>Put\<close> does to a well-formed table, in three cases.\<close>

lemma get_current_Inl:
  assumes "index_wf rt table" and "get_current fault local table h = Inl e"
  shows "(fault = None \<and> it_rows table (arr_bytes h) = None) \<or> (\<exists>m. e = ErrNew m)"
proof (cases fault)
  case None
  show ?thesis
  proof (cases "it_rows table (arr_bytes h)")
    case (Some row)
    with assms(1) have "row_ok rt row" "ir_agent_hash row = arr_bytes h" by (auto simp: index_wf_def)
    from scan_row_ok [OF this, of local] obtain r where "scan_indexed_record local row = Inr r" by blast
    with Some None assms(2) show ?thesis by (simp add: get_current_def)
  qed (simp add: None)
qed (use assms in \<open>auto simp: get_current_def\<close>)

lemma get_current_Inr:
  assumes "index_wf rt table" and "get_current fault local table h = Inr cur"
  shows "\<exists>row. it_rows table (arr_bytes h) = Some row \<and> ir_sequence row = ix_sequence cur
      \<and> ir_record_bytes row = encode_record (ix_record cur)"
    and "ix_sequence cur = p_sequence (payload_of (ix_record cur))"
    and "p_agent_id_hash (payload_of (ix_record cur)) = h"
proof -
  obtain row where row: "it_rows table (arr_bytes h) = Some row" and scan: "scan_indexed_record local row = Inr cur"
    using assms(2) by (auto simp: get_current_def split: option.splits)
  with assms(1) have "row_ok rt row" "ir_agent_hash row = arr_bytes h" by (auto simp: index_wf_def)
  from scan_row_ok [OF this, of local] obtain a where a: "ix_record cur = a" "ix_sequence cur = p_sequence (payload_of a)"
    "p_agent_id_hash (payload_of a) = h" "ir_record_bytes row = encode_record a" "ir_sequence row = p_sequence (payload_of a)"
    using scan by (metis indexed_record.select_convs(3,4) sum.inject(2))
  with row show "\<exists>row. it_rows table (arr_bytes h) = Some row \<and> ir_sequence row = ix_sequence cur
      \<and> ir_record_bytes row = encode_record (ix_record cur)"
    and "ix_sequence cur = p_sequence (payload_of (ix_record cur))"
    and "p_agent_id_hash (payload_of (ix_record cur)) = h"
    by auto
qed

lemma written_rows:
  "it_rows (written env table h agent_id record) =
     (it_rows table)(arr_bytes h \<mapsto>
        upsert_row (ie_now env) (it_rows table (arr_bytes h)) h agent_id record)"
  by (simp add: written_def upsert_current_def archive_current_def split: option.split)

lemma written_history_seqs:
  assumes "index_wf rt table"
  shows "history_seqs (written env table h agent_id record) g =
     (if g = h then all_seqs table h else history_seqs table g)"
proof (cases "it_rows table (arr_bytes h)")
  case None
  with assms show ?thesis
    by (simp add: written_def upsert_current_def archive_current_def history_seqs_def all_seqs_def)
next
  case (Some row)
  with assms have "ir_agent_hash row = arr_bytes h" by (auto simp: index_wf_def)
  with Some show ?thesis
    by (simp add: written_def upsert_current_def archive_current_def history_seqs_def all_seqs_def)
qed

lemma written_all_seqs:
  assumes "index_wf rt table"
  shows "all_seqs (written env table h agent_id record) g =
     (if g = h then all_seqs table h @ [p_sequence (payload_of record)] else all_seqs table g)"
  by (simp add: all_seqs_def [of "written env table h agent_id record"] written_rows
      written_history_seqs [OF assms]) (simp add: all_seqs_def)

lemma all_seqs_below:
  assumes "index_wf rt table" and "it_rows table (arr_bytes h) = Some row"
    and "ir_sequence row < n" and "m \<in> set (all_seqs table h)"
  shows "m < n"
proof -
  have "sorted_wrt (<) (history_seqs table h @ [ir_sequence row])"
    using assms(1,2) by (auto simp: index_wf_def all_seqs_def dest: spec [of _ h])
  with assms show ?thesis by (auto simp: sorted_wrt_append all_seqs_def)
qed

lemma written_wf:
  assumes wf: "index_wf rt table" and check: "check_put rt agent_id record = Inr h"
    and newer: "\<forall>row. it_rows table (arr_bytes h) = Some row \<longrightarrow> ir_sequence row < p_sequence (payload_of record)"
  shows "index_wf rt (written env table h agent_id record)"
proof -
  let ?t = "written env table h agent_id record"
  have rows: "ir_agent_hash row = arr_bytes g \<and> row_ok rt row"
    if "it_rows ?t (arr_bytes g) = Some row" for g :: "128 word" and row
    using that wf row_ok_upsert [OF check] by (auto simp: written_rows index_wf_def split: if_splits)
  have hist: "row_ok rt (hr_row hr) \<and> hr_id hr < it_next_id ?t" if "hr \<in> set (it_history ?t)" for hr
    using that wf
    by (auto simp: index_wf_def written_def upsert_current_def archive_current_def less_Suc_eq split: option.splits)
  have ids: "sorted_wrt (<) (map hr_id (it_history ?t))"
    using wf
    by (auto simp: index_wf_def written_def upsert_current_def archive_current_def sorted_wrt_append split: option.splits)
  have seqs: "sorted_wrt (<) (all_seqs ?t g)" for g
  proof (cases "g = h")
    case True
    have "\<forall>m \<in> set (all_seqs table h). m < p_sequence (payload_of record)"
    proof (cases "it_rows table (arr_bytes h)")
      case None
      then have "all_seqs table h = []" using wf by (simp add: index_wf_def all_seqs_def)
      then show ?thesis by simp
    qed (use all_seqs_below [OF wf] newer in blast)
    moreover have "sorted_wrt (<) (all_seqs table h)" using wf by (simp add: index_wf_def)
    ultimately show ?thesis using True by (simp add: written_all_seqs [OF wf] sorted_wrt_append)
  next
    case False
    with wf show ?thesis by (simp add: written_all_seqs [OF wf] index_wf_def)
  qed
  have none: "history_seqs ?t g = []" if "it_rows ?t (arr_bytes g) = None" for g
    using that wf by (auto simp: written_rows written_history_seqs [OF wf] index_wf_def split: if_splits)
  show ?thesis
    unfolding index_wf_def using rows hist ids seqs none by blast
qed

text \<open>What \<open>Put\<close> does to a well-formed table, in three cases: an error changes nothing, the
  record already current is accepted, a newer one is written.\<close>

lemma index_put_cases:
  assumes wf: "index_wf rt table"
  shows "(\<exists>e. index_put rt env table agent_id record = (Some e, table))
    \<or> (index_put rt env table agent_id record = (None, table)
        \<and> (\<exists>row. it_rows table (arr_bytes (p_agent_id_hash (payload_of record))) = Some row
             \<and> ir_record_bytes row = encode_record record))
    \<or> (let h = p_agent_id_hash (payload_of record) in
       index_put rt env table agent_id record = (None, written env table h agent_id record)
       \<and> check_put rt agent_id record = Inr h
       \<and> (\<forall>row. it_rows table (arr_bytes h) = Some row \<longrightarrow> ir_sequence row < p_sequence (payload_of record)))"
proof (cases "check_put rt agent_id record")
  case (Inl e)
  then show ?thesis by (simp add: index_put_def)
next
  case (Inr h)
  then have h: "h = p_agent_id_hash (payload_of record)" by (simp add: check_put_Inr)
  show ?thesis
  proof (cases "ie_fault env StageIndexBegin")
    case (Some e)
    with Inr show ?thesis by (simp add: index_put_def)
  next
    case start: None
    show ?thesis
    proof (cases "get_current (ie_fault env StageCurrent) (\<lambda>_. 0) table h")
      case cur: (Inl e)
      show ?thesis
        using get_current_Inl [OF wf cur] write_record_cases [of env table h agent_id "record"] Inr h start cur
        by (auto simp: index_put_def Let_def)
    next
      case cur: (Inr current)
      note c = get_current_Inr [OF wf cur]
      show ?thesis
      proof (cases "decide_put (Some current) record")
        case PutWrite
        then have "ix_sequence current < p_sequence (payload_of record)"
          by (auto simp: decide_put_def split: if_splits)
        with c(1) PutWrite show ?thesis
          using write_record_cases [of env table h agent_id "record"] Inr h start cur
          by (auto simp: index_put_def Let_def)
      next
        case PutSame
        then have "encode_record record = encode_record (ix_record current)"
          by (auto simp: decide_put_def split: if_splits)
        with c(1) PutSame show ?thesis
          using Inr h start cur by (cases "ie_fault env StageIndexCommit") (auto simp: index_put_def)
      qed (use Inr start cur in \<open>auto simp: index_put_def\<close>)
    qed
  qed
qed

subsection \<open>Reading back\<close>

lemma index_get_wf:
  assumes "index_wf rt table" and "it_rows table (arr_bytes h) = Some row"
  shows "\<exists>a. index_get None local table h =
      Inr \<lparr>ix_agent_hash = h, ix_agent_id = ir_agent_id row, ix_record = a,
           ix_sequence = p_sequence (payload_of a), ix_ttl_seconds = p_ttl_seconds (payload_of a),
           ix_created_at = read_time local (ir_created_at row),
           ix_updated_at = read_time local (ir_updated_at row)\<rparr>
    \<and> ir_record_bytes row = encode_record a \<and> p_agent_id_hash (payload_of a) = h
    \<and> ir_sequence row = p_sequence (payload_of a) \<and> validate_payload_bytes (aa_payload a) = None
    \<and> agent_id_hash rt (ir_agent_id row) = Inr h"
proof -
  from assms have ok: "row_ok rt row" "ir_agent_hash row = arr_bytes h" by (auto simp: index_wf_def)
  show ?thesis
    by (rule scan_row_ok [OF ok, of local]) (simp add: index_get_def assms(2))
qed

lemma index_get_absent:
  "it_rows table (arr_bytes h) = None \<Longrightarrow>
   index_get None local table h = Inl (Sentinel (Index IX_ErrNotFound))"
  by (simp add: index_get_def)

lemma index_get_InrD:
  assumes "index_wf rt table" and "index_get None local table h = Inr ir"
  shows "\<exists>row. it_rows table (arr_bytes h) = Some row \<and> ir_sequence row = ix_sequence ir
       \<and> ir_record_bytes row = encode_record (ix_record ir)"
    and "ix_sequence ir = p_sequence (payload_of (ix_record ir))"
    and "ix_ttl_seconds ir = p_ttl_seconds (payload_of (ix_record ir))"
    and "p_agent_id_hash (payload_of (ix_record ir)) = h" and "ix_agent_hash ir = h"
    and "validate_payload_bytes (aa_payload (ix_record ir)) = None"
    and "agent_id_hash rt (ix_agent_id ir) = Inr h"
proof -
  obtain row where row: "it_rows table (arr_bytes h) = Some row"
    using assms(2) by (cases "it_rows table (arr_bytes h)") (auto simp: index_get_def)
  from index_get_wf [OF assms(1) row, of local] obtain a where
    ir: "ir = \<lparr>ix_agent_hash = h, ix_agent_id = ir_agent_id row, ix_record = a,
           ix_sequence = p_sequence (payload_of a), ix_ttl_seconds = p_ttl_seconds (payload_of a),
           ix_created_at = read_time local (ir_created_at row),
           ix_updated_at = read_time local (ir_updated_at row)\<rparr>"
    and a: "ir_record_bytes row = encode_record a" "p_agent_id_hash (payload_of a) = h"
      "ir_sequence row = p_sequence (payload_of a)" "validate_payload_bytes (aa_payload a) = None"
      "agent_id_hash rt (ir_agent_id row) = Inr h"
    using assms(2) by force
  show "\<exists>row. it_rows table (arr_bytes h) = Some row \<and> ir_sequence row = ix_sequence ir
       \<and> ir_record_bytes row = encode_record (ix_record ir)"
    using row a ir by auto
  show "ix_sequence ir = p_sequence (payload_of (ix_record ir))"
    "ix_ttl_seconds ir = p_ttl_seconds (payload_of (ix_record ir))"
    "p_agent_id_hash (payload_of (ix_record ir)) = h" "ix_agent_hash ir = h"
    "validate_payload_bytes (aa_payload (ix_record ir)) = None"
    "agent_id_hash rt (ix_agent_id ir) = Inr h"
    using a ir by simp_all
qed

lemma index_put_wf:
  assumes "index_wf rt table"
  shows "index_wf rt (snd (index_put rt env table agent_id record))"
  using index_put_cases [OF assms, of env agent_id "record"] written_wf [OF assms] assms
  by (auto simp: Let_def)

lemma index_put_error: "fst (index_put rt env table agent_id record) = Some e \<Longrightarrow>
   index_wf rt table \<Longrightarrow> snd (index_put rt env table agent_id record) = table"
  using index_put_cases [of rt table env agent_id "record"] by (auto simp: Let_def)

lemma index_put_row:
  assumes "index_wf rt table" and "fst (index_put rt env table agent_id record) = None"
  shows "\<exists>row. it_rows (snd (index_put rt env table agent_id record))
                 (arr_bytes (p_agent_id_hash (payload_of record))) = Some row
           \<and> ir_record_bytes row = encode_record record"
  using index_put_cases [OF assms(1), of env agent_id "record"] assms(2)
  by (auto simp: Let_def written_rows)

lemma index_put_other_row:
  assumes "index_wf rt table" and "g \<noteq> p_agent_id_hash (payload_of record)"
  shows "it_rows (snd (index_put rt env table agent_id record)) (arr_bytes g) = it_rows table (arr_bytes g)"
  using index_put_cases [OF assms(1), of env agent_id "record"] assms(2)
  by (auto simp: Let_def written_rows)

lemma encode_record_eq [simp]: "encode_record a = encode_record b \<longleftrightarrow> a = b"
  using encode_record_inj by blast

lemma index_put_newer:
  assumes "index_wf rt table" and "fst (index_put rt env table agent_id record) = None"
    and "it_rows table (arr_bytes (p_agent_id_hash (payload_of record))) = Some row"
  shows "ir_sequence row \<le> p_sequence (payload_of record)"
proof -
  from assms have ok: "row_ok rt row" by (auto simp: index_wf_def)
  then have same: "ir_sequence row = p_sequence (payload_of record)" if "ir_record_bytes row = encode_record record"
    using that by (auto simp: row_ok_def)
  from index_put_cases [OF assms(1), of env agent_id "record"] assms(2,3) show ?thesis
    by (auto simp: Let_def same order.strict_implies_order)
qed

subsection \<open>The contract\<close>

text \<open>The store as a map from agent hashes to records: a record replaces an older one only.\<close>

type_synonym record_map = "128 word \<Rightarrow> agent_addr120 option"

definition spec_put :: "record_map \<Rightarrow> agent_addr120 \<Rightarrow> index_err option \<times> record_map" where
  "spec_put m record =
     (let h = p_agent_id_hash (payload_of record) in
      case m h of
        None \<Rightarrow> (None, m(h \<mapsto> record))
      | Some cur \<Rightarrow>
          if p_sequence (payload_of record) < p_sequence (payload_of cur) then (Some IX_ErrStaleSequence, m)
          else if p_sequence (payload_of cur) < p_sequence (payload_of record) then (None, m(h \<mapsto> record))
          else if record = cur then (None, m) else (Some IX_ErrSequenceConflict, m))"

definition abs_index :: "index_table \<Rightarrow> record_map" where
  "abs_index table h =
     (case index_get None (\<lambda>_. 0) table h of Inl _ \<Rightarrow> None | Inr ir \<Rightarrow> Some (ix_record ir))"

definition index_ready :: "index_env \<Rightarrow> bool" where
  "index_ready env \<longleftrightarrow> (\<forall>stage. ie_fault env stage = None)"

lemma abs_index_iff:
  assumes "index_wf rt table"
  shows "abs_index table h = Some a \<longleftrightarrow>
     (\<exists>row. it_rows table (arr_bytes h) = Some row \<and> ir_record_bytes row = encode_record a)"
proof (cases "it_rows table (arr_bytes h)")
  case None
  then show ?thesis by (simp add: abs_index_def index_get_absent)
next
  case (Some row)
  from index_get_wf [OF assms Some, of "\<lambda>_. 0"] obtain b where
    "index_get None (\<lambda>_. 0) table h =
      Inr \<lparr>ix_agent_hash = h, ix_agent_id = ir_agent_id row, ix_record = b,
           ix_sequence = p_sequence (payload_of b), ix_ttl_seconds = p_ttl_seconds (payload_of b),
           ix_created_at = read_time (\<lambda>_. 0) (ir_created_at row),
           ix_updated_at = read_time (\<lambda>_. 0) (ir_updated_at row)\<rparr>"
    and "ir_record_bytes row = encode_record b"
    by blast
  with Some show ?thesis by (auto simp: abs_index_def)
qed

lemma abs_index_None:
  assumes "index_wf rt table"
  shows "abs_index table h = None \<longleftrightarrow> it_rows table (arr_bytes h) = None"
proof (cases "it_rows table (arr_bytes h)")
  case None
  then show ?thesis by (simp add: abs_index_def index_get_absent)
next
  case (Some row)
  with assms have "row_ok rt row" by (auto simp: index_wf_def)
  then obtain a where "ir_record_bytes row = encode_record a" by (auto simp: row_ok_def)
  with Some have "abs_index table h = Some a" using abs_index_iff [OF assms] by blast
  with Some show ?thesis by simp
qed

lemma abs_index_written:
  assumes wf: "index_wf rt table" and check: "check_put rt agent_id record = Inr h"
    and newer: "\<forall>row. it_rows table (arr_bytes h) = Some row \<longrightarrow> ir_sequence row < p_sequence (payload_of record)"
  shows "abs_index (written env table h agent_id record) = (abs_index table)(h \<mapsto> record)"
proof
  fix g
  note wf' = written_wf [OF wf check newer, of env]
  show "abs_index (written env table h agent_id record) g = ((abs_index table)(h \<mapsto> record)) g"
  proof (cases "g = h")
    case True
    then show ?thesis using abs_index_iff [OF wf', of h "record"] by (simp add: written_rows)
  next
    case False
    then have row: "it_rows (written env table h agent_id record) (arr_bytes g) = it_rows table (arr_bytes g)"
      by (simp add: written_rows)
    show ?thesis
    proof (cases "abs_index table g")
      case None
      then have "abs_index (written env table h agent_id record) g = None"
        using row abs_index_None [OF wf, of g] abs_index_None [OF wf', of g] by simp
      with None False show ?thesis by simp
    next
      case (Some a)
      then show ?thesis using False row abs_index_iff [OF wf, of g a] abs_index_iff [OF wf', of g a] by simp
    qed
  qed
qed

lemma get_current_row:
  assumes "index_wf rt table" and "it_rows table (arr_bytes h) = Some row"
  shows "\<exists>cur. get_current None local table h = Inr cur"
proof -
  from assms have ok: "row_ok rt row" "ir_agent_hash row = arr_bytes h" by (auto simp: index_wf_def)
  show ?thesis by (rule scan_row_ok [OF ok, of local]) (simp add: get_current_def assms(2))
qed

lemma get_current_abs:
  assumes "index_wf rt table"
  shows "case abs_index table h of
      None \<Rightarrow> get_current None local table h = Inl (Sentinel (Index IX_ErrNotFound))
    | Some a \<Rightarrow> (\<exists>cur. get_current None local table h = Inr cur \<and> ix_record cur = a
                   \<and> ix_sequence cur = p_sequence (payload_of a))"
proof (cases "abs_index table h")
  case None
  then have "it_rows table (arr_bytes h) = None" using abs_index_None [OF assms, of h] by simp
  with None show ?thesis by simp
next
  case (Some a)
  then obtain row where row: "it_rows table (arr_bytes h) = Some row" "ir_record_bytes row = encode_record a"
    using abs_index_iff [OF assms] by blast
  obtain cur where cur: "get_current None local table h = Inr cur"
    using get_current_row [OF assms row(1)] by blast
  from get_current_Inr [OF assms cur] row Some cur show ?thesis by auto
qed

lemma index_put_refines_spec:
  assumes wf: "index_wf rt table" and ready: "index_ready env"
    and check: "check_put rt agent_id record = Inr h"
  shows "fst (index_put rt env table agent_id record)
           = map_option (\<lambda>e. Sentinel (Index e)) (fst (spec_put (abs_index table) record))
      \<and> abs_index (snd (index_put rt env table agent_id record)) = snd (spec_put (abs_index table) record)"
proof -
  have h: "p_agent_id_hash (payload_of record) = h" using check by (simp add: check_put_Inr)
  have wrote: "write_record env table h agent_id record = (None, written env table h agent_id record)"
    using ready by (simp add: write_record_def written_def index_ready_def)
  show ?thesis
  proof (cases "abs_index table h")
    case None
    then have "it_rows table (arr_bytes h) = None" using abs_index_None [OF wf] by simp
    with None wrote check ready h show ?thesis
      by (simp add: index_put_def index_ready_def spec_put_def Let_def abs_index_written [OF wf check])
  next
    case (Some a)
    with get_current_abs [OF wf, of "\<lambda>_. 0" h] obtain cur where
      cur: "get_current None (\<lambda>_. 0) table h = Inr cur" "ix_record cur = a"
        "ix_sequence cur = p_sequence (payload_of a)" by auto
    obtain row where row: "it_rows table (arr_bytes h) = Some row" "ir_sequence row = ix_sequence cur"
      using get_current_Inr(1) [OF wf cur(1)] by blast
    show ?thesis
      using Some cur row wrote check ready h
      by (auto simp: index_put_def index_ready_def spec_put_def Let_def decide_put_def
          abs_index_written [OF wf check])
  qed
qed

subsection \<open>History\<close>

definition archived_in_order :: "index_table \<Rightarrow> bool" where
  "archived_in_order table \<longleftrightarrow> sorted (map hr_archived_at (it_history table))"

lemma sorted_filter_map: "sorted (map f xs) \<Longrightarrow> sorted (map f (filter P xs))"
  by (rule sorted_filter)

lemma history_of_in_order:
  assumes "index_wf rt table" and "archived_in_order table"
  shows "history_of table h = filter (\<lambda>hr. ir_agent_hash (hr_row hr) = arr_bytes h) (it_history table)"
proof -
  let ?fs = "filter (\<lambda>hr. ir_agent_hash (hr_row hr) = arr_bytes h) (it_history table)"
  have "sorted_wrt (<) (map hr_id (it_history table))" using assms(1) by (simp add: index_wf_def)
  then have "sorted (map hr_id (it_history table))"
    using sorted_wrt_mono_rel [of "map hr_id (it_history table)" "(<)" "(\<le>)"] by auto
  then have "sort_key hr_id ?fs = ?fs"
    by (intro sort_key_id_if_sorted sorted_filter_map)
  moreover have "sort_key hr_archived_at ?fs = ?fs"
    using assms(2) unfolding archived_in_order_def by (intro sort_key_id_if_sorted sorted_filter_map)
  ultimately show ?thesis by (simp add: history_of_def)
qed

lemma scan_history_ok:
  assumes "\<forall>hr \<in> set hrs. row_ok rt (hr_row hr)"
  shows "\<exists>rs. scan_history local hrs = Inr rs \<and> map ix_sequence rs = map (ir_sequence \<circ> hr_row) hrs"
  using assms
proof (induction hrs)
  case (Cons hr hrs)
  then have ok: "row_ok rt (hr_row hr)" by simp
  then obtain h where h: "ir_agent_hash (hr_row hr) = arr_bytes (h :: 128 word)" by (auto simp: row_ok_def)
  obtain r where r: "scan_indexed_record local (hr_row hr) = Inr r" "ix_sequence r = ir_sequence (hr_row hr)"
    by (rule scan_row_ok [OF ok h, of local]) simp
  from Cons obtain rs where "scan_history local hrs = Inr rs" "map ix_sequence rs = map (ir_sequence \<circ> hr_row) hrs"
    by auto
  with r show ?case by simp
qed simp

lemma index_history_seqs:
  assumes "index_wf rt table" and "archived_in_order table"
  shows "\<exists>rs. index_history None local table h = Inr rs \<and> map ix_sequence rs = history_seqs table h"
proof -
  have "\<forall>hr \<in> set (history_of table h). row_ok rt (hr_row hr)"
    using assms(1) unfolding history_of_in_order [OF assms] index_wf_def by simp
  from scan_history_ok [OF this, of local] show ?thesis
    by (simp add: index_history_def history_seqs_def history_of_in_order [OF assms])
qed

lemma archived_in_order_put:
  assumes "index_wf rt table" and "archived_in_order table"
    and "\<forall>hr \<in> set (it_history table). hr_archived_at hr \<le> instant (ie_now env)"
  shows "archived_in_order (snd (index_put rt env table agent_id record))"
  using index_put_cases [OF assms(1), of env agent_id "record"] assms(2,3)
  by (auto simp: Let_def archived_in_order_def written_def upsert_current_def archive_current_def
      sorted_append split: option.splits)

subsection \<open>The interface\<close>

locale index_store =
  fixes put :: "'x \<Rightarrow> 's \<Rightarrow> string \<Rightarrow> agent_addr120 \<Rightarrow> goerr option \<times> 's"
    and get :: "'s \<Rightarrow> 128 word \<Rightarrow> goerr + indexed_record"
    and invar :: "'s \<Rightarrow> bool"
  assumes put_invar: "invar s \<Longrightarrow> invar (snd (put x s a r))"
    and put_failed: "invar s \<Longrightarrow> fst (put x s a r) \<noteq> None \<Longrightarrow> snd (put x s a r) = s"
    and get_put: "invar s \<Longrightarrow> fst (put x s a r) = None \<Longrightarrow>
      \<exists>ir. get (snd (put x s a r)) (p_agent_id_hash (payload_of r)) = Inr ir \<and> ix_record ir = r"
    and get_put_other: "invar s \<Longrightarrow> h \<noteq> p_agent_id_hash (payload_of r) \<Longrightarrow>
      get (snd (put x s a r)) h = get s h"
    and put_newer: "invar s \<Longrightarrow> fst (put x s a r) = None \<Longrightarrow>
      get s (p_agent_id_hash (payload_of r)) = Inr old \<Longrightarrow>
      p_sequence (payload_of (ix_record old)) < p_sequence (payload_of r) \<or> ix_record old = r"
    and get_consistent: "invar s \<Longrightarrow> get s h = Inr ir \<Longrightarrow>
      p_agent_id_hash (payload_of (ix_record ir)) = h
      \<and> ix_sequence ir = p_sequence (payload_of (ix_record ir))
      \<and> ix_ttl_seconds ir = p_ttl_seconds (payload_of (ix_record ir))"
begin

definition run_index :: "'s \<Rightarrow> ('x \<times> string \<times> agent_addr120) list \<Rightarrow> 's" where
  "run_index s ops = foldl (\<lambda>s (x, a, r). snd (put x s a r)) s ops"

lemma step_newer:
  assumes "invar s" and "get s h = Inr old"
  shows "\<exists>new. get (snd (put x s a r)) h = Inr new
    \<and> (ix_sequence old < ix_sequence new \<or> ix_record new = ix_record old)"
proof (cases "fst (put x s a r) = None \<and> h = p_agent_id_hash (payload_of r)")
  case True
  with get_put assms(1) obtain new where new: "get (snd (put x s a r)) h = Inr new" "ix_record new = r" by blast
  moreover have "ix_sequence new = p_sequence (payload_of r)" "ix_sequence old = p_sequence (payload_of (ix_record old))"
    using get_consistent [OF put_invar [OF assms(1)] new(1)] get_consistent [OF assms] new(2) by auto
  moreover have "p_sequence (payload_of (ix_record old)) < p_sequence (payload_of r) \<or> ix_record old = r"
    using put_newer [OF assms(1), of x a r old] True assms(2) by simp
  ultimately show ?thesis by auto
next
  case False
  then have "get (snd (put x s a r)) h = get s h"
    using put_failed [OF assms(1)] get_put_other [OF assms(1)] by metis
  with assms(2) show ?thesis by auto
qed

lemma run_invar: "invar s \<Longrightarrow> invar (run_index s ops)"
  by (induction ops arbitrary: s) (auto simp: run_index_def put_invar)

text \<open>Along every run the record of an agent is kept or replaced by one with a higher sequence.\<close>

lemma run_newer:
  assumes "invar s" and "get s h = Inr old"
  shows "\<exists>new. get (run_index s ops) h = Inr new
    \<and> (ix_sequence old < ix_sequence new \<or> ix_record new = ix_record old)"
  using assms
proof (induction ops arbitrary: s old)
  case Nil
  then show ?case by (simp add: run_index_def)
next
  case (Cons op ops)
  obtain x a r where op: "op = (x, a, r)" by (cases op) auto
  have run: "run_index s (op # ops) = run_index (snd (put x s a r)) ops"
    by (simp add: run_index_def op)
  obtain mid where mid: "get (snd (put x s a r)) h = Inr mid"
    "ix_sequence old < ix_sequence mid \<or> ix_record mid = ix_record old"
    using step_newer [OF Cons.prems] by blast
  note inv = put_invar [OF Cons.prems(1), of x a r]
  obtain new where new: "get (run_index (snd (put x s a r)) ops) h = Inr new"
    "ix_sequence mid < ix_sequence new \<or> ix_record new = ix_record mid"
    using Cons.IH [OF inv mid(1)] by blast
  have "ix_sequence mid = ix_sequence old" if "ix_record mid = ix_record old"
    using get_consistent [OF inv mid(1)] get_consistent [OF Cons.prems] that by simp
  moreover have "ix_sequence new = ix_sequence mid" if "ix_record new = ix_record mid"
    using get_consistent [OF inv mid(1)] get_consistent [OF run_invar [OF inv] new(1)] that by simp
  ultimately show ?case using mid(2) new unfolding run by (auto intro: less_trans)
qed

end

interpretation pg_index: index_store "index_put rt" "index_get None local" "index_wf rt"
proof unfold_locales
  fix s x a r
  assume wf: "index_wf rt s"
  show "index_wf rt (snd (index_put rt x s a r))" by (rule index_put_wf [OF wf])
  show "fst (index_put rt x s a r) \<noteq> None \<Longrightarrow> snd (index_put rt x s a r) = s"
    using index_put_error wf by blast
  show "\<exists>ir. index_get None local (snd (index_put rt x s a r)) (p_agent_id_hash (payload_of r)) = Inr ir \<and> ix_record ir = r"
    if ok: "fst (index_put rt x s a r) = None"
    using index_put_row [OF wf ok] index_get_wf [OF index_put_wf [OF wf], of x a r _ _ local] by force
  show "index_get None local (snd (index_put rt x s a r)) h = index_get None local s h"
    if "h \<noteq> p_agent_id_hash (payload_of r)" for h
    using index_put_other_row [OF wf that, of x a] by (simp add: index_get_def)
  show "p_sequence (payload_of (ix_record old)) < p_sequence (payload_of r) \<or> ix_record old = r"
    if ok: "fst (index_put rt x s a r) = None"
      and get: "index_get None local s (p_agent_id_hash (payload_of r)) = Inr old" for old
  proof -
    note g = index_get_InrD [OF wf get]
    from g(1) obtain row where "it_rows s (arr_bytes (p_agent_id_hash (payload_of r))) = Some row"
      "ir_sequence row = ix_sequence old" "ir_record_bytes row = encode_record (ix_record old)" by blast
    with index_put_cases [OF wf, of x a r] ok g(2) show ?thesis by (auto simp: Let_def)
  qed
  show "p_agent_id_hash (payload_of (ix_record ir)) = h
      \<and> ix_sequence ir = p_sequence (payload_of (ix_record ir))
      \<and> ix_ttl_seconds ir = p_ttl_seconds (payload_of (ix_record ir))"
    if "index_get None local s h = Inr ir" for h ir
    using index_get_InrD [OF wf that] by blast
qed

end
