(* ===== verification/Audit_Log.thy ===== *)
theory Audit_Log
  imports Wire_Types
begin

text \<open>
  \<open>internal/audit\<close>: the hash-chained audit log. The first part is \<open>audit.go\<close> (events, query
  normalisation, canonical JSON, the event hash and \<open>VerifyEvents\<close>), the second the memory store
  (\<open>memory.go\<close>), a list of events. The lemmas show that appending keeps the chain valid and that
  a valid chain is fixed by its last hash up to a SHA-256 collision.
\<close>

subsection \<open>Events and queries\<close>

definition event_agent_registered :: string where
  "event_agent_registered = ''agent.registered''"

definition event_resolve_allowed :: string where
  "event_resolve_allowed = ''resolve.allowed''"

definition event_resolve_denied :: string where
  "event_resolve_denied = ''resolve.denied''"

definition event_trust_denied :: string where
  "event_trust_denied = ''trust.denied''"

definition event_revocation_updated :: string where
  "event_revocation_updated = ''credential.revocation.updated''"

definition decision_allowed :: string where
  "decision_allowed = ''allowed''"

definition decision_denied :: string where
  "decision_denied = ''denied''"

definition default_list_limit :: int where
  "default_list_limit = 100"

definition max_list_limit :: int where
  "max_list_limit = 500"

record audit_event =
  ev_id :: string
  ev_type :: string
  ev_agent_id :: string
  ev_agent_hash :: string
  ev_actor_hash :: string
  ev_decision :: string
  ev_reason :: string
  ev_json :: bytes
  ev_previous_hash :: string
  ev_hash :: string
  ev_created_at :: gotime

text \<open>\<open>EventJSON\<close> of an input may be nil.\<close>

record event_input =
  in_type :: string
  in_agent_id :: string
  in_agent_hash :: string
  in_actor_hash :: string
  in_decision :: string
  in_reason :: string
  in_json :: "bytes option"

record audit_query =
  q_agent_id :: string
  q_event_type :: string
  q_decision :: string
  q_limit :: int
  q_offset :: int

text \<open>\<open>Items\<close> may be the nil slice, which JSON prints as \<open>null\<close>.\<close>

record list_result =
  lr_items :: "audit_event list"
  lr_items_nil :: bool
  lr_limit :: int
  lr_offset :: int
  lr_count :: int

definition supported_event_type :: "string \<Rightarrow> bool" where
  "supported_event_type t \<longleftrightarrow>
     t = event_agent_registered \<or> t = event_resolve_allowed \<or> t = event_resolve_denied
     \<or> t = event_trust_denied \<or> t = event_revocation_updated"

definition supported_decision :: "string \<Rightarrow> bool" where
  "supported_decision d \<longleftrightarrow> d = decision_allowed \<or> d = decision_denied"

definition query_error :: "string \<Rightarrow> goerr" where
  "query_error m = sentinel_err (Audit AU_ErrInvalidQuery) m"

definition normalize_query :: "runtime \<Rightarrow> audit_query \<Rightarrow> goerr + audit_query" where
  "normalize_query rt query =
     (let q = (if q_limit query = 0 then query\<lparr>q_limit := default_list_limit\<rparr> else query) in
      if q_limit q < 0 then Inl (query_error ''limit must be positive'')
      else if q_limit q > max_list_limit
      then Inl (query_error (''limit must be at most '' @ itoa max_list_limit))
      else if q_offset q < 0 then Inl (query_error ''offset must be non-negative'')
      else if q_event_type q \<noteq> [] \<and> \<not> supported_event_type (q_event_type q)
      then Inl (query_error (''unsupported event type '' @ quote_text (rt_printable rt) (q_event_type q)))
      else if q_decision q \<noteq> [] \<and> \<not> supported_decision (q_decision q)
      then Inl (query_error (''unsupported decision '' @ quote_text (rt_printable rt) (q_decision q)))
      else Inr q)"

subsection \<open>Canonical JSON and the event hash\<close>

definition input_error :: "string \<Rightarrow> goerr" where
  "input_error m = sentinel_err (Audit AU_ErrInvalidEventInput) m"

text \<open>A value decoded into an \<open>any\<close> holds its objects as maps, which are printed by key.\<close>

fun sort_keys :: "json \<Rightarrow> json" where
  "sort_keys (JArr xs) = JArr (map sort_keys xs)"
| "sort_keys (JObj kvs) = json_map (map (\<lambda>kv. (fst kv, sort_keys (snd kv))) kvs)"
| "sort_keys j = j"

definition canonical_json :: "runtime \<Rightarrow> bytes \<Rightarrow> goerr + bytes" where
  "canonical_json rt data =
     (if data = [] then Inr ''{}''
      else case json_decode data of
        DecodeEOF \<Rightarrow> Inl (input_error ''eventJSON must be valid JSON: EOF'')
      | DecodeError \<Rightarrow> Inl (input_error (''eventJSON must be valid JSON: '' @ rt_json_error rt ''any'' data))
      | DecodeValue decoded rest \<Rightarrow>
          (case json_decode rest of
             DecodeValue _ _ \<Rightarrow> Inl (input_error ''eventJSON must contain one JSON value'')
           | DecodeError \<Rightarrow> Inl (input_error (''eventJSON must be valid JSON: '' @ rt_json_error rt ''any'' rest))
           | DecodeEOF \<Rightarrow> Inr (marshal (sort_keys decoded))))"

definition audit_payload :: "runtime \<Rightarrow> json \<Rightarrow> goerr + bytes" where
  "audit_payload rt data = canonical_json rt (marshal data)"

definition validate_input :: "runtime \<Rightarrow> event_input \<Rightarrow> goerr option" where
  "validate_input rt input =
     (if \<not> supported_event_type (in_type input)
      then Some (input_error (''unsupported event type '' @ quote_text (rt_printable rt) (in_type input)))
      else if \<not> supported_decision (in_decision input)
      then Some (input_error (''unsupported decision '' @ quote_text (rt_printable rt) (in_decision input)))
      else case in_json input of
        Some doc \<Rightarrow> if json_valid doc then None else Some (input_error ''eventJSON must be valid JSON'')
      | None \<Rightarrow> None)"

definition canonical_payload :: "runtime \<Rightarrow> audit_event \<Rightarrow> goerr + bytes" where
  "canonical_payload rt e =
     (case canonical_json rt (ev_json e) of
        Inl err \<Rightarrow> Inl err
      | Inr event_json \<Rightarrow>
          (case times_marshal_error [time_utc (ev_created_at e)] of
             Some m \<Rightarrow> Inl (ErrNew m)
           | None \<Rightarrow>
               Inr (marshal (JObj
                 ([(''eventId'', JStr (ev_id e)), (''eventType'', JStr (ev_type e))]
                  @ omit_empty ''agentId'' (ev_agent_id e)
                  @ omit_empty ''agentHash'' (ev_agent_hash e)
                  @ omit_empty ''actorHash'' (ev_actor_hash e)
                  @ [(''decision'', JStr (ev_decision e))]
                  @ omit_empty ''reason'' (ev_reason e)
                  @ [(''eventJSON'', JRaw event_json),
                     (''createdAt'', json_time (time_utc (ev_created_at e)))])))))"

definition hash_event :: "runtime \<Rightarrow> string \<Rightarrow> audit_event \<Rightarrow> goerr + string" where
  "hash_event rt previous_hash e =
     (case canonical_payload rt e of
        Inl err \<Rightarrow> Inl err
      | Inr payload \<Rightarrow> Inr (hex_encode (sum256 (previous_hash @ payload))))"

text \<open>The 16 random bytes of an event id, or the error of \<open>rand.Read\<close>.\<close>

definition new_event_id :: "os_error + 128 word \<Rightarrow> goerr + string" where
  "new_event_id random =
     (case random of
        Inl e \<Rightarrow> Inl (wrap_err ''generate audit event id'' (ErrNew e))
      | Inr bs \<Rightarrow> Inr (hex_encode (arr_bytes bs)))"

definition new_event ::
  "runtime \<Rightarrow> os_error + 128 word \<Rightarrow> string \<Rightarrow> event_input \<Rightarrow> gotime \<Rightarrow> goerr + audit_event" where
  "new_event rt random previous_hash input created_at =
     (case validate_input rt input of
        Some e \<Rightarrow> Inl e
      | None \<Rightarrow>
        (case canonical_json rt (case in_json input of None \<Rightarrow> [] | Some doc \<Rightarrow> doc) of
           Inl e \<Rightarrow> Inl e
         | Inr event_json \<Rightarrow>
           (case new_event_id random of
              Inl e \<Rightarrow> Inl e
            | Inr event_id \<Rightarrow>
                let event =
                  \<lparr>ev_id = event_id, ev_type = in_type input, ev_agent_id = in_agent_id input,
                   ev_agent_hash = in_agent_hash input, ev_actor_hash = in_actor_hash input,
                   ev_decision = in_decision input, ev_reason = in_reason input,
                   ev_json = event_json, ev_previous_hash = previous_hash, ev_hash = [],
                   ev_created_at = time_utc created_at\<rparr>
                in (case hash_event rt previous_hash event of
                      Inl e \<Rightarrow> Inl e
                    | Inr h \<Rightarrow> Inr (event\<lparr>ev_hash := h\<rparr>)))))"

fun verify_from :: "runtime \<Rightarrow> nat \<Rightarrow> string \<Rightarrow> audit_event list \<Rightarrow> goerr option" where
  "verify_from rt i previous_hash [] = None"
| "verify_from rt i previous_hash (e # es) =
     (if ev_previous_hash e \<noteq> previous_hash
      then Some (sentinel_err (Audit AU_ErrHashChainInvalid)
                  (''event '' @ digits_of i @ '' previous hash mismatch''))
      else case hash_event rt previous_hash e of
        Inl err \<Rightarrow> Some err
      | Inr got_hash \<Rightarrow>
          if ev_hash e \<noteq> got_hash
          then Some (sentinel_err (Audit AU_ErrHashChainInvalid)
                      (''event '' @ digits_of i @ '' hash mismatch''))
          else verify_from rt (Suc i) (ev_hash e) es)"

definition verify_events :: "runtime \<Rightarrow> audit_event list \<Rightarrow> goerr option" where
  "verify_events rt events = verify_from rt 0 [] events"

definition last_hash :: "audit_event list \<Rightarrow> string" where
  "last_hash events = (if events = [] then [] else ev_hash (last events))"

subsection \<open>The memory store\<close>

definition memory_append ::
  "runtime \<Rightarrow> os_error + 128 word \<Rightarrow> gotime \<Rightarrow> audit_event list \<Rightarrow> event_input
     \<Rightarrow> (goerr + audit_event) \<times> audit_event list" where
  "memory_append rt random now events input =
     (let previous_hash = (if 0 < length events then ev_hash (events ! (length events - 1)) else []) in
      case new_event rt random previous_hash input now of
        Inl e \<Rightarrow> (Inl e, events)
      | Inr event \<Rightarrow> (Inr event, events @ [event]))"

definition memory_list_by_agent :: "audit_event list \<Rightarrow> string \<Rightarrow> audit_event list" where
  "memory_list_by_agent events agent_id = filter (\<lambda>e. ev_agent_id e = agent_id) events"

definition query_matches :: "audit_query \<Rightarrow> audit_event \<Rightarrow> bool" where
  "query_matches q e \<longleftrightarrow>
     \<not> (q_agent_id q \<noteq> [] \<and> ev_agent_id e \<noteq> q_agent_id q)
     \<and> \<not> (q_event_type q \<noteq> [] \<and> ev_type e \<noteq> q_event_type q)
     \<and> \<not> (q_decision q \<noteq> [] \<and> ev_decision e \<noteq> q_decision q)"

definition memory_query :: "runtime \<Rightarrow> audit_event list \<Rightarrow> audit_query \<Rightarrow> goerr + list_result" where
  "memory_query rt events query =
     (case normalize_query rt query of
        Inl e \<Rightarrow> Inl e
      | Inr q \<Rightarrow>
          let matched = filter (query_matches q) events;
              n = int (length matched);
              start = (if q_offset q > n then n else q_offset q);
              stop = (if start + q_limit q > n then n else start + q_limit q);
              items = slice_of (nat start) (nat stop) matched
          in Inr \<lparr>lr_items = items, lr_items_nil = False, lr_limit = q_limit q, lr_offset = q_offset q,
                  lr_count = int (length items)\<rparr>)"

subsection \<open>The chain\<close>

lemma verify_from_shift: "verify_from rt i prev es = None \<longleftrightarrow> verify_from rt j prev es = None"
  by (induction es arbitrary: i j prev) (auto split: sum.splits)

lemma canonical_payload_hash [simp]: "canonical_payload rt (e\<lparr>ev_hash := h\<rparr>) = canonical_payload rt e"
  by (simp add: canonical_payload_def split: sum.split option.split)

lemma hash_event_hash [simp]: "hash_event rt prev (e\<lparr>ev_hash := h\<rparr>) = hash_event rt prev e"
  by (simp add: hash_event_def)

lemma last_hash_Cons: "es \<noteq> [] \<Longrightarrow> last_hash (e # es) = last_hash es"
  by (simp add: last_hash_def)

lemma verify_from_snoc:
  "verify_from rt i prev (es @ [e]) = None \<longleftrightarrow>
     verify_from rt i prev es = None
     \<and> ev_previous_hash e = (if es = [] then prev else ev_hash (last es))
     \<and> hash_event rt (ev_previous_hash e) e = Inr (ev_hash e)"
  by (induction es arbitrary: i prev) (auto split: sum.splits if_splits)

lemma verify_events_snoc:
  "verify_events rt (es @ [e]) = None \<longleftrightarrow>
     verify_events rt es = None \<and> ev_previous_hash e = last_hash es
     \<and> hash_event rt (last_hash es) e = Inr (ev_hash e)"
  by (auto simp: verify_events_def verify_from_snoc last_hash_def)

lemma new_event_Inr:
  assumes "new_event rt random prev input now = Inr e"
  shows "ev_previous_hash e = prev" and "hash_event rt prev e = Inr (ev_hash e)"
    and "ev_type e = in_type input" and "ev_decision e = in_decision input"
    and "ev_agent_id e = in_agent_id input" and "ev_agent_hash e = in_agent_hash input"
    and "ev_reason e = in_reason input" and "ev_created_at e = time_utc now"
    and "ev_actor_hash e = in_actor_hash input"
    and "canonical_json rt (case in_json input of None \<Rightarrow> [] | Some doc \<Rightarrow> doc) = Inr (ev_json e)"
proof -
  obtain doc event_id h where doc: "canonical_json rt (case in_json input of None \<Rightarrow> [] | Some doc \<Rightarrow> doc) = Inr doc"
    and e: "e = \<lparr>ev_id = event_id, ev_type = in_type input, ev_agent_id = in_agent_id input,
       ev_agent_hash = in_agent_hash input, ev_actor_hash = in_actor_hash input,
       ev_decision = in_decision input, ev_reason = in_reason input,
       ev_json = doc, ev_previous_hash = prev, ev_hash = [], ev_created_at = time_utc now\<rparr>\<lparr>ev_hash := h\<rparr>"
    and h: "hash_event rt prev (e\<lparr>ev_hash := []\<rparr>) = Inr h"
    using assms by (auto simp: new_event_def Let_def split: option.splits sum.splits)
  have "hash_event rt prev e = hash_event rt prev (e\<lparr>ev_hash := []\<rparr>)"
    by (rule hash_event_hash [symmetric])
  also have "\<dots> = Inr (ev_hash e)" using h e by simp
  finally show "hash_event rt prev e = Inr (ev_hash e)" .
  show "canonical_json rt (case in_json input of None \<Rightarrow> [] | Some doc \<Rightarrow> doc) = Inr (ev_json e)"
    using doc e by simp
qed (use assms in \<open>auto simp: new_event_def Let_def split: option.splits sum.splits\<close>)

lemma memory_append_def_last:
  "memory_append rt random now events input =
     (case new_event rt random (last_hash events) input now of
        Inl e \<Rightarrow> (Inl e, events)
      | Inr event \<Rightarrow> (Inr event, events @ [event]))"
  by (auto simp: memory_append_def last_hash_def last_conv_nth Let_def)

lemma memory_append_valid:
  assumes "verify_events rt events = None"
  shows "verify_events rt (snd (memory_append rt random now events input)) = None"
  using assms new_event_Inr
  by (auto simp: memory_append_def_last verify_events_snoc split: sum.splits)

text \<open>The bytes an event's hash is taken of.\<close>

definition hash_input :: "runtime \<Rightarrow> audit_event \<Rightarrow> bytes" where
  "hash_input rt e =
     ev_previous_hash e @ (case canonical_payload rt e of Inl _ \<Rightarrow> [] | Inr payload \<Rightarrow> payload)"

lemma hash_event_Inr:
  "hash_event rt (ev_previous_hash e) e = Inr (ev_hash e) \<longleftrightarrow>
     (\<exists>payload. canonical_payload rt e = Inr payload) \<and> ev_hash e = hex_encode (sum256 (hash_input rt e))"
  by (auto simp: hash_event_def hash_input_def split: sum.splits)

lemma hash_hex_eq:
  "hex_encode (sum256 a) = hex_encode (sum256 b) \<longleftrightarrow> sha256 a = sha256 b"
  by (auto simp: hex_encode_inj sum256_def dest: arg_cong [where f = "arr_of :: bytes \<Rightarrow> 256 word"])

lemma canonical_payload_brace: "canonical_payload rt e = Inr p \<Longrightarrow> \<exists>t. p = CHR ''{'' # t"
  by (auto simp: canonical_payload_def split: sum.splits option.splits)

lemma previous_hash_hex:
  assumes "verify_events rt (es @ [e]) = None"
  shows "\<forall>c \<in> set (ev_previous_hash e). is_hex c"
    and "length (ev_previous_hash e) = (if es = [] then 0 else 64)"
proof -
  have prev: "ev_previous_hash e = last_hash es" and ok: "verify_events rt es = None"
    using assms by (simp_all add: verify_events_snoc)
  have hash: "\<exists>d. length d = 32 \<and> ev_hash (last es) = hex_encode d" if "es \<noteq> []"
  proof -
    obtain fs f where es: "es = fs @ [f]" using \<open>es \<noteq> []\<close> by (cases es rule: rev_cases) auto
    with ok have "hash_event rt (ev_previous_hash f) f = Inr (ev_hash f)"
      by (simp add: verify_events_snoc)
    then have "ev_hash f = hex_encode (sum256 (hash_input rt f))" by (simp add: hash_event_Inr)
    with es show ?thesis by (intro exI [of _ "sum256 (hash_input rt f)"]) simp
  qed
  show "\<forall>c \<in> set (ev_previous_hash e). is_hex c"
    using hash hex_encode_hex by (auto simp: prev last_hash_def split: if_splits)
  show "length (ev_previous_hash e) = (if es = [] then 0 else 64)"
    using hash by (auto simp: prev last_hash_def)
qed

lemma brace_not_hex: "\<not> is_hex CHR ''{''"
  by (simp add: is_hex_def byte_in_def)

lemma prefix_free_inputs:
  assumes "p @ CHR ''{'' # s = q @ CHR ''{'' # t"
    and "\<forall>c \<in> set p. is_hex c" and "\<forall>c \<in> set q. is_hex c"
  shows "p = q \<and> s = t"
  using assms
proof (induction p arbitrary: q)
  case Nil
  then show ?case using brace_not_hex by (cases q) auto
next
  case (Cons c p)
  then show ?case using brace_not_hex by (cases q) auto
qed

text \<open>A valid chain is fixed by its last hash, unless two of the hashed inputs collide.\<close>

lemma chain_determined:
  assumes "verify_events rt xs = None" and "verify_events rt ys = None"
    and "xs \<noteq> []" and "ys \<noteq> []" and "last_hash xs = last_hash ys"
  shows "map (canonical_payload rt) xs = map (canonical_payload rt) ys
     \<or> (\<exists>x \<in> set xs. \<exists>y \<in> set ys. sha256_collision (hash_input rt x) (hash_input rt y))"
  using assms
proof (induction xs arbitrary: ys rule: rev_induct)
  case Nil
  then show ?case by simp
next
  case (snoc x xs)
  obtain zs y where ys: "ys = zs @ [y]" using snoc.prems(4) by (cases ys rule: rev_cases) auto
  have x: "verify_events rt xs = None" "ev_previous_hash x = last_hash xs"
    "hash_event rt (ev_previous_hash x) x = Inr (ev_hash x)"
    using snoc.prems(1) by (simp_all add: verify_events_snoc)
  have y: "verify_events rt zs = None" "ev_previous_hash y = last_hash zs"
    "hash_event rt (ev_previous_hash y) y = Inr (ev_hash y)"
    using snoc.prems(2) ys by (simp_all add: verify_events_snoc)
  have same: "sha256 (hash_input rt x) = sha256 (hash_input rt y)"
    using snoc.prems(5) x(3) y(3) hash_hex_eq [of "hash_input rt x" "hash_input rt y"]
    by (simp only: ys last_hash_def hash_event_Inr) simp
  show ?case
  proof (cases "hash_input rt x = hash_input rt y")
    case False
    with same have "sha256_collision (hash_input rt x) (hash_input rt y)"
      by (simp add: sha256_collision_def)
    then show ?thesis by (auto simp: ys)
  next
    case True
    obtain p q where pq: "canonical_payload rt x = Inr p" "canonical_payload rt y = Inr q"
      using x(3) y(3) by (auto simp: hash_event_Inr)
    then obtain s t where st: "p = CHR ''{'' # s" "q = CHR ''{'' # t"
      using canonical_payload_brace by metis
    have "ev_previous_hash x @ CHR ''{'' # s = ev_previous_hash y @ CHR ''{'' # t"
      using True pq st by (simp add: hash_input_def)
    then have eq: "ev_previous_hash x = ev_previous_hash y \<and> s = t"
      by (rule prefix_free_inputs)
        (use previous_hash_hex(1) snoc.prems(1,2) ys in blast)+
    then have payload: "canonical_payload rt x = canonical_payload rt y"
      using pq st by simp
    have len: "xs = [] \<longleftrightarrow> zs = []"
      using previous_hash_hex(2) [OF snoc.prems(1)] previous_hash_hex(2) [of rt zs y] snoc.prems(2) ys eq
      by (auto split: if_splits)
    show ?thesis
    proof (cases "xs = []")
      case True
      with len payload ys show ?thesis by simp
    next
      case nonempty: False
      have "last_hash xs = last_hash zs" using eq x(2) y(2) by simp
      from snoc.IH [OF x(1) y(1) nonempty _ this] nonempty len
      show ?thesis using payload ys by auto
    qed
  qed
qed

end
