(* ===== verification/Audit_Documents.thy ===== *)
theory Audit_Documents
  imports Audit_Log
begin

text \<open>
  The canonical form of a document is its own canonical form. The documents the services log. \<open>plain_json\<close> is the shape of them and \<open>input_ok\<close> what a call of
  \<open>Append\<close> passes when it logs one. The lemmas show that their canonical form exists and that an event can be made.
\<close>

subsection \<open>The canonical form\<close>

lemma distinct_map_sort [simp]: "distinct (map f (sort_key g xs)) \<longleftrightarrow> distinct (map f xs)"
  by (simp only: distinct_map distinct_sort set_sort)

lemma sort_keys_clean: "clean_at d j \<Longrightarrow> clean_at d (sort_keys j)"
proof (induction j arbitrary: d rule: sort_keys.induct)
  case (1 xs)
  then obtain k where d: "d = Suc k" by (cases d) (auto simp: clean_at_def)
  with 1 show ?case by (auto simp: list_all_iff)
next
  case (2 kvs)
  then obtain k where d: "d = Suc k" by (cases d) (auto simp: clean_at_def)
  have obj: "object_of kvs = JObj kvs" "distinct (map fst kvs)" "\<forall>kv \<in> set kvs. clean_member k kv"
    using clean_object_fields [of k kvs] 2(2) d by auto
  have "\<forall>kv \<in> set kvs. clean_at k (sort_keys (snd kv))"
    using 2(1) obj(3) by (auto simp: clean_member_def)
  with obj show ?case
    unfolding d sort_keys.simps json_map_def
    by (intro clean_at_object) (auto simp: clean_member_def comp_def)
qed simp_all

lemma sort_keys_idem [simp]: "sort_keys (sort_keys j) = sort_keys j"
proof (induction j rule: sort_keys.induct)
  case (2 kvs)
  let ?f = "\<lambda>kv. (fst kv, sort_keys (snd kv))"
  have "map ?f (sort_key fst (map ?f kvs)) = sort_key fst (map ?f kvs)"
    using 2 by (auto simp: map_fixes)
  then show ?case by (simp add: json_map_def sort_key_id_if_sorted)
qed (simp_all add: map_idI)

lemma canonical_json_Inr:
  "canonical_json rt data = Inr c \<longleftrightarrow>
     (data = [] \<and> c = ''{}''
      \<or> (\<exists>v rest. json_decode data = DecodeValue v rest \<and> json_decode rest = DecodeEOF \<and> c = marshal (sort_keys v)))"
  by (auto simp: canonical_json_def split: json_decoded.splits)

lemma canonical_printed:
  assumes "clean_at max_nesting v"
  shows "canonical_json rt (marshal v) = Inr (marshal (sort_keys v))"
  using json_decode_printed [OF assms] by (simp add: canonical_json_Inr)

lemma canonical_json_value:
  assumes "canonical_json rt data = Inr c"
  obtains v where "c = marshal (sort_keys v)" and "clean_at max_nesting v"
proof (cases "data = []")
  case True
  have "clean_at max_nesting (JObj [])"
    using clean_at_object [of "[]" 9999] by (simp add: max_nesting_def)
  moreover have "c = marshal (sort_keys (JObj []))" using True assms by (simp add: canonical_json_def json_map_def)
  ultimately show thesis by (rule that [rotated])
next
  case False
  with assms that json_decode_clean show thesis by (auto simp: canonical_json_Inr)
qed

lemma canonical_json_idem:
  assumes "canonical_json rt data = Inr c"
  shows "canonical_json rt' c = Inr c"
proof -
  obtain v where v: "c = marshal (sort_keys v)" "clean_at max_nesting v"
    by (rule canonical_json_value [OF assms])
  then show ?thesis using canonical_printed [OF sort_keys_clean [OF v(2)]] by simp
qed

subsection \<open>What the services log\<close>

text \<open>No document that is logged has more than four levels, and its numbers are written in digits.\<close>

fun digits_only :: "json \<Rightarrow> bool" where
  "digits_only (JNum n) = list_all is_digit n"
| "digits_only (JArr xs) = list_all digits_only xs"
| "digits_only (JObj kvs) = list_all (\<lambda>kv. digits_only (snd kv)) kvs"
| "digits_only j = True"

definition plain_json :: "json \<Rightarrow> bool" where
  "plain_json j \<longleftrightarrow> plain_at 4 j \<and> digits_only j"

lemma digits_only_map [simp]: "digits_only (json_map kvs) \<longleftrightarrow> list_all (\<lambda>kv. digits_only (snd kv)) kvs"
  by (simp add: json_map_def list_all_iff)

lemma digits_only_clean: "digits_only j \<Longrightarrow> digits_only (clean_json j)"
proof (induction j rule: digits_only.induct)
  case (3 kvs)
  then have "list_all (\<lambda>kv. digits_only (snd kv)) (map (\<lambda>kv. (clean_string (fst kv), clean_json (snd kv))) kvs)"
    by (auto simp: list_all_iff)
  from plain_object_of [OF this] show ?case by auto
qed (auto simp: list_all_iff)

lemma digits_only_sort: "digits_only j \<Longrightarrow> digits_only (sort_keys j)"
  by (induction j rule: sort_keys.induct) (auto simp: list_all_iff)

lemma plain_clean:
  assumes "plain_json j"
  shows "clean_at max_nesting (clean_json j)" and "plain_json (sort_keys (clean_json j))"
proof -
  have d: "clean_at 4 (clean_json j)" using assms by (simp add: plain_json_def clean_json_clean)
  then show "clean_at max_nesting (clean_json j)"
    using plain_at_mono [of 4 "clean_json j" max_nesting] by (simp add: clean_at_def max_nesting_def)
  show "plain_json (sort_keys (clean_json j))"
    using assms sort_keys_clean [OF d]
    by (simp add: plain_json_def clean_at_def digits_only_clean digits_only_sort)
qed

lemma plain_json_read:
  assumes "plain_json j"
  shows "json_valid (marshal j)" and "json_decode (marshal j) = DecodeValue (clean_json j) []"
  using assms json_valid_marshal [of 4 j] json_decode_marshal [of 4 j]
  by (simp_all add: plain_json_def max_nesting_def)

lemma plain_at_map [simp]: "plain_at (Suc d) (json_map kvs) \<longleftrightarrow> list_all (\<lambda>kv. plain_at d (snd kv)) kvs"
  by (simp add: json_map_def list_all_iff)

lemma digits_only_nat [simp]: "digits_only (json_nat n)"
  using digits_of_ok [of n] by (simp add: json_nat_def)

lemma number_itoa [simp]: "0 \<le> i \<Longrightarrow> number_text (itoa i)" "0 \<le> i \<Longrightarrow> list_all is_digit (itoa i)"
  using digits_of_ok by (simp_all add: itoa_def)

lemma marshal_nonempty: "plain_json j \<Longrightarrow> marshal j \<noteq> []"
  by (cases j) (auto simp: json_string_def plain_json_def elim: number_head)

lemma canonical_json_plain:
  assumes "plain_json j"
  shows "canonical_json rt (marshal j) = Inr (marshal (sort_keys (clean_json j)))"
    and "plain_json (sort_keys (clean_json j))"
  using plain_json_read [OF assms] plain_clean [OF assms] by (simp_all add: canonical_json_Inr)

lemma audit_payload_plain: "plain_json j \<Longrightarrow> \<exists>d. audit_payload rt j = Inr (marshal d) \<and> plain_json d"
  using canonical_json_plain by (fastforce simp: audit_payload_def)

definition input_ok :: "event_input \<Rightarrow> bool" where
  "input_ok input \<longleftrightarrow>
     supported_event_type (in_type input) \<and> supported_decision (in_decision input)
     \<and> (\<exists>d. in_json input = Some (marshal d) \<and> plain_json d)"

lemma new_event_ok:
  assumes "input_ok input" and "random = Inr bs" and "time_marshal_error (time_utc now) = None"
  shows "\<exists>ev. new_event rt random prev input now = Inr ev"
proof -
  obtain d where d: "in_json input = Some (marshal d)" "plain_json d" using assms(1) by (auto simp: input_ok_def)
  have valid: "validate_input rt input = None"
    using assms(1) d plain_json_read(1) [OF d(2)] by (auto simp: validate_input_def input_ok_def)
  note d1 = canonical_json_plain [OF d(2)]
  show ?thesis
    using assms(2,3) valid d d1(1) canonical_json_plain(1) [OF d1(2)]
    by (simp add: new_event_def new_event_id_def hash_event_def canonical_payload_def Let_def)
qed

lemma event_types_supported [simp]:
  "supported_event_type event_agent_registered" "supported_event_type event_resolve_allowed"
  "supported_event_type event_resolve_denied" "supported_event_type event_trust_denied"
  "supported_event_type event_revocation_updated"
  "supported_decision decision_allowed" "supported_decision decision_denied"
  by (simp_all add: supported_event_type_def supported_decision_def)

end
