(* ===== verification/Audit_Stores.thy ===== *)
theory Audit_Stores
  imports Audit_Documents
begin

text \<open>
  The Postgres audit store (\<open>internal/audit/postgres.go\<close>) and the \<open>Store\<close> interface.
  The table is its rows with the next value of its \<open>bigserial\<close> id; a statement takes the
  error the database may return at its stage and a transaction that fails leaves the rows as
  they were. \<open>db_reader\<close> is what the server and the driver do to a value on its way back:
  \<open>dr_jsonb\<close> prints a stored document, \<open>dr_local\<close> is the zone a timestamp is given in, so
  events read back are compared with their time in UTC (\<open>utc_event\<close>). The locale
  \<open>audit_store\<close> states what the clients of the interface rely on and is interpreted for the
  memory store and for the Postgres store.
\<close>

datatype append_stage = StageBegin | StageLock | StagePrevious | StageInsert | StageCommit

record append_env =
  ae_random :: "os_error + 128 word"
  ae_now :: gotime
  ae_fault :: "append_stage \<Rightarrow> db_error option"

record db_reader =
  dr_jsonb :: "bytes \<Rightarrow> bytes"
  dr_local :: "int \<Rightarrow> int"
  dr_fault :: "db_error option"

record audit_row =
  ar_id :: nat
  ar_event_id :: string
  ar_event_type :: string
  ar_agent_id :: "string option"
  ar_agent_hash :: "string option"
  ar_actor_hash :: "string option"
  ar_decision :: string
  ar_reason :: "string option"
  ar_event_json :: bytes
  ar_previous_hash :: "string option"
  ar_event_hash :: string
  ar_created_at :: gotime

record audit_table =
  at_rows :: "audit_row list"
  at_next_id :: nat

definition rows_by_id :: "audit_table \<Rightarrow> audit_row list" where
  "rows_by_id table = sort_key ar_id (at_rows table)"

text \<open>\<open>SELECT event_hash ... ORDER BY id DESC LIMIT 1\<close>; no row leaves the empty string.\<close>

definition pg_previous_hash :: "audit_table \<Rightarrow> string" where
  "pg_previous_hash table =
     (case rev (rows_by_id table) of [] \<Rightarrow> [] | row # _ \<Rightarrow> ar_event_hash row)"

definition insert_row :: "nat \<Rightarrow> audit_event \<Rightarrow> audit_row" where
  "insert_row i e =
     \<lparr>ar_id = i, ar_event_id = ev_id e, ar_event_type = ev_type e,
      ar_agent_id = null_string (ev_agent_id e), ar_agent_hash = null_string (ev_agent_hash e),
      ar_actor_hash = null_string (ev_actor_hash e), ar_decision = ev_decision e,
      ar_reason = null_string (ev_reason e), ar_event_json = ev_json e,
      ar_previous_hash = null_string (ev_previous_hash e), ar_event_hash = ev_hash e,
      ar_created_at = ev_created_at e\<rparr>"

definition pg_append ::
  "runtime \<Rightarrow> append_env \<Rightarrow> audit_table \<Rightarrow> event_input \<Rightarrow> (goerr + audit_event) \<times> audit_table" where
  "pg_append rt env table input =
     (case ae_fault env StageBegin of
        Some e \<Rightarrow> (Inl (wrap_err ''begin postgres audit transaction'' (ErrNew e)), table)
      | None \<Rightarrow>
     (case ae_fault env StageLock of
        Some e \<Rightarrow> (Inl (wrap_err ''lock postgres audit events'' (ErrNew e)), table)
      | None \<Rightarrow>
     (case ae_fault env StagePrevious of
        Some e \<Rightarrow> (Inl (wrap_err ''get previous audit event hash'' (ErrNew e)), table)
      | None \<Rightarrow>
     (case new_event rt (ae_random env) (pg_previous_hash table) input
             (truncate_micros (time_utc (ae_now env))) of
        Inl e \<Rightarrow> (Inl e, table)
      | Inr event \<Rightarrow>
     (case ae_fault env StageInsert of
        Some e \<Rightarrow> (Inl (wrap_err ''insert audit event'' (ErrNew e)), table)
      | None \<Rightarrow>
     (case ae_fault env StageCommit of
        Some e \<Rightarrow> (Inl (wrap_err ''commit postgres audit transaction'' (ErrNew e)), table)
      | None \<Rightarrow>
          (Inr event,
           \<lparr>at_rows = at_rows table @ [insert_row (at_next_id table) event],
            at_next_id = Suc (at_next_id table)\<rparr>)))))))"

definition scan_event :: "runtime \<Rightarrow> db_reader \<Rightarrow> audit_row \<Rightarrow> goerr + audit_event" where
  "scan_event rt reader row =
     (case canonical_json rt (dr_jsonb reader (ar_event_json row)) of
        Inl e \<Rightarrow> Inl e
      | Inr event_json \<Rightarrow>
          Inr \<lparr>ev_id = ar_event_id row, ev_type = ar_event_type row,
               ev_agent_id = null_string_value (ar_agent_id row),
               ev_agent_hash = null_string_value (ar_agent_hash row),
               ev_actor_hash = null_string_value (ar_actor_hash row),
               ev_decision = ar_decision row, ev_reason = null_string_value (ar_reason row),
               ev_json = event_json,
               ev_previous_hash = null_string_value (ar_previous_hash row),
               ev_hash = ar_event_hash row,
               ev_created_at = \<lparr>instant = instant (ar_created_at row),
                                zone = dr_local reader (instant (ar_created_at row))\<rparr>\<rparr>)"

fun scan_events :: "runtime \<Rightarrow> db_reader \<Rightarrow> audit_row list \<Rightarrow> goerr + audit_event list" where
  "scan_events rt reader [] = Inr []"
| "scan_events rt reader (row # rows) =
     (case scan_event rt reader row of
        Inl e \<Rightarrow> Inl e
      | Inr event \<Rightarrow>
          (case scan_events rt reader rows of
             Inl e \<Rightarrow> Inl e
           | Inr events \<Rightarrow> Inr (event # events)))"

definition pg_list :: "runtime \<Rightarrow> db_reader \<Rightarrow> audit_table \<Rightarrow> goerr + audit_event list" where
  "pg_list rt reader table =
     (case dr_fault reader of
        Some e \<Rightarrow> Inl (wrap_err ''query audit events'' (ErrNew e))
      | None \<Rightarrow> scan_events rt reader (rows_by_id table))"

definition pg_list_by_agent ::
  "runtime \<Rightarrow> db_reader \<Rightarrow> audit_table \<Rightarrow> string \<Rightarrow> goerr + audit_event list" where
  "pg_list_by_agent rt reader table agent_id =
     (case dr_fault reader of
        Some e \<Rightarrow> Inl (wrap_err ''query audit events by agent'' (ErrNew e))
      | None \<Rightarrow>
          scan_events rt reader
            (filter (\<lambda>row. ar_agent_id row = Some agent_id) (rows_by_id table)))"

text \<open>The \<open>WHERE\<close> clause: a column and the value it must equal for each filter that is set; a
  NULL column equals nothing.\<close>

definition query_filters :: "audit_query \<Rightarrow> (string \<times> string) list" where
  "query_filters q =
     (if q_agent_id q \<noteq> [] then [(''agent_id'', q_agent_id q)] else [])
     @ (if q_event_type q \<noteq> [] then [(''event_type'', q_event_type q)] else [])
     @ (if q_decision q \<noteq> [] then [(''decision'', q_decision q)] else [])"

definition row_column :: "audit_row \<Rightarrow> string \<Rightarrow> string option" where
  "row_column row column =
     (if column = ''agent_id'' then ar_agent_id row
      else if column = ''event_type'' then Some (ar_event_type row)
      else if column = ''decision'' then Some (ar_decision row)
      else None)"

definition row_matches :: "(string \<times> string) list \<Rightarrow> audit_row \<Rightarrow> bool" where
  "row_matches filters row \<longleftrightarrow> list_all (\<lambda>(column, v). row_column row column = Some v) filters"

definition pg_query ::
  "runtime \<Rightarrow> db_reader \<Rightarrow> audit_table \<Rightarrow> audit_query \<Rightarrow> goerr + list_result" where
  "pg_query rt reader table query =
     (case normalize_query rt query of
        Inl e \<Rightarrow> Inl e
      | Inr q \<Rightarrow>
     (case dr_fault reader of
        Some e \<Rightarrow> Inl (wrap_err ''query audit events'' (ErrNew e))
      | None \<Rightarrow>
     (case scan_events rt reader
             (take (nat (q_limit q)) (drop (nat (q_offset q))
                (filter (row_matches (query_filters q)) (rows_by_id table)))) of
        Inl e \<Rightarrow> Inl e
      | Inr events \<Rightarrow>
          Inr \<lparr>lr_items = events, lr_items_nil = (events = []), lr_limit = q_limit q, lr_offset = q_offset q,
               lr_count = int (length events)\<rparr>)))"

definition pg_verify_hash_chain :: "runtime \<Rightarrow> db_reader \<Rightarrow> audit_table \<Rightarrow> goerr option" where
  "pg_verify_hash_chain rt reader table =
     (case pg_list rt reader table of
        Inl e \<Rightarrow> Some e
      | Inr events \<Rightarrow> verify_events rt events)"

subsection \<open>Tables and what is read back\<close>

definition table_ok :: "audit_table \<Rightarrow> bool" where
  "table_ok table \<longleftrightarrow>
     sorted_wrt (<) (map ar_id (at_rows table)) \<and> (\<forall>row \<in> set (at_rows table). ar_id row < at_next_id table)"

lemma sorted_wrt_less_sorted: "sorted_wrt (<) (xs :: nat list) \<Longrightarrow> sorted xs"
  by (induction xs) auto

lemma rows_by_id_ok: "table_ok table \<Longrightarrow> rows_by_id table = at_rows table"
  unfolding table_ok_def rows_by_id_def
  by (intro sort_key_id_if_sorted sorted_wrt_less_sorted) simp

lemma table_ok_insert:
  "table_ok table \<Longrightarrow>
   table_ok \<lparr>at_rows = at_rows table @ [insert_row (at_next_id table) e], at_next_id = Suc (at_next_id table)\<rparr>"
  by (auto simp: table_ok_def sorted_wrt_append insert_row_def less_Suc_eq)

definition utc_event :: "audit_event \<Rightarrow> audit_event" where
  "utc_event e = e\<lparr>ev_created_at := time_utc (ev_created_at e)\<rparr>"

text \<open>Results are compared with their times in UTC and an empty page the same whether nil or not.\<close>

definition utc_result :: "list_result \<Rightarrow> list_result" where
  "utc_result r = r\<lparr>lr_items := map utc_event (lr_items r), lr_items_nil := False\<rparr>"

lemma utc_event_simps [simp]:
  "ev_hash (utc_event e) = ev_hash e" "ev_previous_hash (utc_event e) = ev_previous_hash e"
  "ev_agent_id (utc_event e) = ev_agent_id e" "ev_type (utc_event e) = ev_type e"
  "ev_decision (utc_event e) = ev_decision e" "ev_json (utc_event e) = ev_json e"
  by (simp_all add: utc_event_def)

lemma canonical_payload_utc: "canonical_payload rt (utc_event e) = canonical_payload rt e"
  by (simp add: canonical_payload_def utc_event_def split: sum.split option.split)

lemma hash_event_utc [simp]: "hash_event rt prev (utc_event e) = hash_event rt prev e"
  by (simp add: hash_event_def canonical_payload_utc)

lemma verify_from_utc: "verify_from rt i prev (map utc_event es) = verify_from rt i prev es"
  by (induction es arbitrary: i prev) (auto split: sum.split)

lemma verify_events_utc [simp]: "verify_events rt (map utc_event es) = verify_events rt es"
  by (simp add: verify_events_def verify_from_utc)

text \<open>The event a row holds. The invariant of the table asks of the server that a canonical
  document is given back with the same canonical form, and that no statement fails.\<close>

definition row_event :: "audit_row \<Rightarrow> audit_event" where
  "row_event row =
     \<lparr>ev_id = ar_event_id row, ev_type = ar_event_type row,
      ev_agent_id = null_string_value (ar_agent_id row),
      ev_agent_hash = null_string_value (ar_agent_hash row),
      ev_actor_hash = null_string_value (ar_actor_hash row),
      ev_decision = ar_decision row, ev_reason = null_string_value (ar_reason row),
      ev_json = ar_event_json row, ev_previous_hash = null_string_value (ar_previous_hash row),
      ev_hash = ar_event_hash row, ev_created_at = ar_created_at row\<rparr>"

definition jsonb_faithful :: "runtime \<Rightarrow> db_reader \<Rightarrow> bytes \<Rightarrow> bool" where
  "jsonb_faithful rt reader doc \<longleftrightarrow> canonical_json rt (dr_jsonb reader doc) = Inr doc"

definition row_nulls_ok :: "audit_row \<Rightarrow> bool" where
  "row_nulls_ok row \<longleftrightarrow> ar_agent_id row \<noteq> Some []"

definition table_events :: "audit_table \<Rightarrow> audit_event list" where
  "table_events table = map row_event (at_rows table)"

definition table_invar :: "runtime \<Rightarrow> db_reader \<Rightarrow> audit_table \<Rightarrow> bool" where
  "table_invar rt reader table \<longleftrightarrow>
     table_ok table \<and> dr_fault reader = None
     \<and> (\<forall>row \<in> set (at_rows table). jsonb_faithful rt reader (ar_event_json row) \<and> row_nulls_ok row)
     \<and> (\<forall>d c. plain_json d \<longrightarrow> canonical_json rt (marshal d) = Inr c \<longrightarrow> jsonb_faithful rt reader c)"

lemma row_event_insert [simp, store_simps]: "row_event (insert_row i e) = e"
  by (simp add: row_event_def insert_row_def)

lemma scan_row_event:
  assumes "jsonb_faithful rt reader (ar_event_json row)"
  obtains ev where "scan_event rt reader row = Inr ev" and "utc_event ev = utc_event (row_event row)"
  using assms by (auto simp: scan_event_def row_event_def jsonb_faithful_def utc_event_def time_utc_def)

lemma scan_events_faithful:
  assumes "\<forall>row \<in> set rows. jsonb_faithful rt reader (ar_event_json row)"
  shows "\<exists>evs. scan_events rt reader rows = Inr evs
           \<and> map utc_event evs = map utc_event (map row_event rows)"
  using assms
proof (induction rows)
  case (Cons row rows)
  obtain ev where "scan_event rt reader row = Inr ev" "utc_event ev = utc_event (row_event row)"
    using scan_row_event Cons.prems by (metis list.set_intros(1))
  moreover obtain evs where "scan_events rt reader rows = Inr evs"
    "map utc_event evs = map utc_event (map row_event rows)"
    using Cons by auto
  ultimately show ?case by simp
qed simp

lemma pg_append_Inl: "pg_append rt env table input = (Inl e, table') \<Longrightarrow> table' = table"
  by (simp add: pg_append_def split: option.splits sum.splits)

lemma pg_append_Inr:
  assumes "pg_append rt env table input = (Inr ev, table')"
  shows "new_event rt (ae_random env) (pg_previous_hash table) input
           (truncate_micros (time_utc (ae_now env))) = Inr ev"
    and "table' = \<lparr>at_rows = at_rows table @ [insert_row (at_next_id table) ev],
                   at_next_id = Suc (at_next_id table)\<rparr>"
  using assms by (simp_all add: pg_append_def split: option.splits sum.splits)

lemma pg_previous_hash_events:
  "table_ok table \<Longrightarrow> pg_previous_hash table = last_hash (table_events table)"
  by (cases "at_rows table" rule: rev_cases)
     (simp_all add: pg_previous_hash_def rows_by_id_ok table_events_def last_hash_def row_event_def)

lemma null_string_not_empty [simp]: "null_string s \<noteq> Some []"
  by (simp add: null_string_def)

lemma table_invar_insert:
  assumes "table_invar rt reader table" and "plain_json d" and "canonical_json rt (marshal d) = Inr (ev_json e)"
  shows "table_invar rt reader
           \<lparr>at_rows = at_rows table @ [insert_row (at_next_id table) e], at_next_id = Suc (at_next_id table)\<rparr>"
  using assms table_ok_insert [of table e]
  by (auto simp: table_invar_def row_nulls_ok_def insert_row_def)

lemma row_matches_query:
  "row_nulls_ok row \<Longrightarrow> row_matches (query_filters q) row = query_matches q (row_event row)"
  by (auto simp: row_matches_def query_filters_def query_matches_def row_column_def row_event_def
      row_nulls_ok_def null_string_value_def split: option.splits)

lemma normalize_query_bounds:
  "normalize_query rt query = Inr q \<Longrightarrow> 0 < q_limit q \<and> q_limit q \<le> max_list_limit \<and> 0 \<le> q_offset q"
  by (auto simp: normalize_query_def Let_def default_list_limit_def split: if_splits)

lemma normalize_query_idem: "normalize_query rt query = Inr q \<Longrightarrow> normalize_query rt q = Inr q"
  by (auto simp: normalize_query_def Let_def default_list_limit_def max_list_limit_def split: if_splits)

text \<open>A page of the memory store: its bounds are those of \<open>OFFSET\<close> and \<open>LIMIT\<close>.\<close>

lemma page_slice:
  assumes "0 \<le> offset" and "0 < limit"
  shows "slice_of (nat (min offset (int (length m)))) (nat (min (min offset (int (length m)) + limit) (int (length m)))) m
         = take (nat limit) (drop (nat offset) m)"
proof (cases "nat offset \<ge> length m")
  case True
  with assms have "min offset (int (length m)) = int (length m)"
    "min (int (length m) + limit) (int (length m)) = int (length m)" by auto
  with True show ?thesis by (simp add: slice_of_def)
next
  case False
  with assms have "min offset (int (length m)) = offset" by auto
  moreover have "nat (min (offset + limit) (int (length m))) - nat offset = min (nat limit) (length m - nat offset)"
    using assms by (cases "offset + limit \<le> int (length m)") (simp_all add: nat_diff_distrib nat_add_distrib min_def, linarith+)
  moreover have "take (min n (length xs)) xs = take n xs" for n and xs :: "'a list"
    by (simp add: min_def)
  ultimately show ?thesis
    by (simp add: slice_of_def) (metis length_drop)
qed

lemma memory_query_page:
  assumes "normalize_query rt query = Inr q"
  shows "memory_query rt events query =
     (let items = take (nat (q_limit q)) (drop (nat (q_offset q)) (filter (query_matches q) events))
      in Inr \<lparr>lr_items = items, lr_items_nil = False, lr_limit = q_limit q, lr_offset = q_offset q,
             lr_count = int (length items)\<rparr>)"
proof -
  have b: "0 \<le> q_offset q" "0 < q_limit q" using normalize_query_bounds [OF assms] by auto
  have cut: "(if a > b then b else a) = min a b" for a b :: int by auto
  show ?thesis
    unfolding memory_query_def assms sum.case Let_def cut page_slice [OF b] ..
qed

lemma pg_query_page:
  assumes "table_invar rt reader table" and "normalize_query rt query = Inr q"
  shows "map_sum id utc_result (pg_query rt reader table query)
         = map_sum id utc_result (memory_query rt (table_events table) query)"
proof -
  have ok: "table_ok table" "dr_fault reader = None"
    "\<forall>row \<in> set (at_rows table). jsonb_faithful rt reader (ar_event_json row) \<and> row_nulls_ok row"
    using assms(1) by (auto simp: table_invar_def)
  define page :: "audit_row list \<Rightarrow> audit_row list"
    where "page = (\<lambda>xs. take (nat (q_limit q)) (drop (nat (q_offset q)) xs))"
  define rows where "rows = page (filter (row_matches (query_filters q)) (at_rows table))"
  have "set rows \<subseteq> set (at_rows table)"
    unfolding rows_def page_def
    by (meson dual_order.trans filter_is_subset set_drop_subset set_take_subset)
  with ok(3) obtain evs where evs: "scan_events rt reader rows = Inr evs"
    "map utc_event evs = map utc_event (map row_event rows)"
    using scan_events_faithful [of rows rt reader] by blast
  have same: "filter (row_matches (query_filters q)) (at_rows table)
        = filter (query_matches q \<circ> row_event) (at_rows table)"
    using ok(3) row_matches_query by (intro filter_cong) auto
  have items: "map row_event rows
        = take (nat (q_limit q)) (drop (nat (q_offset q)) (filter (query_matches q) (table_events table)))"
    by (simp add: rows_def page_def same table_events_def filter_map drop_map take_map)
  have "length evs = length rows"
    using evs(2) by (metis length_map)
  then show ?thesis
    using ok(1,2) evs assms(2)
    unfolding rows_def page_def
    by (simp add: pg_query_def memory_query_page [OF assms(2)] rows_by_id_ok utc_result_def
        items [unfolded rows_def page_def, symmetric] Let_def)
qed

lemma pg_query_refines:
  assumes "table_invar rt reader table"
  shows "map_sum id utc_result (pg_query rt reader table query)
         = map_sum id utc_result (memory_query rt (table_events table) query)"
proof (cases "normalize_query rt query")
  case (Inl e)
  then show ?thesis by (simp add: pg_query_def memory_query_def)
next
  case (Inr q)
  with assms show ?thesis by (rule pg_query_page)
qed

lemma pg_verify_refines:
  assumes "table_invar rt reader table"
  shows "pg_verify_hash_chain rt reader table = verify_events rt (table_events table)"
proof -
  have ok: "table_ok table" "dr_fault reader = None"
    "\<forall>row \<in> set (at_rows table). jsonb_faithful rt reader (ar_event_json row)"
    using assms by (auto simp: table_invar_def)
  obtain evs where "scan_events rt reader (at_rows table) = Inr evs"
    "map utc_event evs = map utc_event (table_events table)"
    using scan_events_faithful [OF ok(3)] by (auto simp: table_events_def)
  then show ?thesis
    using ok(1,2) verify_events_utc [of rt evs] verify_events_utc [of rt "table_events table"]
    by (simp add: pg_verify_hash_chain_def pg_list_def rows_by_id_ok)
qed

lemma pg_list_by_agent_refines:
  assumes "table_invar rt reader table" and "agent_id \<noteq> []"
  shows "map_sum id (map utc_event) (pg_list_by_agent rt reader table agent_id)
         = Inr (map utc_event (memory_list_by_agent (table_events table) agent_id))"
proof -
  have ok: "table_ok table" "dr_fault reader = None"
    "\<forall>row \<in> set (at_rows table). jsonb_faithful rt reader (ar_event_json row)"
    using assms by (auto simp: table_invar_def)
  let ?rows = "filter (\<lambda>row. ar_agent_id row = Some agent_id) (at_rows table)"
  have "\<forall>row \<in> set ?rows. jsonb_faithful rt reader (ar_event_json row)" using ok(3) by auto
  from scan_events_faithful [OF this] obtain evs where "scan_events rt reader ?rows = Inr evs"
    "map utc_event evs = map utc_event (map row_event ?rows)" by blast
  moreover have "(\<lambda>row. ar_agent_id row = Some agent_id) = (\<lambda>e. ev_agent_id e = agent_id) \<circ> row_event"
    using assms(2) by (auto simp: row_event_def null_string_value_def fun_eq_iff split: option.splits)
  then have "map row_event ?rows = memory_list_by_agent (table_events table) agent_id"
    by (simp add: memory_list_by_agent_def table_events_def filter_map)
  ultimately show ?thesis
    using ok(1,2) by (simp add: pg_list_by_agent_def rows_by_id_ok)
qed

subsection \<open>The interface\<close>

text \<open>\<open>events s\<close> are the events a store holds; \<open>'x\<close> is what one \<open>Append\<close> takes from its
  environment (randomness, the clock, faults of the database).\<close>

locale audit_store =
  fixes rt :: runtime
    and append :: "'x \<Rightarrow> 's \<Rightarrow> event_input \<Rightarrow> (goerr + audit_event) \<times> 's"
    and events :: "'s \<Rightarrow> audit_event list"
    and query :: "'s \<Rightarrow> audit_query \<Rightarrow> goerr + list_result"
    and verify :: "'s \<Rightarrow> goerr option"
    and invar :: "'s \<Rightarrow> bool"
  assumes append_failed: "append x s input = (Inl e, s') \<Longrightarrow> s' = s"
    and append_stored: "invar s \<Longrightarrow> input_ok input \<Longrightarrow> append x s input = (Inr ev, s') \<Longrightarrow>
      invar s' \<and> events s' = events s @ [ev]"
    and append_new: "invar s \<Longrightarrow> append x s input = (Inr ev, s') \<Longrightarrow>
      \<exists>random now. new_event rt random (last_hash (events s)) input now = Inr ev"
    and query_page: "invar s \<Longrightarrow>
      map_sum id utc_result (query s q) = map_sum id utc_result (memory_query rt (events s) q)"
    and verify_chain: "invar s \<Longrightarrow> verify s = verify_events rt (events s)"
begin

definition run_appends :: "'s \<Rightarrow> ('x \<times> event_input) list \<Rightarrow> 's" where
  "run_appends s ops = foldl (\<lambda>s op. snd (append (fst op) s (snd op))) s ops"

lemma append_step:
  assumes "invar s" and "input_ok input"
  shows "invar (snd (append x s input))
    \<and> (\<exists>new. events (snd (append x s input)) = events s @ new \<and> length new \<le> 1
         \<and> (verify_events rt (events s) = None \<longrightarrow> verify_events rt (events s @ new) = None))"
proof (cases "append x s input")
  case (Pair r s')
  show ?thesis
  proof (cases r)
    case (Inl e)
    with Pair append_failed have "s' = s" by blast
    with Pair assms show ?thesis by (intro conjI exI [of _ "[]"]) auto
  next
    case (Inr ev)
    with Pair assms append_stored have st: "invar s'" "events s' = events s @ [ev]" by blast+
    obtain random now where "new_event rt random (last_hash (events s)) input now = Inr ev"
      using append_new assms Pair Inr by blast
    then have "ev_previous_hash ev = last_hash (events s)" "hash_event rt (last_hash (events s)) ev = Inr (ev_hash ev)"
      by (auto dest: new_event_Inr)
    with st Pair show ?thesis by (intro conjI exI [of _ "[ev]"]) (auto simp: verify_events_snoc)
  qed
qed

lemma run_appends_extends:
  assumes "invar s" and "list_all (\<lambda>op. input_ok (snd op)) ops"
  shows "invar (run_appends s ops)
    \<and> (\<exists>new. events (run_appends s ops) = events s @ new \<and> length new \<le> length ops)
    \<and> (verify s = None \<longrightarrow> verify (run_appends s ops) = None)"
  using assms
proof (induction ops arbitrary: s)
  case Nil
  then show ?case by (simp add: run_appends_def)
next
  case (Cons op ops)
  define t where "t = snd (append (fst op) s (snd op))"
  obtain n1 where t: "invar t" "events t = events s @ n1" "length n1 \<le> 1"
    "verify_events rt (events s) = None \<longrightarrow> verify_events rt (events s @ n1) = None"
    using append_step [OF Cons.prems(1), of "snd op" "fst op"] Cons.prems(2) t_def by auto
  have run: "run_appends s (op # ops) = run_appends t ops"
    by (simp add: run_appends_def t_def)
  obtain n2 where n2: "invar (run_appends t ops)" "events (run_appends t ops) = events t @ n2" "length n2 \<le> length ops"
    "verify t = None \<longrightarrow> verify (run_appends t ops) = None"
    using Cons.IH [OF t(1)] Cons.prems(2) by (auto simp: list_all_iff)
  have "verify s = None \<longrightarrow> verify t = None"
    using t verify_chain [OF Cons.prems(1)] verify_chain [OF t(1)] by simp
  moreover have "events (run_appends t ops) = events s @ n1 @ n2" "length (n1 @ n2) \<le> Suc (length ops)"
    using n2(2,3) t(2,3) by simp_all
  ultimately show ?case
    unfolding run using n2(1,4) by (intro conjI exI [of _ "n1 @ n2"]) simp_all
qed

end

lemma new_event_document:
  assumes "new_event rt random prev input now = Inr ev" and "input_ok input"
  shows "\<exists>d. plain_json d \<and> canonical_json rt (marshal d) = Inr (ev_json ev)"
proof -
  obtain d where "in_json input = Some (marshal d)" "plain_json d"
    using assms(2) by (auto simp: input_ok_def)
  with new_event_Inr(10) [OF assms(1)] show ?thesis by auto
qed

interpretation mem_audit: audit_store rt "\<lambda>env. memory_append rt (ae_random env) (ae_now env)"
  "\<lambda>events. events" "memory_query rt" "verify_events rt" "\<lambda>_. True"
  by unfold_locales (auto simp: memory_append_def_last split: sum.splits)

interpretation pg_audit: audit_store rt "pg_append rt" table_events "pg_query rt reader"
  "pg_verify_hash_chain rt reader" "table_invar rt reader"
proof unfold_locales
  fix x s input ev s'
  assume inv: "table_invar rt reader s" and app: "pg_append rt x s input = (Inr ev, s')"
  note new = pg_append_Inr [OF app]
  show "table_invar rt reader s' \<and> table_events s' = table_events s @ [ev]" if "input_ok input"
    using new_event_document [OF new(1) that] table_invar_insert [OF inv] new(2)
    by (auto simp: table_events_def)
  show "\<exists>random now. new_event rt random (last_hash (table_events s)) input now = Inr ev"
    using new(1) inv pg_previous_hash_events by (auto simp: table_invar_def)
qed (auto simp: pg_query_refines pg_verify_refines dest: pg_append_Inl)

end
