(* ===== verification/Wire_Decoding.thy ===== *)
theory Wire_Decoding
  imports Wire_Types
begin

text \<open>
  The decoding of an agent facts document (\<open>json.Unmarshal\<close> into \<open>agentfacts.AgentFacts\<close>): the
  fields of each struct by their JSON names. A slice is decoded together with its backing array,
  so a target is a struct with the slices of its fields beside it. The theorem at the end says that
  the document \<open>json.Marshal\<close> prints of an \<open>AgentFacts\<close> value is decoded to that value.
\<close>

subsection \<open>Times\<close>

text \<open>\<open>Time.UnmarshalJSON\<close> reads what is between the quotes, without unquoting it.\<close>

definition dec_time :: "gotime decoder" where
  "dec_time old t =
     (if t = ''null'' then Some old
      else if 2 \<le> length t \<and> hd t = quote \<and> last t = quote then parse_time (butlast (tl t))
      else None)"

definition zero_time :: gotime where
  "zero_time = \<lparr>instant = 0, zone = 0\<rparr>"

subsection \<open>The structs\<close>

definition zero_endpoint :: endpoint where
  "zero_endpoint = \<lparr>ep_id = [], ep_type = [], ep_url = [], ep_protocol = [], ep_ttl_seconds = 0\<rparr>"

definition endpoint_fields :: "endpoint fields" where
  "endpoint_fields =
     [(''id'', on_field ep_id (\<lambda>v e. e\<lparr>ep_id := v\<rparr>) dec_string),
      (''type'', on_field ep_type (\<lambda>v e. e\<lparr>ep_type := v\<rparr>) dec_string),
      (''url'', on_field ep_url (\<lambda>v e. e\<lparr>ep_url := v\<rparr>) dec_string),
      (''protocol'', on_field ep_protocol (\<lambda>v e. e\<lparr>ep_protocol := v\<rparr>) dec_string),
      (''ttlSeconds'', on_field ep_ttl_seconds (\<lambda>v e. e\<lparr>ep_ttl_seconds := v\<rparr>) dec_uint)]"

type_synonym credential_target = "capability_credential \<times> string slice"

definition zero_credential :: credential_target where
  "zero_credential =
     (\<lparr>cred_id = [], cred_type = [], cred_issuer = [], cred_subject = [], cred_capabilities = None,
       cred_valid_from = zero_time, cred_valid_until = zero_time, cred_signature = []\<rparr>, NilSlice)"

definition on_fst :: "'a decoder \<Rightarrow> ('a \<times> 'b) decoder" where
  "on_fst dec = on_field fst (\<lambda>v p. (v, snd p)) dec"

definition on_snd :: "'b decoder \<Rightarrow> ('a \<times> 'b) decoder" where
  "on_snd dec = on_field snd (\<lambda>v p. (fst p, v)) dec"

definition credential_fields :: "credential_target fields" where
  "credential_fields =
     [(''id'', on_fst (on_field cred_id (\<lambda>v c. c\<lparr>cred_id := v\<rparr>) dec_string)),
      (''type'', on_fst (on_field cred_type (\<lambda>v c. c\<lparr>cred_type := v\<rparr>) dec_string)),
      (''issuer'', on_fst (on_field cred_issuer (\<lambda>v c. c\<lparr>cred_issuer := v\<rparr>) dec_string)),
      (''subject'', on_fst (on_field cred_subject (\<lambda>v c. c\<lparr>cred_subject := v\<rparr>) dec_string)),
      (''capabilities'', on_snd (dec_slice dec_string [])),
      (''validFrom'', on_fst (on_field cred_valid_from (\<lambda>v c. c\<lparr>cred_valid_from := v\<rparr>) dec_time)),
      (''validUntil'', on_fst (on_field cred_valid_until (\<lambda>v c. c\<lparr>cred_valid_until := v\<rparr>) dec_time)),
      (''signature'', on_fst (on_field cred_signature (\<lambda>v c. c\<lparr>cred_signature := v\<rparr>) dec_string))]"

definition credential_of :: "credential_target \<Rightarrow> capability_credential" where
  "credential_of t = (fst t)\<lparr>cred_capabilities := slice_option (snd t)\<rparr>"

type_synonym facts_target = "agent_facts \<times> string slice \<times> credential_target slice \<times> endpoint slice"

definition zero_facts :: facts_target where
  "zero_facts =
     (\<lparr>af_schema_version = [], af_id = [], af_controller = [], af_valid_from = zero_time,
       af_valid_until = zero_time, af_capabilities = [], af_credentials = [], af_endpoints = []\<rparr>,
      NilSlice, NilSlice, NilSlice)"

definition facts_fields :: "facts_target fields" where
  "facts_fields =
     [(''schemaVersion'', on_fst (on_field af_schema_version (\<lambda>v f. f\<lparr>af_schema_version := v\<rparr>) dec_string)),
      (''id'', on_fst (on_field af_id (\<lambda>v f. f\<lparr>af_id := v\<rparr>) dec_string)),
      (''controller'', on_fst (on_field af_controller (\<lambda>v f. f\<lparr>af_controller := v\<rparr>) dec_string)),
      (''validFrom'', on_fst (on_field af_valid_from (\<lambda>v f. f\<lparr>af_valid_from := v\<rparr>) dec_time)),
      (''validUntil'', on_fst (on_field af_valid_until (\<lambda>v f. f\<lparr>af_valid_until := v\<rparr>) dec_time)),
      (''capabilities'', on_snd (on_fst (dec_slice dec_string []))),
      (''credentials'',
        on_snd (on_snd (on_fst (dec_slice (dec_struct False credential_fields) zero_credential)))),
      (''endpoints'', on_snd (on_snd (on_snd (dec_slice (dec_struct False endpoint_fields) zero_endpoint))))]"

definition facts_of :: "facts_target \<Rightarrow> agent_facts" where
  "facts_of t =
     (case t of (f, caps, creds, eps) \<Rightarrow>
        f\<lparr>af_capabilities := slice_list caps, af_credentials := map credential_of (slice_list creds),
          af_endpoints := slice_list eps\<rparr>)"

text \<open>\<open>json.Unmarshal(document, &facts)\<close>: the text of the error, or the facts.\<close>

definition decode_facts :: "runtime \<Rightarrow> bytes \<Rightarrow> string + agent_facts" where
  "decode_facts rt document =
     (case unmarshal (dec_struct False facts_fields) zero_facts document of
        None \<Rightarrow> Inl (rt_json_error rt ''AgentFacts'' document)
      | Some t \<Rightarrow> Inr (facts_of t))"

subsection \<open>The document of an AgentFacts value\<close>

definition endpoint_json :: "endpoint \<Rightarrow> json" where
  "endpoint_json ep =
     JObj [(''id'', JStr (ep_id ep)), (''type'', JStr (ep_type ep)), (''url'', JStr (ep_url ep)),
           (''protocol'', JStr (ep_protocol ep)), (''ttlSeconds'', json_nat (unat (ep_ttl_seconds ep)))]"

definition credential_json :: "capability_credential \<Rightarrow> json" where
  "credential_json c =
     JObj [(''id'', JStr (cred_id c)), (''type'', JStr (cred_type c)), (''issuer'', JStr (cred_issuer c)),
           (''subject'', JStr (cred_subject c)), (''capabilities'', json_slice (cred_capabilities c)),
           (''validFrom'', json_time (cred_valid_from c)), (''validUntil'', json_time (cred_valid_until c)),
           (''signature'', JStr (cred_signature c))]"

definition facts_json :: "agent_facts \<Rightarrow> json" where
  "facts_json f =
     JObj ([(''schemaVersion'', JStr (af_schema_version f)), (''id'', JStr (af_id f)),
            (''controller'', JStr (af_controller f)), (''validFrom'', json_time (af_valid_from f)),
            (''validUntil'', json_time (af_valid_until f)), (''capabilities'', json_strings (af_capabilities f))]
           @ (if af_credentials f = [] then []
              else [(''credentials'', JArr (map credential_json (af_credentials f)))])
           @ [(''endpoints'', JArr (map endpoint_json (af_endpoints f)))])"

subsection \<open>Reading the document back\<close>

lemma plain_digits: "list_all is_digit s \<Longrightarrow> list_all plain_char s"
  by (auto simp: list_all_iff is_digit_def plain_char_def byte_in_def)

lemma plain_pad [simp]: "0 \<le> i \<Longrightarrow> list_all plain_char (pad_digits w i)"
  using digits_of_ok [of "nat i"] plain_digits [of "digits_of (nat i)"]
  by (auto simp: pad_digits_def Let_def list_all_iff plain_char_def byte_in_def)

lemma plain_zone [simp]: "list_all plain_char (zone_suffix off)"
  by (simp add: zone_suffix_def Let_def plain_char_def byte_in_def)

lemma plain_format:
  assumes "time_marshal_error t = None"
  shows "list_all plain_char (format_rfc3339_nano t)"
proof -
  obtain y m d where civil: "civil_of_days (local_seconds t div 86400) = (y, m, d)"
    by (cases "civil_of_days (local_seconds t div 86400)")
  have "0 \<le> y" using assms civil by (simp add: time_marshal_error_def split: if_splits)
  moreover have "list_all plain_char (drop_zeros (pad_digits 9 (instant t mod nanos_per_second)))"
    using plain_pad [of "instant t mod nanos_per_second" 9]
    by (auto simp: drop_zeros_def list_all_iff nanos_per_second_def dest: set_dropWhileD)
  ultimately show ?thesis
    using days_civil [OF civil]
    by (simp add: format_rfc3339_nano_def format_with_def civil Let_def plain_char_def byte_in_def)
qed

definition time_ok :: "gotime \<Rightarrow> bool" where
  "time_ok t \<longleftrightarrow> time_marshal_error t = None \<and> zone t mod 60 = 0"

lemma dec_time_marshal:
  assumes "time_ok t"
  shows "dec_time old (marshal (json_time t)) = Some t"
  using json_string_plain [OF plain_format [of t]] parse_format [of t] assms
  by (simp add: time_ok_def json_time_def dec_time_def parse_time_def quote_def)

text \<open>The documents here have at most six levels.\<close>

lemma max_nesting_six: "Suc (Suc (Suc (Suc (Suc 0)))) \<le> max_nesting"
  by (simp add: max_nesting_def)

lemmas dec_struct_printed = dec_struct_marshal [OF _ max_nesting_six]

lemmas dec_slice_printed = dec_slice_marshal [OF _ max_nesting_six]

lemmas decode_struct_simps = dec_struct_printed on_fst_def on_snd_def on_field_def find_field_def
  zero_endpoint_def zero_credential_def zero_facts_def dec_time_marshal utf8_def

lemma plain_strings [simp]: "plain_at (Suc d) (json_strings xs)"
  by (simp add: json_strings_def list_all_iff)

lemma plain_time [simp]: "plain_at d (json_time t)"
  by (simp add: json_time_def)

definition endpoint_ok :: "endpoint \<Rightarrow> bool" where
  "endpoint_ok ep \<longleftrightarrow> utf8 (ep_id ep) \<and> utf8 (ep_type ep) \<and> utf8 (ep_url ep) \<and> utf8 (ep_protocol ep)"

lemma plain_endpoint [simp]: "plain_at (Suc d) (endpoint_json ep)"
  by (simp add: endpoint_json_def)

lemma decode_endpoint:
  assumes "endpoint_ok ep"
  shows "dec_struct False endpoint_fields zero_endpoint (marshal (endpoint_json ep)) = Some ep"
proof -
  have "unat (ep_ttl_seconds ep) < 2 ^ LENGTH(16)" by (rule unsigned_less)
  then show ?thesis
    using assms
    by (simp add: endpoint_json_def endpoint_ok_def endpoint_fields_def decode_struct_simps del: marshal.simps)
qed

lemma decode_strings:
  assumes "\<forall>x \<in> set xs. utf8 x"
  shows "dec_slice dec_string [] NilSlice (marshal (json_strings xs)) = Some (Slice xs (length xs))"
proof -
  have "plain_at (Suc (Suc (Suc (Suc (Suc (Suc 0)))))) (JArr (map JStr xs))" by (simp add: list_all_iff)
  moreover have "list_all2 (\<lambda>x v. dec_string [] (marshal x) = Some v) (map JStr xs) xs"
    using assms by (auto simp: list_all2_map1 utf8_def intro!: list.rel_refl_strong simp del: marshal.simps)
  ultimately show ?thesis unfolding json_strings_def by (rule dec_slice_printed)
qed

definition credential_ok :: "capability_credential \<Rightarrow> bool" where
  "credential_ok c \<longleftrightarrow>
     utf8 (cred_id c) \<and> utf8 (cred_type c) \<and> utf8 (cred_issuer c) \<and> utf8 (cred_subject c)
     \<and> utf8 (cred_signature c) \<and> (\<forall>caps. cred_capabilities c = Some caps \<longrightarrow> (\<forall>x \<in> set caps. utf8 x))
     \<and> time_ok (cred_valid_from c) \<and> time_ok (cred_valid_until c)"

definition caps_slice :: "string list option \<Rightarrow> string slice" where
  "caps_slice caps = (case caps of None \<Rightarrow> NilSlice | Some xs \<Rightarrow> Slice xs (length xs))"

lemma decode_caps:
  assumes "\<forall>xs. caps = Some xs \<longrightarrow> (\<forall>x \<in> set xs. utf8 x)"
  shows "dec_slice dec_string [] NilSlice (marshal (json_slice caps)) = Some (caps_slice caps)"
proof (cases caps)
  case None
  then show ?thesis by (simp add: json_slice_def caps_slice_def dec_slice_def)
next
  case (Some xs)
  with assms decode_strings [of xs] show ?thesis by (simp add: json_slice_def caps_slice_def)
qed

lemma plain_slice [simp]: "plain_at (Suc d) (json_slice caps)"
  by (simp add: json_slice_def split: option.split)

lemma plain_credential [simp]: "plain_at (Suc (Suc d)) (credential_json c)"
  by (simp add: credential_json_def)

lemma decode_credential:
  assumes "credential_ok c"
  shows "dec_struct False credential_fields zero_credential (marshal (credential_json c))
    = Some (c\<lparr>cred_capabilities := None\<rparr>, caps_slice (cred_capabilities c))"
proof -
  have caps: "dec_slice dec_string [] NilSlice (marshal (json_slice (cred_capabilities c))) = Some (caps_slice (cred_capabilities c))"
    by (rule decode_caps) (use assms in \<open>simp add: credential_ok_def\<close>)
  then show ?thesis
    using assms
    by (simp add: credential_json_def credential_ok_def credential_fields_def decode_struct_simps del: marshal.simps)
qed

definition facts_ok :: "agent_facts \<Rightarrow> bool" where
  "facts_ok f \<longleftrightarrow>
     utf8 (af_schema_version f) \<and> utf8 (af_id f) \<and> utf8 (af_controller f)
     \<and> time_ok (af_valid_from f) \<and> time_ok (af_valid_until f)
     \<and> (\<forall>x \<in> set (af_capabilities f). utf8 x) \<and> (\<forall>c \<in> set (af_credentials f). credential_ok c)
     \<and> (\<forall>ep \<in> set (af_endpoints f). endpoint_ok ep)"

lemma decode_credentials:
  assumes "\<forall>c \<in> set cs. credential_ok c"
  shows "dec_slice (dec_struct False credential_fields) zero_credential NilSlice
      (marshal (JArr (map credential_json cs)))
    = Some (Slice (map (\<lambda>c. (c\<lparr>cred_capabilities := None\<rparr>, caps_slice (cred_capabilities c))) cs) (length cs))"
proof -
  have "plain_at (Suc (Suc (Suc (Suc (Suc (Suc 0)))))) (JArr (map credential_json cs))" by (simp add: list_all_iff)
  moreover have "list_all2 (\<lambda>x v. dec_struct False credential_fields zero_credential (marshal x) = Some v)
      (map credential_json cs) (map (\<lambda>c. (c\<lparr>cred_capabilities := None\<rparr>, caps_slice (cred_capabilities c))) cs)"
    using assms by (auto simp: list_all2_map1 list_all2_map2 decode_credential intro!: list.rel_refl_strong)
  ultimately show ?thesis using dec_slice_printed by fastforce
qed

lemma decode_endpoints:
  assumes "\<forall>ep \<in> set eps. endpoint_ok ep"
  shows "dec_slice (dec_struct False endpoint_fields) zero_endpoint NilSlice (marshal (JArr (map endpoint_json eps)))
    = Some (Slice eps (length eps))"
proof -
  have "plain_at (Suc (Suc (Suc (Suc (Suc (Suc 0)))))) (JArr (map endpoint_json eps))" by (simp add: list_all_iff)
  moreover have "list_all2 (\<lambda>x v. dec_struct False endpoint_fields zero_endpoint (marshal x) = Some v)
      (map endpoint_json eps) eps"
    using assms by (auto simp: list_all2_map1 decode_endpoint intro!: list.rel_refl_strong)
  ultimately show ?thesis by (rule dec_slice_printed)
qed

lemma credential_of_decoded:
  "credential_of (c\<lparr>cred_capabilities := None\<rparr>, caps_slice (cred_capabilities c)) = c"
  by (cases "cred_capabilities c") (simp_all add: credential_of_def caps_slice_def slice_option_def)

lemma plain_facts [simp]: "plain_at (Suc (Suc (Suc (Suc d)))) (facts_json f)"
  by (simp add: facts_json_def list_all_iff)

lemma facts_decoded:
  assumes "facts_ok f"
  shows "decode_facts rt (marshal (facts_json f)) = Inr f"
proof -
  have dec: "dec_slice dec_string [] NilSlice (marshal (json_strings (af_capabilities f)))
      = Some (Slice (af_capabilities f) (length (af_capabilities f)))"
    "dec_slice (dec_struct False credential_fields) zero_credential NilSlice
        (marshal (JArr (map credential_json (af_credentials f))))
      = Some (Slice (map (\<lambda>c. (c\<lparr>cred_capabilities := None\<rparr>, caps_slice (cred_capabilities c))) (af_credentials f))
          (length (af_credentials f)))"
    "dec_slice (dec_struct False endpoint_fields) zero_endpoint NilSlice
        (marshal (JArr (map endpoint_json (af_endpoints f))))
      = Some (Slice (af_endpoints f) (length (af_endpoints f)))"
    using assms decode_strings decode_credentials decode_endpoints unfolding facts_ok_def by blast+
  have depth: "plain_at (Suc (Suc (Suc (Suc (Suc (Suc 0)))))) (facts_json f)"
    by (rule plain_facts)
  obtain t where t: "dec_struct False facts_fields zero_facts (marshal (facts_json f)) = Some t"
    and f: "facts_of t = f"
  proof (cases "af_credentials f = []")
    case True
    show thesis
      by (rule that) (use True dec assms depth in \<open>simp add: facts_json_def facts_ok_def facts_fields_def
          decode_struct_simps facts_of_def slice_list_def del: marshal.simps\<close>)+
  next
    case False
    show thesis
      by (rule that) (use False dec assms depth in \<open>simp add: facts_json_def facts_ok_def facts_fields_def
          decode_struct_simps facts_of_def slice_list_def credential_of_decoded comp_def del: marshal.simps\<close>)+
  qed
  have "unmarshal (dec_struct False facts_fields) zero_facts (marshal (facts_json f))
      = dec_struct False facts_fields zero_facts (marshal (facts_json f))"
    by (rule unmarshal_marshal [OF plain_facts [of 0]]) (simp add: max_nesting_def)
  with t have "unmarshal (dec_struct False facts_fields) zero_facts (marshal (facts_json f)) = Some t" by simp
  then show ?thesis by (simp add: decode_facts_def f)
qed

end
