(* ===== verification/Agent_Facts.thy ===== *)
theory Agent_Facts
  imports Agent_Addr Wire_Decoding
begin

text \<open>
  \<open>internal/agentfacts\<close>: validation of an AgentFacts document (\<open>Validate\<close>,
  \<open>validateEndpoint\<close>) and the commitment to its credentials that the signed record carries
  (\<open>CredentialSetHash128\<close>). The lemmas say exactly which documents validate, and that the
  commitment does not depend on the order of the credentials or of their capabilities.
\<close>

subsection \<open>Validation\<close>

definition schema_version_v0 :: string where
  "schema_version_v0 = ''nanda.agentfacts.v0''"

definition endpoint_type_static :: string where
  "endpoint_type_static = ''static''"

definition endpoint_type_rotating :: string where
  "endpoint_type_rotating = ''rotating''"

definition endpoint_type_adaptive_resolver :: string where
  "endpoint_type_adaptive_resolver = ''adaptiveResolver''"

definition agent_capability_credential :: string where
  "agent_capability_credential = ''AgentCapabilityCredential''"

definition is_supported_endpoint_type :: "string \<Rightarrow> bool" where
  "is_supported_endpoint_type t \<longleftrightarrow>
     t = endpoint_type_static \<or> t = endpoint_type_rotating \<or> t = endpoint_type_adaptive_resolver"

definition validate_endpoint :: "endpoint \<Rightarrow> agentfacts_err option" where
  "validate_endpoint ep =
     (if trim_space (ep_id ep) = [] then Some AF_ErrEmptyEndpointID
      else if \<not> is_supported_endpoint_type (ep_type ep) then Some AF_ErrUnsupportedEndpointType
      else if ep_protocol ep \<noteq> ''https'' then Some AF_ErrUnsupportedProtocol
      else case parse_request_uri (ep_url ep) of
        None \<Rightarrow> Some AF_ErrInvalidEndpointURL
      | Some (scheme, host) \<Rightarrow>
          if scheme \<noteq> ''https'' \<or> host = [] then Some AF_ErrInvalidEndpointURL
          else if ep_ttl_seconds ep = 0 then Some AF_ErrZeroEndpointTTL
          else None)"

definition facts_error :: "string \<Rightarrow> agentfacts_err \<Rightarrow> goerr" where
  "facts_error field e = FactsValidationError field (Sentinel (AgentFacts e))"

fun validate_endpoints :: "nat \<Rightarrow> endpoint list \<Rightarrow> goerr option" where
  "validate_endpoints i [] = None"
| "validate_endpoints i (ep # eps) =
     (case validate_endpoint ep of
        Some e \<Rightarrow> Some (facts_error (''endpoints['' @ digits_of i @ '']'') e)
      | None \<Rightarrow> validate_endpoints (Suc i) eps)"

definition validate_facts ::
  "runtime \<Rightarrow> agent_facts \<Rightarrow> string \<Rightarrow> string \<Rightarrow> gotime \<Rightarrow> goerr option" where
  "validate_facts rt facts requested_agent_id required_capability now =
     (if af_schema_version facts \<noteq> schema_version_v0
      then Some (facts_error ''schemaVersion'' AF_ErrInvalidSchemaVersion)
      else case normalize_agent_id rt requested_agent_id of
        Inl e \<Rightarrow> Some (FactsValidationError ''id'' e)
      | Inr normalized_requested \<Rightarrow>
        (case normalize_agent_id rt (af_id facts) of
           Inl e \<Rightarrow> Some (FactsValidationError ''id'' e)
         | Inr normalized_facts \<Rightarrow>
           if normalized_facts \<noteq> normalized_requested then Some (facts_error ''id'' AF_ErrAgentIDMismatch)
           else if trim_space (af_controller facts) = [] then Some (facts_error ''controller'' AF_ErrEmptyController)
           else if time_after (af_valid_from facts) now then Some (facts_error ''validFrom'' AF_ErrNotYetValid)
           else if \<not> time_after (af_valid_until facts) now then Some (facts_error ''validUntil'' AF_ErrExpired)
           else if required_capability \<noteq> [] \<and> required_capability \<notin> set (af_capabilities facts)
           then Some (facts_error ''capabilities'' AF_ErrMissingRequiredCapability)
           else if af_endpoints facts = [] then Some (facts_error ''endpoints'' AF_ErrNoEndpoints)
           else validate_endpoints 0 (af_endpoints facts)))"

text \<open>What \<open>Validate\<close> is for, as one condition on the document.\<close>

definition endpoint_valid :: "endpoint \<Rightarrow> bool" where
  "endpoint_valid ep \<longleftrightarrow>
     trim_space (ep_id ep) \<noteq> [] \<and> is_supported_endpoint_type (ep_type ep)
     \<and> ep_protocol ep = ''https'' \<and> 0 < ep_ttl_seconds ep
     \<and> (\<exists>host. host \<noteq> [] \<and> parse_request_uri (ep_url ep) = Some (''https'', host))"

definition facts_valid_for ::
  "runtime \<Rightarrow> agent_facts \<Rightarrow> string \<Rightarrow> string \<Rightarrow> gotime \<Rightarrow> bool" where
  "facts_valid_for rt facts agent capability now \<longleftrightarrow>
     af_schema_version facts = schema_version_v0
     \<and> (\<exists>n. normalize_agent_id rt agent = Inr n \<and> normalize_agent_id rt (af_id facts) = Inr n)
     \<and> trim_space (af_controller facts) \<noteq> []
     \<and> instant (af_valid_from facts) \<le> instant now \<and> instant now < instant (af_valid_until facts)
     \<and> (capability = [] \<or> capability \<in> set (af_capabilities facts))
     \<and> af_endpoints facts \<noteq> [] \<and> list_all (endpoint_valid) (af_endpoints facts)"

lemma validate_endpoint_iff: "validate_endpoint ep = None \<longleftrightarrow> endpoint_valid ep"
  by (auto simp: validate_endpoint_def endpoint_valid_def word_gt_0 split: option.splits)

lemma validate_endpoints_iff: "validate_endpoints i eps = None \<longleftrightarrow> list_all (endpoint_valid) eps"
  by (induction eps arbitrary: i) (auto simp: validate_endpoint_iff [symmetric] split: option.splits)

lemma validate_facts_iff:
  "validate_facts rt facts agent capability now = None \<longleftrightarrow> facts_valid_for rt facts agent capability now"
  by (auto simp: validate_facts_def facts_valid_for_def validate_endpoints_iff time_after_def not_less
      split: sum.splits if_splits)

lemma validate_endpoints_is:
  "validate_endpoints i eps = Some e \<Longrightarrow>
   err_is e (AgentFacts AF_ErrValidation) \<and> \<not> err_is e (Resolver s)"
  by (induction eps arbitrary: i) (auto simp: facts_error_def split: option.splits)

lemma normalize_err_is:
  "normalize_agent_id rt s = Inl e \<Longrightarrow> \<not> err_is e (Resolver x) \<and> \<not> err_is e (AgentFacts y)"
  by (auto simp: normalize_agent_id_def Let_def split: if_splits)

lemma validate_facts_is:
  "validate_facts rt facts agent capability now = Some e \<Longrightarrow>
   err_is e (AgentFacts AF_ErrValidation) \<and> \<not> err_is e (Resolver s)"
  by (auto simp: validate_facts_def facts_error_def validate_endpoints_is
      dest: normalize_err_is split: sum.splits if_splits)

subsection \<open>The credential-set commitment\<close>

text \<open>A credential as \<open>credentialSetHashCredential\<close>: the sorted copy of an empty or nil slice
  is nil.\<close>

definition sorted_capabilities :: "string list option \<Rightarrow> string list option" where
  "sorted_capabilities caps =
     (case caps of None \<Rightarrow> None | Some cs \<Rightarrow> if cs = [] then None else Some (sort cs))"

definition canonical_credential :: "capability_credential \<Rightarrow> capability_credential" where
  "canonical_credential c = c\<lparr>cred_capabilities := sorted_capabilities (cred_capabilities c)\<rparr>"

definition marshal_credential :: "capability_credential \<Rightarrow> goerr + string" where
  "marshal_credential c =
     (case times_marshal_error [cred_valid_from c, cred_valid_until c] of
        Some m \<Rightarrow> Inl (ErrNew m)
      | None \<Rightarrow> Inr (marshal (credential_json c)))"

text \<open>The loop over the credentials: each canonical credential with its encoding.\<close>

fun marshal_credentials ::
  "capability_credential list \<Rightarrow> goerr + (capability_credential \<times> string) list" where
  "marshal_credentials [] = Inr []"
| "marshal_credentials (c # cs) =
     (case marshal_credential (canonical_credential c) of
        Inl e \<Rightarrow> Inl e
      | Inr encoded \<Rightarrow>
          (case marshal_credentials cs of
             Inl e \<Rightarrow> Inl e
           | Inr rest \<Rightarrow> Inr ((canonical_credential c, encoded) # rest)))"

definition canonical_set_bytes :: "(capability_credential \<times> string) list \<Rightarrow> bytes" where
  "canonical_set_bytes ms = marshal (JArr (map (credential_json \<circ> fst) (sort_key snd ms)))"

definition credential_set_hash128 :: "capability_credential list \<Rightarrow> goerr + 128 word" where
  "credential_set_hash128 credentials =
     (if credentials = [] then Inr (hash128 [])
      else case marshal_credentials credentials of
        Inl e \<Rightarrow> Inl e
      | Inr ms \<Rightarrow> Inr (hash128 (canonical_set_bytes ms)))"

lemma marshal_credential_Inr:
  "marshal_credential c = Inr e \<Longrightarrow> e = marshal (credential_json c)"
  by (simp add: marshal_credential_def split: option.splits)

lemma marshal_credentials_iff:
  "marshal_credentials cs = Inr ms \<longleftrightarrow>
     list_all (\<lambda>c. is_inr (marshal_credential (canonical_credential c))) cs
     \<and> ms = map (\<lambda>c. (canonical_credential c, marshal (credential_json (canonical_credential c)))) cs"
proof (induction cs arbitrary: ms)
  case (Cons c cs)
  show ?case
  proof (cases "marshal_credential (canonical_credential c)")
    case (Inr e)
    then have "e = marshal (credential_json (canonical_credential c))"
      by (rule marshal_credential_Inr)
    with Inr Cons.IH show ?thesis
      by (cases "marshal_credentials cs") auto
  qed simp
qed auto

text \<open>The committed bytes are the sorted encodings, so equal encodings can stand in any order.\<close>

lemma canonical_set_bytes_eq:
  assumes "marshal_credentials cs = Inr ms"
  shows "canonical_set_bytes ms
         = ''['' @ join '','' (sort (map (\<lambda>c. marshal (credential_json (canonical_credential c))) cs)) @ '']''"
proof -
  have ms: "\<forall>m \<in> set ms. snd m = marshal (credential_json (fst m))"
    and snds: "map snd ms = map (\<lambda>c. marshal (credential_json (canonical_credential c))) cs"
    using assms by (auto simp: marshal_credentials_iff)
  have "map (marshal \<circ> (credential_json \<circ> fst)) (sort_key snd ms) = map snd (sort_key snd ms)"
    using ms by simp
  also have "\<dots> = sort (map snd ms)"
    by (rule properties_for_sort [symmetric]) simp_all
  finally show ?thesis
    by (simp add: canonical_set_bytes_def snds)
qed

lemma credential_set_hash_perm:
  assumes "credential_set_hash128 cs = Inr h"
    and same: "image_mset canonical_credential (mset cs) = image_mset canonical_credential (mset ds)"
  shows "credential_set_hash128 ds = Inr h"
proof (cases "cs = []")
  case True
  with same have "ds = []" by simp
  with True assms(1) show ?thesis by simp
next
  case False
  let ?enc = "\<lambda>c. marshal (credential_json c)"
  from same False have ds: "ds \<noteq> []" by auto
  from False assms(1) obtain ms where ms: "marshal_credentials cs = Inr ms"
    and h: "h = hash128 (canonical_set_bytes ms)"
    by (auto simp: credential_set_hash128_def split: sum.splits)
  have "canonical_credential ` set cs = canonical_credential ` set ds"
    using same by (metis set_image_mset set_mset_mset)
  moreover have "\<forall>c \<in> canonical_credential ` set cs. is_inr (marshal_credential c)"
    using ms by (auto simp: marshal_credentials_iff list_all_iff)
  ultimately have "list_all (\<lambda>c. is_inr (marshal_credential (canonical_credential c))) ds"
    by (auto simp: list_all_iff)
  then obtain ms' where ms': "marshal_credentials ds = Inr ms'"
    by (simp add: marshal_credentials_iff)
  have "image_mset ?enc (image_mset canonical_credential (mset cs))
        = image_mset ?enc (image_mset canonical_credential (mset ds))"
    by (simp only: same)
  then have "sort (map (\<lambda>c. ?enc (canonical_credential c)) cs)
             = sort (map (\<lambda>c. ?enc (canonical_credential c)) ds)"
    by (intro sort_perm_eq) (simp add: image_mset.compositionality comp_def)
  then have "canonical_set_bytes ms = canonical_set_bytes ms'"
    by (simp add: canonical_set_bytes_eq [OF ms] canonical_set_bytes_eq [OF ms'])
  with ds ms' h show ?thesis by (simp add: credential_set_hash128_def)
qed

lemma sorted_capabilities_perm:
  "mset cs = mset ds \<Longrightarrow> sorted_capabilities (Some cs) = sorted_capabilities (Some ds)"
  by (auto simp: sorted_capabilities_def intro: sort_perm_eq)

end
