(* ===== verification/Revocation_Store.thy ===== *)
theory Revocation_Store
  imports Wire_Types
begin

text \<open>
  \<open>internal/revocation\<close>: the status records of credentials. \<open>memory_*\<close> is \<open>MemoryStore\<close>,
  a map from (issuer, credential id) to records; \<open>pg_*\<close> is \<open>PostgresStore\<close>, a table of rows
  with a nullable reason, each statement taking the error the database may return. The locale
  \<open>revocation_store\<close> is the \<open>Store\<close> interface with what its clients rely on; both stores are
  instances of it, and its lemmas say what a credential's status is after any run of updates.
\<close>

definition status_active :: string where
  "status_active = ''active''"

definition status_revoked :: string where
  "status_revoked = ''revoked''"

record revocation_record =
  rv_issuer :: string
  rv_credential_id :: string
  rv_status :: string
  rv_reason :: string
  rv_updated_at :: gotime

definition rv_validate_key :: "string \<Rightarrow> string \<Rightarrow> goerr option" where
  "rv_validate_key issuer credential_id =
     (if issuer = [] then Some (sentinel_err (Revocation RV_ErrInvalidInput) ''issuer is required'')
      else if credential_id = []
      then Some (sentinel_err (Revocation RV_ErrInvalidInput) ''credential id is required'')
      else None)"

definition rv_validate_status :: "runtime \<Rightarrow> string \<Rightarrow> goerr option" where
  "rv_validate_status rt status =
     (if status = status_active \<or> status = status_revoked then None
      else Some (sentinel_err (Revocation RV_ErrInvalidInput) (''unsupported status '' @ quote_text (rt_printable rt) status)))"

subsection \<open>The memory store\<close>

type_synonym revocation_map = "string \<times> string \<Rightarrow> revocation_record option"

definition memory_set_status ::
  "runtime \<Rightarrow> gotime \<Rightarrow> revocation_map \<Rightarrow> string \<Rightarrow> string \<Rightarrow> string \<Rightarrow> string \<Rightarrow> goerr option \<times> revocation_map"
  where
  "memory_set_status rt now store issuer credential_id status reason =
     (case rv_validate_key issuer credential_id of
        Some e \<Rightarrow> (Some e, store)
      | None \<Rightarrow>
        (case rv_validate_status rt status of
           Some e \<Rightarrow> (Some e, store)
         | None \<Rightarrow>
             (None, store((issuer, credential_id) \<mapsto>
                \<lparr>rv_issuer = issuer, rv_credential_id = credential_id, rv_status = status,
                 rv_reason = reason, rv_updated_at = time_utc now\<rparr>))))"

definition memory_get_status ::
  "revocation_map \<Rightarrow> string \<Rightarrow> string \<Rightarrow> goerr + revocation_record" where
  "memory_get_status store issuer credential_id =
     (case rv_validate_key issuer credential_id of
        Some e \<Rightarrow> Inl e
      | None \<Rightarrow>
        (case store (issuer, credential_id) of
           None \<Rightarrow> Inl (Sentinel (Revocation RV_ErrNotFound))
         | Some r \<Rightarrow> Inr r))"

definition memory_is_revoked :: "revocation_map \<Rightarrow> string \<Rightarrow> string \<Rightarrow> goerr + bool" where
  "memory_is_revoked store issuer credential_id =
     (case memory_get_status store issuer credential_id of
        Inl e \<Rightarrow> if err_is e (Revocation RV_ErrNotFound) then Inr False else Inl e
      | Inr r \<Rightarrow> Inr (rv_status r = status_revoked))"

subsection \<open>The Postgres store\<close>

record pg_revocation =
  row_status :: string
  row_reason :: "string option"
  row_updated_at :: gotime

type_synonym revocation_table = "string \<times> string \<Rightarrow> pg_revocation option"

definition pg_set_status ::
  "runtime \<Rightarrow> db_error option \<Rightarrow> gotime \<Rightarrow> revocation_table \<Rightarrow> string \<Rightarrow> string \<Rightarrow> string \<Rightarrow> string
     \<Rightarrow> goerr option \<times> revocation_table" where
  "pg_set_status rt fault now table issuer credential_id status reason =
     (case rv_validate_key issuer credential_id of
        Some e \<Rightarrow> (Some e, table)
      | None \<Rightarrow>
        (case rv_validate_status rt status of
           Some e \<Rightarrow> (Some e, table)
         | None \<Rightarrow>
           (case fault of
              Some e \<Rightarrow> (Some (wrap_err ''upsert credential revocation'' (ErrNew e)), table)
            | None \<Rightarrow>
                (None, table((issuer, credential_id) \<mapsto>
                   \<lparr>row_status = status, row_reason = null_string reason, row_updated_at = now\<rparr>)))))"

definition scan_revocation :: "string \<Rightarrow> string \<Rightarrow> pg_revocation \<Rightarrow> revocation_record" where
  "scan_revocation issuer credential_id row =
     \<lparr>rv_issuer = issuer, rv_credential_id = credential_id, rv_status = row_status row,
      rv_reason = null_string_value (row_reason row), rv_updated_at = row_updated_at row\<rparr>"

definition pg_get_status ::
  "db_error option \<Rightarrow> revocation_table \<Rightarrow> string \<Rightarrow> string \<Rightarrow> goerr + revocation_record" where
  "pg_get_status fault table issuer credential_id =
     (case rv_validate_key issuer credential_id of
        Some e \<Rightarrow> Inl e
      | None \<Rightarrow>
        (case fault of
           Some e \<Rightarrow> Inl (wrap_err ''get credential revocation'' (ErrNew e))
         | None \<Rightarrow>
           (case table (issuer, credential_id) of
              None \<Rightarrow> Inl (Sentinel (Revocation RV_ErrNotFound))
            | Some row \<Rightarrow> Inr (scan_revocation issuer credential_id row))))"

definition pg_is_revoked :: "db_error option \<Rightarrow> revocation_table \<Rightarrow> string \<Rightarrow> string \<Rightarrow> goerr + bool" where
  "pg_is_revoked fault table issuer credential_id =
     (case pg_get_status fault table issuer credential_id of
        Inl e \<Rightarrow> if err_is e (Revocation RV_ErrNotFound) then Inr False else Inl e
      | Inr r \<Rightarrow> Inr (rv_status r = status_revoked))"

subsection \<open>The interface\<close>

text \<open>An update that every store accepts.\<close>

definition status_update_ok :: "string \<Rightarrow> string \<Rightarrow> string \<Rightarrow> bool" where
  "status_update_ok issuer credential_id status \<longleftrightarrow>
     issuer \<noteq> [] \<and> credential_id \<noteq> [] \<and> (status = status_active \<or> status = status_revoked)"

record status_update =
  su_now :: gotime
  su_issuer :: string
  su_credential_id :: string
  su_status :: string
  su_reason :: string

text \<open>The specification of a run: the last accepted update of the credential counts.\<close>

fun latest_status :: "status_update list \<Rightarrow> string \<Rightarrow> string \<Rightarrow> string option" where
  "latest_status [] issuer credential_id = None"
| "latest_status (u # us) issuer credential_id =
     (case latest_status us issuer credential_id of
        Some s \<Rightarrow> Some s
      | None \<Rightarrow>
          if su_issuer u = issuer \<and> su_credential_id u = credential_id
             \<and> status_update_ok issuer credential_id (su_status u)
          then Some (su_status u) else None)"

locale revocation_store =
  fixes set_status :: "gotime \<Rightarrow> 's \<Rightarrow> string \<Rightarrow> string \<Rightarrow> string \<Rightarrow> string \<Rightarrow> goerr option \<times> 's"
    and get_status :: "'s \<Rightarrow> string \<Rightarrow> string \<Rightarrow> goerr + revocation_record"
    and is_revoked :: "'s \<Rightarrow> string \<Rightarrow> string \<Rightarrow> goerr + bool"
  assumes set_accepts: "fst (set_status now s i c st r) = None \<longleftrightarrow> status_update_ok i c st"
    and set_rejects: "\<not> status_update_ok i c st \<Longrightarrow> snd (set_status now s i c st r) = s"
    and get_set_same: "status_update_ok i c st \<Longrightarrow>
      \<exists>t. get_status (snd (set_status now s i c st r)) i c
          = Inr \<lparr>rv_issuer = i, rv_credential_id = c, rv_status = st, rv_reason = r, rv_updated_at = t\<rparr>"
    and get_set_other: "(i', c') \<noteq> (i, c) \<Longrightarrow>
      get_status (snd (set_status now s i c st r)) i' c' = get_status s i' c'"
    and is_revoked_get: "is_revoked s i c =
      (case get_status s i c of
         Inl e \<Rightarrow> if err_is e (Revocation RV_ErrNotFound) then Inr False else Inl e
       | Inr rec \<Rightarrow> Inr (rv_status rec = status_revoked))"
begin

lemma is_revoked_set_same:
  "status_update_ok i c st \<Longrightarrow>
   is_revoked (snd (set_status now s i c st r)) i c = Inr (st = status_revoked)"
  using get_set_same [of i c st now s r] by (auto simp: is_revoked_get)

lemma is_revoked_set_other:
  "(i', c') \<noteq> (i, c) \<Longrightarrow> is_revoked (snd (set_status now s i c st r)) i' c' = is_revoked s i' c'"
  by (simp add: is_revoked_get get_set_other)

definition run_updates :: "'s \<Rightarrow> status_update list \<Rightarrow> 's" where
  "run_updates s us =
     foldl (\<lambda>s u. snd (set_status (su_now u) s (su_issuer u) (su_credential_id u) (su_status u) (su_reason u))) s us"

lemma is_revoked_step:
  "is_revoked (snd (set_status (su_now u) s (su_issuer u) (su_credential_id u) (su_status u) (su_reason u))) i c =
     (if su_issuer u = i \<and> su_credential_id u = c \<and> status_update_ok i c (su_status u)
      then Inr (su_status u = status_revoked) else is_revoked s i c)"
proof (cases "su_issuer u = i \<and> su_credential_id u = c")
  case True
  then show ?thesis
    by (cases "status_update_ok i c (su_status u)") (auto simp: is_revoked_set_same set_rejects)
next
  case False
  then show ?thesis by (auto simp: is_revoked_set_other)
qed

lemma is_revoked_run:
  "is_revoked (run_updates s us) i c =
     (case latest_status us i c of
        Some st \<Rightarrow> Inr (st = status_revoked)
      | None \<Rightarrow> is_revoked s i c)"
proof (induction us arbitrary: s)
  case (Cons u us)
  show ?case
    using Cons.IH [of "snd (set_status (su_now u) s (su_issuer u) (su_credential_id u) (su_status u) (su_reason u))"]
    by (auto simp: run_updates_def is_revoked_step is_revoked_set_same split: option.splits)
qed (simp add: run_updates_def)

end

lemma rv_validate_ok:
  "rv_validate_key i c = None \<and> rv_validate_status rt st = None \<longleftrightarrow> status_update_ok i c st"
  by (auto simp: rv_validate_key_def rv_validate_status_def status_update_ok_def)

lemma rv_validate_key_none: "rv_validate_key i c = None \<longleftrightarrow> i \<noteq> [] \<and> c \<noteq> []"
  by (auto simp: rv_validate_key_def)

lemma rv_validate_status_none:
  "rv_validate_status rt st = None \<longleftrightarrow> st = status_active \<or> st = status_revoked"
  by (auto simp: rv_validate_status_def)

lemma rv_validate_is:
  "rv_validate_key i c = Some e \<Longrightarrow> err_is e (Revocation RV_ErrInvalidInput)"
  "rv_validate_status rt st = Some e \<Longrightarrow> err_is e (Revocation RV_ErrInvalidInput)"
  by (auto simp: rv_validate_key_def rv_validate_status_def split: if_splits)

lemmas revocation_defs = rv_validate_key_def rv_validate_status_def status_update_ok_def

interpretation memory: revocation_store "memory_set_status rt" memory_get_status memory_is_revoked
  by unfold_locales
     (auto simp: memory_set_status_def memory_get_status_def memory_is_revoked_def revocation_defs
       split: option.splits if_splits)

interpretation pg: revocation_store "pg_set_status rt None" "pg_get_status None" "pg_is_revoked None"
  by unfold_locales
     (auto simp: pg_set_status_def pg_get_status_def pg_is_revoked_def scan_revocation_def revocation_defs
       split: option.splits if_splits)

text \<open>A failing statement leaves the table as it was.\<close>

lemma pg_set_status_fault:
  "fst (pg_set_status rt fault now table i c st r) \<noteq> None \<Longrightarrow>
   snd (pg_set_status rt fault now table i c st r) = table"
  by (auto simp: pg_set_status_def split: option.splits)

text \<open>Runs of updates on the two stores.\<close>

fun memory_run :: "runtime \<Rightarrow> revocation_map \<Rightarrow> status_update list \<Rightarrow> revocation_map" where
  "memory_run rt store [] = store"
| "memory_run rt store (u # us) =
     memory_run rt (snd (memory_set_status rt (su_now u) store (su_issuer u) (su_credential_id u)
                           (su_status u) (su_reason u))) us"

fun pg_run :: "runtime \<Rightarrow> revocation_table \<Rightarrow> status_update list \<Rightarrow> revocation_table" where
  "pg_run rt table [] = table"
| "pg_run rt table (u # us) =
     pg_run rt (snd (pg_set_status rt None (su_now u) table (su_issuer u) (su_credential_id u)
                       (su_status u) (su_reason u))) us"

lemma memory_run_eq: "memory_run rt store us = memory.run_updates rt store us"
  by (induction us arbitrary: store) (simp_all add: memory.run_updates_def)

lemma pg_run_eq: "pg_run rt table us = pg.run_updates rt table us"
  by (induction us arbitrary: table) (simp_all add: pg.run_updates_def)

lemma is_revoked_runs:
  "memory_is_revoked (memory_run rt store us) i c =
     (case latest_status us i c of Some st \<Rightarrow> Inr (st = status_revoked) | None \<Rightarrow> memory_is_revoked store i c)"
  "pg_is_revoked None (pg_run rt table us) i c =
     (case latest_status us i c of Some st \<Rightarrow> Inr (st = status_revoked) | None \<Rightarrow> pg_is_revoked None table i c)"
  by (simp_all add: memory_run_eq pg_run_eq memory.is_revoked_run pg.is_revoked_run)

end
