(* ===== verification/Trust_Verifier.thy ===== *)
theory Trust_Verifier
  imports Agent_Facts Revocation_Store
begin

text \<open>
  \<open>internal/trust\<close>: verification of capability credentials against the issuer allowlist and
  the revocation checker. A Go map is iterated in an unspecified order, so \<open>new_verifier\<close>
  takes the issuers as a list of entries in the order the loop visits them. The lemmas say
  exactly when one credential verifies and that the loop over the credentials accepts if and
  only if one of them does, so every error of the loop's steps denies.
\<close>

type_synonym revocation_checker = "string \<Rightarrow> string \<Rightarrow> goerr + bool"

record trust_verifier =
  tv_issuers :: "(string \<times> bytes) list"
  tv_revocation_checker :: "revocation_checker option"

fun copy_issuers :: "(string \<times> bytes) list \<Rightarrow> goerr + (string \<times> bytes) list" where
  "copy_issuers [] = Inr []"
| "copy_issuers ((issuer, public_key) # rest) =
     (if length public_key \<noteq> ed_public_key_size
      then Inl (sentinel_err (AgentAddr ErrInvalidPublicKey) issuer)
      else case copy_issuers rest of
        Inl e \<Rightarrow> Inl e
      | Inr copied \<Rightarrow> Inr ((issuer, public_key) # copied))"

definition new_verifier ::
  "(string \<times> bytes) list \<Rightarrow> revocation_checker option \<Rightarrow> goerr + trust_verifier" where
  "new_verifier issuers checker =
     (case copy_issuers issuers of
        Inl e \<Rightarrow> Inl e
      | Inr copied \<Rightarrow> Inr \<lparr>tv_issuers = copied, tv_revocation_checker = checker\<rparr>)"

text \<open>The bytes an issuer signs: the credential's JSON without its signature.\<close>

definition signing_payload_json :: "capability_credential \<Rightarrow> json" where
  "signing_payload_json c =
     JObj [(''id'', JStr (cred_id c)), (''type'', JStr (cred_type c)),
           (''issuer'', JStr (cred_issuer c)), (''subject'', JStr (cred_subject c)),
           (''capabilities'', json_slice (cred_capabilities c)),
           (''validFrom'', json_time (cred_valid_from c)),
           (''validUntil'', json_time (cred_valid_until c))]"

definition signing_payload_bytes :: "capability_credential \<Rightarrow> goerr + bytes" where
  "signing_payload_bytes c =
     (case times_marshal_error [cred_valid_from c, cred_valid_until c] of
        Some m \<Rightarrow> Inl (ErrNew m)
      | None \<Rightarrow> Inr (marshal (signing_payload_json c)))"

definition credential_grants :: "capability_credential \<Rightarrow> string \<Rightarrow> bool" where
  "credential_grants c capability \<longleftrightarrow>
     (case cred_capabilities c of None \<Rightarrow> False | Some cs \<Rightarrow> capability \<in> set cs)"

definition check_revocation :: "trust_verifier \<Rightarrow> capability_credential \<Rightarrow> goerr option" where
  "check_revocation v c =
     (case tv_revocation_checker v of
        None \<Rightarrow> None
      | Some is_revoked \<Rightarrow>
          (case is_revoked (cred_issuer c) (cred_id c) of
             Inl e \<Rightarrow> Some e
           | Inr revoked \<Rightarrow> if revoked then Some (Sentinel (Trust TR_ErrCredentialRevoked)) else None))"

definition check_signature :: "runtime \<Rightarrow> bytes \<Rightarrow> capability_credential \<Rightarrow> goerr option" where
  "check_signature rt public_key c =
     (case b64_decode (cred_signature c) of
        None \<Rightarrow> Some (Sentinel (Trust TR_ErrInvalidSignatureEncoding))
      | Some signature \<Rightarrow>
          (case signing_payload_bytes c of
             Inl e \<Rightarrow> Some e
           | Inr payload \<Rightarrow>
               if \<not> rt_ed_verify rt public_key payload signature
               then Some (Sentinel (Trust TR_ErrInvalidSignature)) else None))"

definition verify_credential ::
  "runtime \<Rightarrow> trust_verifier \<Rightarrow> capability_credential \<Rightarrow> string \<Rightarrow> string \<Rightarrow> gotime \<Rightarrow> goerr option" where
  "verify_credential rt v c requested_agent_id required_capability now =
     (if cred_type c \<noteq> agent_capability_credential
      then Some (Sentinel (Trust TR_ErrUnsupportedCredentialType))
      else if trim_space (cred_id c) = [] then Some (Sentinel (Trust TR_ErrMissingCredentialID))
      else case map_of (tv_issuers v) (cred_issuer c) of
        None \<Rightarrow> Some (Sentinel (Trust TR_ErrUntrustedIssuer))
      | Some public_key \<Rightarrow>
        (case normalize_agent_id rt requested_agent_id of
           Inl e \<Rightarrow> Some e
         | Inr normalized_requested \<Rightarrow>
           (case normalize_agent_id rt (cred_subject c) of
              Inl e \<Rightarrow> Some e
            | Inr normalized_subject \<Rightarrow>
              if normalized_subject \<noteq> normalized_requested then Some (Sentinel (Trust TR_ErrSubjectMismatch))
              else if time_after (cred_valid_from c) now then Some (Sentinel (Trust TR_ErrNotYetValid))
              else if \<not> time_after (cred_valid_until c) now then Some (Sentinel (Trust TR_ErrExpired))
              else if required_capability = [] \<or> \<not> credential_grants c required_capability
              then Some (Sentinel (Trust TR_ErrMissingRequiredCapability))
              else case check_signature rt public_key c of
                Some e \<Rightarrow> Some e
              | None \<Rightarrow> check_revocation v c)))"

fun verify_capability_loop ::
  "runtime \<Rightarrow> trust_verifier \<Rightarrow> capability_credential list \<Rightarrow> string \<Rightarrow> string \<Rightarrow> gotime
     \<Rightarrow> goerr option \<Rightarrow> goerr option" where
  "verify_capability_loop rt v [] agent capability now last_err =
     (case last_err of
        Some e \<Rightarrow> Some (TrustVerificationError e)
      | None \<Rightarrow> Some (TrustVerificationError (Sentinel (Trust TR_ErrMissingCredential))))"
| "verify_capability_loop rt v (c # cs) agent capability now last_err =
     (case verify_credential rt v c agent capability now of
        Some e \<Rightarrow> verify_capability_loop rt v cs agent capability now (Some e)
      | None \<Rightarrow> None)"

definition verify_capability ::
  "runtime \<Rightarrow> trust_verifier \<Rightarrow> capability_credential list \<Rightarrow> string \<Rightarrow> string \<Rightarrow> gotime \<Rightarrow> goerr option" where
  "verify_capability rt v credentials requested_agent_id required_capability now =
     verify_capability_loop rt v credentials requested_agent_id required_capability now None"

subsection \<open>What a verified credential is\<close>

definition issuer_signed :: "runtime \<Rightarrow> trust_verifier \<Rightarrow> capability_credential \<Rightarrow> bool" where
  "issuer_signed rt v c \<longleftrightarrow>
     (\<exists>key sig payload. map_of (tv_issuers v) (cred_issuer c) = Some key
        \<and> b64_decode (cred_signature c) = Some sig \<and> signing_payload_bytes c = Inr payload
        \<and> rt_ed_verify rt key payload sig)"

definition not_revoked :: "trust_verifier \<Rightarrow> capability_credential \<Rightarrow> bool" where
  "not_revoked v c \<longleftrightarrow>
     (case tv_revocation_checker v of
        None \<Rightarrow> True
      | Some is_revoked \<Rightarrow> is_revoked (cred_issuer c) (cred_id c) = Inr False)"

definition credential_trusted ::
  "runtime \<Rightarrow> trust_verifier \<Rightarrow> capability_credential \<Rightarrow> string \<Rightarrow> string \<Rightarrow> gotime \<Rightarrow> bool" where
  "credential_trusted rt v c agent capability now \<longleftrightarrow>
     cred_type c = agent_capability_credential \<and> trim_space (cred_id c) \<noteq> []
     \<and> (\<exists>n. normalize_agent_id rt agent = Inr n \<and> normalize_agent_id rt (cred_subject c) = Inr n)
     \<and> instant (cred_valid_from c) \<le> instant now \<and> instant now < instant (cred_valid_until c)
     \<and> capability \<noteq> [] \<and> credential_grants c capability
     \<and> issuer_signed rt v c \<and> not_revoked v c"

lemma check_revocation_iff: "check_revocation v c = None \<longleftrightarrow> not_revoked v c"
  by (auto simp: check_revocation_def not_revoked_def split: option.splits sum.splits)

lemma check_signature_iff:
  "check_signature rt key c = None \<longleftrightarrow>
     (\<exists>sig payload. b64_decode (cred_signature c) = Some sig \<and> signing_payload_bytes c = Inr payload
        \<and> rt_ed_verify rt key payload sig)"
  by (auto simp: check_signature_def split: option.splits sum.splits)

lemma issuer_signed_iff:
  "issuer_signed rt v c \<longleftrightarrow>
     (\<exists>key. map_of (tv_issuers v) (cred_issuer c) = Some key \<and> check_signature rt key c = None)"
  by (auto simp: issuer_signed_def check_signature_iff)

lemma verify_credential_iff:
  "verify_credential rt v c agent capability now = None \<longleftrightarrow>
     credential_trusted rt v c agent capability now"
  unfolding verify_credential_def credential_trusted_def issuer_signed_iff check_revocation_iff [symmetric]
  by (cases "map_of (tv_issuers v) (cred_issuer c)"; cases "normalize_agent_id rt agent";
      cases "normalize_agent_id rt (cred_subject c)")
     (auto simp: time_after_def not_less)

lemma verify_capability_loop_iff:
  "verify_capability_loop rt v cs agent capability now le = None \<longleftrightarrow>
     (\<exists>c \<in> set cs. verify_credential rt v c agent capability now = None)"
  by (induction cs arbitrary: le) (auto split: option.splits)

lemma verify_capability_iff:
  "verify_capability rt v cs agent capability now = None \<longleftrightarrow>
     (\<exists>c \<in> set cs. credential_trusted rt v c agent capability now)"
  by (simp add: verify_capability_def verify_capability_loop_iff verify_credential_iff)

lemma verify_capability_loop_err:
  "verify_capability_loop rt v cs agent capability now le = Some e \<Longrightarrow>
   \<exists>e'. e = TrustVerificationError e'"
  by (induction cs arbitrary: le) (auto split: option.splits)

lemma verify_capability_err_is:
  "verify_capability rt v cs agent capability now = Some e \<Longrightarrow> err_is e (Trust TR_ErrDenied)"
  unfolding verify_capability_def by (drule verify_capability_loop_err) auto

lemma copy_issuers_Inr: "copy_issuers xs = Inr ys \<Longrightarrow> ys = xs \<and> (\<forall>(i, k) \<in> set xs. length k = ed_public_key_size)"
  by (induction xs arbitrary: ys) (auto split: if_splits sum.splits)

lemma new_verifier_Inr:
  assumes "new_verifier issuers checker = Inr v"
  shows "tv_issuers v = issuers" and "tv_revocation_checker v = checker"
    and "\<forall>(i, k) \<in> set (tv_issuers v). length k = ed_public_key_size"
proof -
  obtain ys where ys: "copy_issuers issuers = Inr ys"
    and v: "v = \<lparr>tv_issuers = ys, tv_revocation_checker = checker\<rparr>"
    using assms by (auto simp: new_verifier_def split: sum.splits)
  from copy_issuers_Inr [OF ys] v
  show "tv_issuers v = issuers" "tv_revocation_checker v = checker"
    "\<forall>(i, k) \<in> set (tv_issuers v). length k = ed_public_key_size"
    by auto
qed

text \<open>Only the map the issuers stand for matters.\<close>

lemma verify_credential_issuers:
  assumes "map_of (tv_issuers v) = map_of (tv_issuers v')" and "tv_revocation_checker v = tv_revocation_checker v'"
  shows "verify_credential rt v c agent capability now = verify_credential rt v' c agent capability now"
proof -
  have "check_revocation v c = check_revocation v' c" using assms(2) by (simp add: check_revocation_def)
  then show ?thesis using assms(1) by (simp only: verify_credential_def)
qed

lemma verify_capability_issuers:
  assumes "map_of (tv_issuers v) = map_of (tv_issuers v')" and "tv_revocation_checker v = tv_revocation_checker v'"
  shows "verify_capability rt v cs agent capability now = verify_capability rt v' cs agent capability now"
proof -
  have "verify_capability_loop rt v cs agent capability now last
      = verify_capability_loop rt v' cs agent capability now last" for last
    by (induction cs arbitrary: last) (simp_all add: verify_credential_issuers [OF assms] split: option.split)
  then show ?thesis by (simp add: verify_capability_def)
qed

end
