(* ===== verification/Store_Interfaces.thy ===== *)
theory Store_Interfaces
  imports Facts_Store Index_Store Audit_Stores Trust_Verifier
begin

text \<open>
  The Go interface values the services are built from. A service holds values of
  \<open>facts.FactsStore\<close>, \<open>facts.PointerStore\<close>, \<open>index.LeanIndexStore\<close>, \<open>audit.Store\<close>,
  \<open>revocation.Store\<close> and \<open>resolver.TrustVerifier\<close>: each is the record of its methods, acting on
  a world \<open>'w\<close> that holds the state of every store, and what the environment does (the clock,
  randomness, faults) is part of that world. A nil interface is \<open>None\<close>.
\<close>

record 'w facts_iface =
  fi_put :: "bytes \<Rightarrow> 'w \<Rightarrow> (goerr + facts_pointer) \<times> 'w"
  fi_get :: "facts_pointer \<Rightarrow> 'w \<Rightarrow> goerr + bytes"

record 'w pointer_iface =
  pi_put :: "facts_pointer \<Rightarrow> 'w \<Rightarrow> goerr option \<times> 'w"
  pi_resolve :: "128 word \<Rightarrow> 'w \<Rightarrow> goerr + facts_pointer"

record 'w index_iface =
  ii_put :: "string \<Rightarrow> agent_addr120 \<Rightarrow> 'w \<Rightarrow> goerr option \<times> 'w"
  ii_get :: "128 word \<Rightarrow> 'w \<Rightarrow> goerr + indexed_record"
  ii_history :: "128 word \<Rightarrow> 'w \<Rightarrow> goerr + indexed_record list"

record 'w audit_iface =
  ai_append :: "event_input \<Rightarrow> 'w \<Rightarrow> (goerr + audit_event) \<times> 'w"
  ai_list :: "'w \<Rightarrow> goerr + audit_event list"
  ai_list_by_agent :: "string \<Rightarrow> 'w \<Rightarrow> goerr + audit_event list"
  ai_query :: "audit_query \<Rightarrow> 'w \<Rightarrow> goerr + list_result"
  ai_verify :: "'w \<Rightarrow> goerr option"

record 'w revocation_iface =
  vi_set :: "string \<Rightarrow> string \<Rightarrow> string \<Rightarrow> string \<Rightarrow> 'w \<Rightarrow> goerr option \<times> 'w"
  vi_get :: "string \<Rightarrow> string \<Rightarrow> 'w \<Rightarrow> goerr + revocation_record"
  vi_is_revoked :: "string \<Rightarrow> string \<Rightarrow> 'w \<Rightarrow> goerr + bool"

type_synonym 'w trust_iface =
  "'w \<Rightarrow> capability_credential list \<Rightarrow> string \<Rightarrow> string \<Rightarrow> gotime \<Rightarrow> goerr option"

text \<open>An append that only its error matters of: \<open>if _, err := store.Append(...); err != nil\<close>.\<close>

definition append_event ::
  "'w audit_iface \<Rightarrow> string \<Rightarrow> event_input \<Rightarrow> 'w \<Rightarrow> goerr option \<times> 'w" where
  "append_event store context_text input w =
     (case ai_append store input w of
        (Inl e, w') \<Rightarrow> (Some (wrap_err context_text e), w')
      | (Inr _, w') \<Rightarrow> (None, w'))"

lemma append_event_cases:
  "append_event store msg input w = (r, w') \<longleftrightarrow>
     (\<exists>e. ai_append store input w = (Inl e, w') \<and> r = Some (wrap_err msg e))
     \<or> (\<exists>ev. ai_append store input w = (Inr ev, w') \<and> r = None)"
  by (auto simp: append_event_def split: prod.splits sum.splits)

end
