(* ===== verification/Registration_Service.thy ===== *)
theory Registration_Service
  imports Store_Interfaces
begin

text \<open>
  \<open>internal/registration/service.go\<close>: a registration stores the facts document and its pointer,
  commits to both in a signed address record, puts the record into the index and appends an
  audit event. The lemmas give the exact sequence of effects of a registration that succeeds,
  what each way of failing leaves behind, and what the record that is published commits to.
\<close>

record register_request =
  rq_agent_id :: string
  rq_ttl_seconds :: "16 word"
  rq_flags :: "8 word"
  rq_sequence :: "32 word"
  rq_facts :: bytes

record register_response =
  rp_agent_id :: string
  rp_facts_pointer :: string
  rp_facts_ptr_hash128 :: string
  rp_credential_set128 :: string
  rp_sequence :: "32 word"
  rp_ttl_seconds :: "16 word"
  rp_record_base64 :: string

record 'w registration_service =
  rs_facts_store :: "'w facts_iface"
  rs_pointer_store :: "'w pointer_iface option"
  rs_index_store :: "'w index_iface"
  rs_private_key :: bytes
  rs_audit_store :: "'w audit_iface option"

text \<open>The functional options and the constructor.\<close>

definition with_audit_store ::
  "'w audit_iface option \<Rightarrow> 'w registration_service \<Rightarrow> 'w registration_service" where
  "with_audit_store store s = s\<lparr>rs_audit_store := store\<rparr>"

definition with_pointer_store ::
  "'w pointer_iface option \<Rightarrow> 'w registration_service \<Rightarrow> 'w registration_service" where
  "with_pointer_store store s = s\<lparr>rs_pointer_store := store\<rparr>"

definition new_registration_service ::
  "'w facts_iface option \<Rightarrow> 'w index_iface option \<Rightarrow> bytes
     \<Rightarrow> ('w registration_service \<Rightarrow> 'w registration_service) list \<Rightarrow> goerr + 'w registration_service" where
  "new_registration_service fstore istore private_key opts =
     (case fstore of
        None \<Rightarrow> Inl (Sentinel (Registration RG_ErrMissingFactsStore))
      | Some fs \<Rightarrow>
        (case istore of
           None \<Rightarrow> Inl (Sentinel (Registration RG_ErrMissingIndexStore))
         | Some ix \<Rightarrow>
           if length private_key \<noteq> ed_private_key_size
           then Inl (Sentinel (AgentAddr ErrInvalidPrivateKey))
           else Inr (foldl (\<lambda>s opt. opt s)
                  \<lparr>rs_facts_store = fs, rs_pointer_store = None, rs_index_store = ix,
                   rs_private_key = private_key, rs_audit_store = None\<rparr> opts)))"

definition validate_register_request :: "runtime \<Rightarrow> register_request \<Rightarrow> goerr + string" where
  "validate_register_request rt req =
     (case normalize_agent_id rt (rq_agent_id req) of
        Inl e \<Rightarrow> Inl (RegisterValidationError ''agentId'' e)
      | Inr agent_id \<Rightarrow>
          if rq_ttl_seconds req = 0
          then Inl (RegisterValidationError ''ttlSeconds'' (Sentinel (AgentAddr ErrZeroTTL)))
          else if \<not> json_valid (rq_facts req)
          then Inl (RegisterValidationError ''facts'' (ErrNew ''must be valid JSON''))
          else Inr agent_id)"

text \<open>The event of a registration.\<close>

definition registration_audit_json :: "register_request \<Rightarrow> register_response \<Rightarrow> json" where
  "registration_audit_json req resp =
     json_map [
       (''request'', json_map [
          (''agentId'', JStr (rq_agent_id req)), (''ttlSeconds'', json_nat (unat (rq_ttl_seconds req))),
          (''flags'', json_nat (unat (rq_flags req))), (''sequence'', json_nat (unat (rq_sequence req)))]),
       (''result'', json_map [
          (''agentId'', JStr (rp_agent_id resp)), (''factsPointer'', JStr (rp_facts_pointer resp)),
          (''factsPtrHash128'', JStr (rp_facts_ptr_hash128 resp)),
          (''credentialSet128'', JStr (rp_credential_set128 resp)),
          (''sequence'', json_nat (unat (rp_sequence resp))),
          (''ttlSeconds'', json_nat (unat (rp_ttl_seconds resp)))])]"

definition audit_registration ::
  "runtime \<Rightarrow> 'w registration_service \<Rightarrow> register_request \<Rightarrow> register_response \<Rightarrow> 'w \<Rightarrow> goerr option \<times> 'w" where
  "audit_registration rt s req resp w =
     (case rs_audit_store s of
        None \<Rightarrow> (None, w)
      | Some store \<Rightarrow>
        (case agent_id_hash rt (rp_agent_id resp) of
           Inl e \<Rightarrow> (Some e, w)
         | Inr agent_hash \<Rightarrow>
           (case audit_payload rt (registration_audit_json req resp) of
              Inl e \<Rightarrow> (Some (wrap_err ''build registration audit payload'' e), w)
            | Inr payload \<Rightarrow>
                append_event store ''append registration audit event''
                  \<lparr>in_type = event_agent_registered, in_agent_id = rp_agent_id resp,
                   in_agent_hash = hex_encode (arr_bytes agent_hash), in_actor_hash = [],
                   in_decision = decision_allowed, in_reason = [], in_json = Some payload\<rparr> w)))"

text \<open>The part of \<open>Register\<close> between the stores: the commitments and the signed record.\<close>

definition register_record ::
  "runtime \<Rightarrow> bytes \<Rightarrow> register_request \<Rightarrow> string \<Rightarrow> facts_pointer \<Rightarrow> goerr + 128 word \<times> agent_addr120" where
  "register_record rt private_key req agent_id pointer =
     (case decode_facts rt (rq_facts req) of
        Inl m \<Rightarrow> Inl (RegisterValidationError ''facts'' (wrap_err ''invalid JSON'' (ErrNew m)))
      | Inr decoded_facts \<Rightarrow>
     (case credential_set_hash128 (af_credentials decoded_facts) of
        Inl e \<Rightarrow> Inl (RegisterValidationError ''facts.credentials'' e)
      | Inr credential_set128 \<Rightarrow>
     (case agentaddr_new rt agent_id (rq_ttl_seconds req) (rq_flags req) (rq_sequence req)
             (pointer_hash128 pointer) credential_set128 of
        Inl e \<Rightarrow> Inl (wrap_err ''create agent address payload'' e)
      | Inr payload \<Rightarrow>
     (case sign_payload rt payload private_key of
        Inl e \<Rightarrow> Inl (wrap_err ''sign agent address record'' e)
      | Inr record \<Rightarrow> Inr (credential_set128, record)))))"

definition put_pointer ::
  "'w registration_service \<Rightarrow> facts_pointer \<Rightarrow> 'w \<Rightarrow> goerr option \<times> 'w" where
  "put_pointer s pointer w =
     (case rs_pointer_store s of
        None \<Rightarrow> (None, w)
      | Some store \<Rightarrow>
        (case pi_put store pointer w of
           (Some e, w') \<Rightarrow> (Some (wrap_err ''store agent facts pointer'' e), w')
         | (None, w') \<Rightarrow> (None, w')))"

definition make_response ::
  "register_request \<Rightarrow> string \<Rightarrow> facts_pointer \<Rightarrow> 128 word \<Rightarrow> agent_addr120 \<Rightarrow> register_response" where
  "make_response req agent_id pointer credential_set128 record =
     \<lparr>rp_agent_id = agent_id, rp_facts_pointer = pointer_string pointer,
      rp_facts_ptr_hash128 = hex_encode (arr_bytes (pointer_hash128 pointer)),
      rp_credential_set128 = hex_encode (arr_bytes credential_set128),
      rp_sequence = rq_sequence req, rp_ttl_seconds = rq_ttl_seconds req,
      rp_record_base64 = b64_encode (encode_record record)\<rparr>"

definition register ::
  "runtime \<Rightarrow> 'w registration_service \<Rightarrow> register_request \<Rightarrow> 'w \<Rightarrow> (goerr + register_response) \<times> 'w" where
  "register rt s req w =
     (case validate_register_request rt req of
        Inl e \<Rightarrow> (Inl e, w)
      | Inr agent_id \<Rightarrow>
     (case fi_put (rs_facts_store s) (rq_facts req) w of
        (Inl e, w1) \<Rightarrow> (Inl (wrap_err ''store agent facts'' e), w1)
      | (Inr pointer, w1) \<Rightarrow>
     (case put_pointer s pointer w1 of
        (Some e, w2) \<Rightarrow> (Inl e, w2)
      | (None, w2) \<Rightarrow>
     (case register_record rt (rs_private_key s) req agent_id pointer of
        Inl e \<Rightarrow> (Inl e, w2)
      | Inr (credential_set128, record) \<Rightarrow>
     (case ii_put (rs_index_store s) agent_id record w2 of
        (Some e, w3) \<Rightarrow> (Inl (wrap_err ''store agent address record'' e), w3)
      | (None, w3) \<Rightarrow>
          let resp = make_response req agent_id pointer credential_set128 record in
          (case audit_registration rt s req resp w3 of
             (Some e, w4) \<Rightarrow> (Inl e, w4)
           | (None, w4) \<Rightarrow> (Inr resp, w4)))))))"

subsection \<open>The sequence of effects\<close>

lemma put_pointer_None:
  "put_pointer s pointer w = (None, w') \<longleftrightarrow>
     (case rs_pointer_store s of None \<Rightarrow> w' = w | Some store \<Rightarrow> pi_put store pointer w = (None, w'))"
  by (auto simp: put_pointer_def split: option.splits prod.splits)

lemma register_Inr:
  "register rt s req w = (Inr resp, w') \<longleftrightarrow>
     (\<exists>agent_id pointer w1 w2 cs record w3.
        validate_register_request rt req = Inr agent_id
        \<and> fi_put (rs_facts_store s) (rq_facts req) w = (Inr pointer, w1)
        \<and> put_pointer s pointer w1 = (None, w2)
        \<and> register_record rt (rs_private_key s) req agent_id pointer = Inr (cs, record)
        \<and> ii_put (rs_index_store s) agent_id record w2 = (None, w3)
        \<and> resp = make_response req agent_id pointer cs record
        \<and> audit_registration rt s req resp w3 = (None, w'))"
  by (auto simp: register_def Let_def split: sum.splits prod.splits option.splits)

lemma register_record_Inr:
  assumes "register_record rt key req agent_id pointer = Inr (cs, record)"
  shows "\<exists>facts payload. decode_facts rt (rq_facts req) = Inr facts
      \<and> credential_set_hash128 (af_credentials facts) = Inr cs
      \<and> agentaddr_new rt agent_id (rq_ttl_seconds req) (rq_flags req) (rq_sequence req)
          (pointer_hash128 pointer) cs = Inr payload
      \<and> sign_payload rt payload key = Inr record"
  using assms by (auto simp: register_record_def split: sum.splits)

lemma validate_register_request_Inr:
  "validate_register_request rt req = Inr agent_id \<longleftrightarrow>
     normalize_agent_id rt (rq_agent_id req) = Inr agent_id \<and> rq_ttl_seconds req \<noteq> 0
     \<and> json_valid (rq_facts req)"
  by (auto simp: validate_register_request_def split: sum.splits)

lemma validate_register_request_Inl:
  "validate_register_request rt req = Inl e \<Longrightarrow> err_is e (Registration RG_ErrValidation)"
  by (auto simp: validate_register_request_def split: sum.splits if_splits)

text \<open>What the published record says and commits to.\<close>

definition record_commits ::
  "runtime \<Rightarrow> bytes \<Rightarrow> register_request \<Rightarrow> string \<Rightarrow> facts_pointer \<Rightarrow> agent_addr120 \<Rightarrow> bool" where
  "record_commits rt private_key req agent_id pointer record \<longleftrightarrow>
     p_agent_id_hash (payload_of record) = hash128 agent_id
     \<and> p_sequence (payload_of record) = rq_sequence req
     \<and> p_ttl_seconds (payload_of record) = rq_ttl_seconds req
     \<and> p_flags (payload_of record) = rq_flags req
     \<and> p_facts_ptr_hash128 (payload_of record) = pointer_hash128 pointer
     \<and> (\<exists>facts. decode_facts rt (rq_facts req) = Inr facts
          \<and> credential_set_hash128 (af_credentials facts) = Inr (p_credential_set128 (payload_of record)))
     \<and> decode_record (encode_record record) = Inr record
     \<and> aa_signature record = rt_ed_sign rt private_key (arr_bytes (aa_payload record))"

lemma register_record_commits:
  assumes "register_record rt key req agent_id pointer = Inr (cs, record)"
    and "agent_id_hash rt agent_id = Inr (hash128 agent_id)"
  shows "record_commits rt key req agent_id pointer record" and "cs = p_credential_set128 (payload_of record)"
proof -
  obtain facts payload where f: "decode_facts rt (rq_facts req) = Inr facts"
    "credential_set_hash128 (af_credentials facts) = Inr cs"
    "agentaddr_new rt agent_id (rq_ttl_seconds req) (rq_flags req) (rq_sequence req)
       (pointer_hash128 pointer) cs = Inr payload"
    "sign_payload rt payload key = Inr record"
    using register_record_Inr [OF assms(1)] by blast
  note r = signed_record_facts [OF f(4)]
  have sig: "aa_signature record = rt_ed_sign rt key (arr_bytes (aa_payload record))"
    using f(4) by (auto simp: sign_payload_iff)
  have p: "payload = \<lparr>p_version = version1, p_flags = rq_flags req, p_ttl_seconds = rq_ttl_seconds req,
      p_sequence = rq_sequence req, p_agent_id_hash = hash128 agent_id,
      p_facts_ptr_hash128 = pointer_hash128 pointer, p_credential_set128 = cs\<rparr>"
    using f(3) assms(2) by (auto simp: agentaddr_new_iff)
  show "record_commits rt key req agent_id pointer record" and "cs = p_credential_set128 (payload_of record)"
    using f r sig by (simp_all add: record_commits_def p)
qed

lemma record_commits_verifies:
  "record_commits rt key req agent_id pointer record \<Longrightarrow> keypair_ok rt key \<Longrightarrow>
   verify_record rt record (ed_public key) = None"
  by (simp add: record_commits_def verify_record_def keypair_ok_def length_ed_public)

text \<open>The index puts it: its own check of the record passes.\<close>

lemma record_commits_check_put:
  "record_commits rt key req agent_id pointer record \<Longrightarrow>
   agent_id_hash rt agent_id = Inr (hash128 agent_id) \<Longrightarrow>
   check_put rt agent_id record = Inr (hash128 agent_id)"
  by (simp add: record_commits_def check_put_Inr decode_encode_valid)

lemma audit_registration_None:
  "audit_registration rt s req resp w = (None, w') \<longleftrightarrow>
     (case rs_audit_store s of
        None \<Rightarrow> w' = w
      | Some store \<Rightarrow>
          \<exists>h payload ev. agent_id_hash rt (rp_agent_id resp) = Inr h
            \<and> audit_payload rt (registration_audit_json req resp) = Inr payload
            \<and> ai_append store
                \<lparr>in_type = event_agent_registered, in_agent_id = rp_agent_id resp,
                 in_agent_hash = hex_encode (arr_bytes h), in_actor_hash = [],
                 in_decision = decision_allowed, in_reason = [], in_json = Some payload\<rparr> w = (Inr ev, w'))"
  by (auto simp: audit_registration_def append_event_cases split: option.splits sum.splits)

lemma new_registration_service_key:
  assumes "new_registration_service fs ix key opts = Inr s"
  shows "length key = ed_private_key_size" and "fs \<noteq> None" and "ix \<noteq> None"
  using assms by (auto simp: new_registration_service_def split: option.splits if_splits)

end
