(* ===== verification/Resolver_Service.thy ===== *)
theory Resolver_Service
  imports Store_Interfaces
begin

text \<open>
  \<open>internal/resolver/service.go\<close>: a resolution reads the signed record of an agent, its facts
  pointer and its facts document, checks each against what the record commits to, asks the trust
  verifier for the required capability and selects an endpoint. Every \<open>return\<close> of \<open>Resolve\<close>
  that fails goes through \<open>auditResolveFailure\<close>: the checks return a \<open>denial\<close>, the arguments
  of that call, and \<open>resolve\<close> makes it. The lemmas say exactly when a resolution succeeds,
  what its response holds, how long it may be cached and what each outcome leaves in the audit
  log.
\<close>

definition trust_decision_unverified_v0 :: string where
  "trust_decision_unverified_v0 = ''unverified-v0''"

definition trust_decision_verified_v0 :: string where
  "trust_decision_verified_v0 = ''verified-v0''"

definition credential_status_not_implemented :: string where
  "credential_status_not_implemented = ''not-implemented-v0''"

record resolve_request =
  rsq_agent_id :: string
  rsq_required_capability :: string

record proof_bundle =
  pb_agent_addr_signature_verified :: bool
  pb_agent_facts_pointer_hash_verified :: bool
  pb_agent_facts_schema_verified :: bool
  pb_credential_set_verified :: bool
  pb_credential_status :: string
  pb_capability_credential_verified :: bool

record cache_metadata =
  cm_ttl_seconds :: int
  cm_expires_at :: gotime
  cm_source_sequence :: "32 word"

record resolve_response =
  rsp_agent_id :: string
  rsp_endpoint :: endpoint
  rsp_trust_decision :: string
  rsp_proof_bundle :: proof_bundle
  rsp_cache :: cache_metadata

record 'w resolver_service =
  rv_index_store :: "'w index_iface"
  rv_facts_store :: "'w facts_iface"
  rv_pointer_resolver :: "'w pointer_iface"
  rv_public_key :: bytes
  rv_trust_verifier :: "'w trust_iface option"
  rv_audit_store :: "'w audit_iface option"
  rv_now :: "'w \<Rightarrow> gotime"

definition with_trust_verifier ::
  "'w trust_iface option \<Rightarrow> 'w resolver_service \<Rightarrow> 'w resolver_service" where
  "with_trust_verifier verifier s = s\<lparr>rv_trust_verifier := verifier\<rparr>"

definition with_resolver_audit_store ::
  "'w audit_iface option \<Rightarrow> 'w resolver_service \<Rightarrow> 'w resolver_service" where
  "with_resolver_audit_store store s = s\<lparr>rv_audit_store := store\<rparr>"

text \<open>\<open>clock\<close> is \<open>time.Now\<close>.\<close>

definition new_resolver_service ::
  "('w \<Rightarrow> gotime) \<Rightarrow> 'w index_iface option \<Rightarrow> 'w facts_iface option \<Rightarrow> 'w pointer_iface option \<Rightarrow> bytes
     \<Rightarrow> ('w resolver_service \<Rightarrow> 'w resolver_service) list \<Rightarrow> goerr + 'w resolver_service" where
  "new_resolver_service clock istore fstore pointer_resolver public_key opts =
     (case istore of
        None \<Rightarrow> Inl (Sentinel (Resolver RS_ErrMissingIndexStore))
      | Some ix \<Rightarrow>
     (case fstore of
        None \<Rightarrow> Inl (Sentinel (Resolver RS_ErrMissingFactsStore))
      | Some fs \<Rightarrow>
     (case pointer_resolver of
        None \<Rightarrow> Inl (Sentinel (Resolver RS_ErrMissingPointerResolver))
      | Some pr \<Rightarrow>
          if length public_key \<noteq> ed_public_key_size then Inl (Sentinel (AgentAddr ErrInvalidPublicKey))
          else Inr (foldl (\<lambda>s opt. opt s)
                 \<lparr>rv_index_store = ix, rv_facts_store = fs, rv_pointer_resolver = pr,
                  rv_public_key = public_key, rv_trust_verifier = None, rv_audit_store = None,
                  rv_now = clock\<rparr> opts))))"

text \<open>Integer division of a duration truncates towards zero.\<close>

definition truncated_seconds :: "int \<Rightarrow> int" where
  "truncated_seconds d = (if d < 0 then - ((- d) div nanos_per_second) else d div nanos_per_second)"

definition record_time :: "indexed_record \<Rightarrow> gotime" where
  "record_time r = (if time_is_zero (ix_updated_at r) then ix_created_at r else ix_updated_at r)"

definition l1_freshness :: "indexed_record \<Rightarrow> payload \<Rightarrow> gotime \<Rightarrow> goerr + int" where
  "l1_freshness r p now =
     (if time_is_zero (record_time r) then Inl (ErrNew ''missing index record timestamp'')
      else
        let expires_at = time_add (time_utc (record_time r)) (int (unat (p_ttl_seconds p)) * nanos_per_second)
        in if \<not> time_after expires_at now
           then Inl (ErrNew (''expired at '' @ format_rfc3339 expires_at))
           else
             let remaining = truncated_seconds (time_sub expires_at now)
             in if remaining \<le> 0
                then Inl (ErrNew (''less than one second remains before '' @ format_rfc3339 expires_at))
                else Inr remaining)"

fun find_type :: "string \<Rightarrow> endpoint list \<Rightarrow> endpoint option" where
  "find_type t [] = None"
| "find_type t (ep # eps) = (if ep_type ep = t then Some ep else find_type t eps)"

fun select_from :: "string list \<Rightarrow> endpoint list \<Rightarrow> endpoint option" where
  "select_from [] eps = None"
| "select_from (t # ts) eps = (case find_type t eps of Some ep \<Rightarrow> Some ep | None \<Rightarrow> select_from ts eps)"

definition select_endpoint :: "agent_facts \<Rightarrow> endpoint option" where
  "select_endpoint facts =
     select_from [endpoint_type_adaptive_resolver, endpoint_type_rotating, endpoint_type_static]
       (af_endpoints facts)"

subsection \<open>The checks\<close>

record denial =
  dn_agent_id :: string
  dn_agent_hash :: string
  dn_event_type :: string
  dn_error :: goerr

definition deny :: "string \<Rightarrow> string \<Rightarrow> goerr \<Rightarrow> denial + 'a" where
  "deny agent_id agent_hash e =
     Inl \<lparr>dn_agent_id = agent_id, dn_agent_hash = agent_hash,
          dn_event_type = event_resolve_denied, dn_error = e\<rparr>"

definition deny_trust :: "string \<Rightarrow> string \<Rightarrow> goerr \<Rightarrow> denial + 'a" where
  "deny_trust agent_id agent_hash e =
     Inl \<lparr>dn_agent_id = agent_id, dn_agent_hash = agent_hash,
          dn_event_type = event_trust_denied, dn_error = e\<rparr>"

text \<open>The record of the agent: found, signed, about this agent, not expired.\<close>

definition check_record ::
  "runtime \<Rightarrow> 'w resolver_service \<Rightarrow> 'w \<Rightarrow> gotime \<Rightarrow> string \<Rightarrow> 128 word \<Rightarrow> denial + payload \<times> int" where
  "check_record rt s w now agent_id agent_hash =
     (let hex = hex_encode (arr_bytes agent_hash) in
      case ii_get (rv_index_store s) agent_hash w of
        Inl e \<Rightarrow>
          if err_is e (Index IX_ErrNotFound)
          then deny agent_id hex (sentinel_err (Resolver RS_ErrNotFound) ''agent address record'')
          else deny agent_id hex (wrap_err ''get agent address record'' e)
      | Inr indexed \<Rightarrow>
     (case verify_record rt (ix_record indexed) (rv_public_key s) of
        Some e \<Rightarrow> deny agent_id hex (ResolveVerificationError ''agent address signature'' e)
      | None \<Rightarrow>
          let payload = payload_of (ix_record indexed) in
          if p_agent_id_hash payload \<noteq> agent_hash
          then deny agent_id hex (ResolveVerificationError ''agent id hash''
                 (ErrNew ''record hash does not match requested agent id''))
          else case l1_freshness indexed payload now of
            Inl e \<Rightarrow> deny agent_id hex (both_err (Resolver RS_ErrExpired) e)
          | Inr l1 \<Rightarrow> Inr (payload, l1)))"

text \<open>The facts document the record points to.\<close>

definition fetch_facts ::
  "'w resolver_service \<Rightarrow> 'w \<Rightarrow> string \<Rightarrow> string \<Rightarrow> payload \<Rightarrow> denial + bytes" where
  "fetch_facts s w agent_id hex payload =
     (case pi_resolve (rv_pointer_resolver s) (p_facts_ptr_hash128 payload) w of
        Inl e \<Rightarrow>
          if err_is e FactsErrNotFound
          then deny agent_id hex (sentinel_err (Resolver RS_ErrNotFound) ''agent facts pointer'')
          else deny agent_id hex (wrap_err ''resolve agent facts pointer'' e)
      | Inr pointer \<Rightarrow>
          if pointer_hash128 pointer \<noteq> p_facts_ptr_hash128 payload
          then deny agent_id hex (ResolveVerificationError ''agent facts pointer hash''
                 (ErrNew ''pointer hash does not match agent address payload''))
          else case fi_get (rv_facts_store s) pointer w of
            Inl e \<Rightarrow>
              if err_is e FactsErrNotFound
              then deny agent_id hex (sentinel_err (Resolver RS_ErrNotFound) ''agent facts'')
              else deny agent_id hex (wrap_err ''get agent facts'' e)
          | Inr facts_bytes \<Rightarrow> Inr facts_bytes)"

text \<open>The document itself: decoded, valid for the agent, with the committed credentials.\<close>

definition check_facts ::
  "runtime \<Rightarrow> gotime \<Rightarrow> string \<Rightarrow> string \<Rightarrow> string \<Rightarrow> payload \<Rightarrow> bytes \<Rightarrow> denial + agent_facts" where
  "check_facts rt now agent_id hex capability payload facts_bytes =
     (case decode_facts rt facts_bytes of
        Inl m \<Rightarrow> deny agent_id hex (ResolveValidationError ''agentFacts'' (wrap_err ''invalid JSON'' (ErrNew m)))
      | Inr facts \<Rightarrow>
     (case validate_facts rt facts agent_id capability now of
        Some e \<Rightarrow> deny agent_id hex (ResolveValidationError ''agentFacts'' e)
      | None \<Rightarrow>
     (case credential_set_hash128 (af_credentials facts) of
        Inl e \<Rightarrow> deny agent_id hex (ResolveVerificationError ''credential set'' e)
      | Inr credential_set128 \<Rightarrow>
          if credential_set128 \<noteq> p_credential_set128 payload
          then deny agent_id hex (ResolveVerificationError ''credential set''
                 (ErrNew ''credential set hash does not match agent address payload''))
          else Inr facts)))"

definition check_trust ::
  "'w resolver_service \<Rightarrow> 'w \<Rightarrow> gotime \<Rightarrow> string \<Rightarrow> string \<Rightarrow> string \<Rightarrow> agent_facts \<Rightarrow> denial + string \<times> bool" where
  "check_trust s w now agent_id hex capability facts =
     (if capability = [] then Inr (trust_decision_unverified_v0, False)
      else case rv_trust_verifier s of
        None \<Rightarrow> deny_trust agent_id hex
                  (sentinel_err (Resolver RS_ErrTrustDenied) ''trust verifier is not configured'')
      | Some verifier \<Rightarrow>
          (case verifier w (af_credentials facts) agent_id capability now of
             Some e \<Rightarrow> deny_trust agent_id hex (both_err (Resolver RS_ErrTrustDenied) e)
           | None \<Rightarrow> Inr (trust_decision_verified_v0, True)))"

definition resolve_result ::
  "gotime \<Rightarrow> string \<Rightarrow> endpoint \<Rightarrow> string \<times> bool \<Rightarrow> payload \<Rightarrow> int \<Rightarrow> resolve_response" where
  "resolve_result now agent_id ep trust payload l1 =
     (let cache_ttl = min l1 (int (unat (ep_ttl_seconds ep))) in
      \<lparr>rsp_agent_id = agent_id, rsp_endpoint = ep, rsp_trust_decision = fst trust,
       rsp_proof_bundle =
         \<lparr>pb_agent_addr_signature_verified = True, pb_agent_facts_pointer_hash_verified = True,
          pb_agent_facts_schema_verified = True, pb_credential_set_verified = True,
          pb_credential_status = credential_status_not_implemented,
          pb_capability_credential_verified = snd trust\<rparr>,
       rsp_cache =
         \<lparr>cm_ttl_seconds = cache_ttl,
          cm_expires_at = time_utc (time_add now (cache_ttl * nanos_per_second)),
          cm_source_sequence = p_sequence payload\<rparr>\<rparr>)"

definition resolve_checks ::
  "runtime \<Rightarrow> 'w resolver_service \<Rightarrow> 'w \<Rightarrow> gotime \<Rightarrow> resolve_request \<Rightarrow> denial + resolve_response \<times> string" where
  "resolve_checks rt s w now req =
     (case normalize_agent_id rt (rsq_agent_id req) of
        Inl e \<Rightarrow> deny [] [] (ResolveValidationError ''agentId'' e)
      | Inr agent_id \<Rightarrow>
     (case agent_id_hash rt agent_id of
        Inl e \<Rightarrow> deny agent_id [] (ResolveValidationError ''agentId'' e)
      | Inr agent_hash \<Rightarrow>
        let hex = hex_encode (arr_bytes agent_hash) in
     (case check_record rt s w now agent_id agent_hash of
        Inl d \<Rightarrow> Inl d
      | Inr (payload, l1) \<Rightarrow>
     (case fetch_facts s w agent_id hex payload of
        Inl d \<Rightarrow> Inl d
      | Inr facts_bytes \<Rightarrow>
     (case check_facts rt now agent_id hex (rsq_required_capability req) payload facts_bytes of
        Inl d \<Rightarrow> Inl d
      | Inr facts \<Rightarrow>
     (case check_trust s w now agent_id hex (rsq_required_capability req) facts of
        Inl d \<Rightarrow> Inl d
      | Inr trust \<Rightarrow>
     (case select_endpoint facts of
        None \<Rightarrow> deny agent_id hex (ResolveValidationError ''endpoints'' (Sentinel (Resolver RS_ErrNoEndpoint)))
      | Some ep \<Rightarrow> Inr (resolve_result now agent_id ep trust payload l1, hex))))))))"

subsection \<open>The audit events\<close>

definition proof_bundle_json :: "proof_bundle \<Rightarrow> json" where
  "proof_bundle_json b =
     JObj [(''agentAddrSignatureVerified'', JBool (pb_agent_addr_signature_verified b)),
           (''agentFactsPointerHashVerified'', JBool (pb_agent_facts_pointer_hash_verified b)),
           (''agentFactsSchemaVerified'', JBool (pb_agent_facts_schema_verified b)),
           (''credentialSetVerified'', JBool (pb_credential_set_verified b)),
           (''credentialStatus'', JStr (pb_credential_status b)),
           (''capabilityCredentialVerified'', JBool (pb_capability_credential_verified b))]"

definition resolve_request_json :: "resolve_request \<Rightarrow> json" where
  "resolve_request_json req =
     json_map [(''agentId'', JStr (rsq_agent_id req)),
               (''requiredCapability'', JStr (rsq_required_capability req))]"

definition resolve_success_json :: "resolve_request \<Rightarrow> resolve_response \<Rightarrow> json" where
  "resolve_success_json req resp =
     json_map [
       (''request'', resolve_request_json req),
       (''result'', json_map [
          (''agentId'', JStr (rsp_agent_id resp)), (''endpointId'', JStr (ep_id (rsp_endpoint resp))),
          (''endpointType'', JStr (ep_type (rsp_endpoint resp))),
          (''trustDecision'', JStr (rsp_trust_decision resp)),
          (''proofBundle'', proof_bundle_json (rsp_proof_bundle resp)),
          (''cache'', json_map [
             (''ttlSeconds'', JNum (itoa (cm_ttl_seconds (rsp_cache resp)))),
             (''sourceSequence'', json_nat (unat (cm_source_sequence (rsp_cache resp))))])])]"

definition resolve_failure_json :: "resolve_request \<Rightarrow> goerr \<Rightarrow> json" where
  "resolve_failure_json req e =
     json_map [
       (''request'', resolve_request_json req),
       (''result'', json_map [(''error'', JStr (err_msg e)), (''reason'', JStr (err_msg e))])]"

definition audit_resolve_success ::
  "runtime \<Rightarrow> 'w resolver_service \<Rightarrow> resolve_request \<Rightarrow> resolve_response \<Rightarrow> string \<Rightarrow> 'w \<Rightarrow> goerr option \<times> 'w" where
  "audit_resolve_success rt s req resp agent_hash w =
     (case rv_audit_store s of
        None \<Rightarrow> (None, w)
      | Some store \<Rightarrow>
        (case audit_payload rt (resolve_success_json req resp) of
           Inl e \<Rightarrow> (Some (wrap_err ''build resolve audit payload'' e), w)
         | Inr payload \<Rightarrow>
             append_event store ''append resolve audit event''
               \<lparr>in_type = event_resolve_allowed, in_agent_id = rsp_agent_id resp,
                in_agent_hash = agent_hash, in_actor_hash = [], in_decision = decision_allowed,
                in_reason = [], in_json = Some payload\<rparr> w))"

definition audit_resolve_failure ::
  "runtime \<Rightarrow> 'w resolver_service \<Rightarrow> resolve_request \<Rightarrow> denial \<Rightarrow> 'w \<Rightarrow> goerr \<times> 'w" where
  "audit_resolve_failure rt s req d w =
     (case rv_audit_store s of
        None \<Rightarrow> (dn_error d, w)
      | Some store \<Rightarrow>
        (case audit_payload rt (resolve_failure_json req (dn_error d)) of
           Inl e \<Rightarrow> (wrap_err ''build resolve audit payload'' e, w)
         | Inr payload \<Rightarrow>
             (case append_event store ''append resolve audit event''
                     \<lparr>in_type = dn_event_type d, in_agent_id = dn_agent_id d,
                      in_agent_hash = dn_agent_hash d, in_actor_hash = [],
                      in_decision = decision_denied, in_reason = err_msg (dn_error d),
                      in_json = Some payload\<rparr> w of
                (Some e, w') \<Rightarrow> (e, w')
              | (None, w') \<Rightarrow> (dn_error d, w'))))"

definition resolve ::
  "runtime \<Rightarrow> 'w resolver_service \<Rightarrow> resolve_request \<Rightarrow> 'w \<Rightarrow> (goerr + resolve_response) \<times> 'w" where
  "resolve rt s req w =
     (case resolve_checks rt s w (rv_now s w) req of
        Inl d \<Rightarrow> (case audit_resolve_failure rt s req d w of (e, w') \<Rightarrow> (Inl e, w'))
      | Inr (resp, agent_hash) \<Rightarrow>
          (case audit_resolve_success rt s req resp agent_hash w of
             (Some e, w') \<Rightarrow> (Inl e, w')
           | (None, w') \<Rightarrow> (Inr resp, w')))"

subsection \<open>When a resolution succeeds\<close>

lemma deny_not_Inr [simp]: "deny a h e \<noteq> Inr x" "deny_trust a h e \<noteq> Inr x"
  by (simp_all add: deny_def deny_trust_def)

lemma check_record_Inr:
  "check_record rt s w now agent_id agent_hash = Inr (payload, l1) \<longleftrightarrow>
     (\<exists>indexed. ii_get (rv_index_store s) agent_hash w = Inr indexed
        \<and> verify_record rt (ix_record indexed) (rv_public_key s) = None
        \<and> payload = payload_of (ix_record indexed) \<and> p_agent_id_hash payload = agent_hash
        \<and> l1_freshness indexed payload now = Inr l1)"
  by (auto simp: check_record_def Let_def split: sum.splits option.splits if_splits)

lemma fetch_facts_Inr:
  "fetch_facts s w agent_id hex payload = Inr facts_bytes \<longleftrightarrow>
     (\<exists>pointer. pi_resolve (rv_pointer_resolver s) (p_facts_ptr_hash128 payload) w = Inr pointer
        \<and> pointer_hash128 pointer = p_facts_ptr_hash128 payload
        \<and> fi_get (rv_facts_store s) pointer w = Inr facts_bytes)"
  by (auto simp: fetch_facts_def split: sum.splits if_splits)

lemma check_facts_Inr:
  "check_facts rt now agent_id hex capability payload facts_bytes = Inr facts \<longleftrightarrow>
     decode_facts rt facts_bytes = Inr facts \<and> facts_valid_for rt facts agent_id capability now
     \<and> credential_set_hash128 (af_credentials facts) = Inr (p_credential_set128 payload)"
  by (auto simp: check_facts_def validate_facts_iff [symmetric] split: sum.splits option.splits if_splits)

lemma check_trust_Inr:
  "check_trust s w now agent_id hex capability facts = Inr trust \<longleftrightarrow>
     (if capability = [] then trust = (trust_decision_unverified_v0, False)
      else trust = (trust_decision_verified_v0, True)
        \<and> (\<exists>verifier. rv_trust_verifier s = Some verifier
             \<and> verifier w (af_credentials facts) agent_id capability now = None))"
  by (auto simp: check_trust_def split: option.splits)

definition resolution ::
  "runtime \<Rightarrow> 'w resolver_service \<Rightarrow> 'w \<Rightarrow> gotime \<Rightarrow> resolve_request \<Rightarrow> string
     \<Rightarrow> indexed_record \<Rightarrow> int \<Rightarrow> facts_pointer \<Rightarrow> bytes \<Rightarrow> agent_facts \<Rightarrow> bool" where
  "resolution rt s w now req agent_id indexed l1 pointer facts_bytes facts \<longleftrightarrow>
     (let payload = payload_of (ix_record indexed); capability = rsq_required_capability req in
      normalize_agent_id rt (rsq_agent_id req) = Inr agent_id
      \<and> agent_id_hash rt agent_id = Inr (p_agent_id_hash payload)
      \<and> ii_get (rv_index_store s) (p_agent_id_hash payload) w = Inr indexed
      \<and> verify_record rt (ix_record indexed) (rv_public_key s) = None
      \<and> l1_freshness indexed payload now = Inr l1
      \<and> pi_resolve (rv_pointer_resolver s) (p_facts_ptr_hash128 payload) w = Inr pointer
      \<and> pointer_hash128 pointer = p_facts_ptr_hash128 payload
      \<and> fi_get (rv_facts_store s) pointer w = Inr facts_bytes
      \<and> decode_facts rt facts_bytes = Inr facts
      \<and> facts_valid_for rt facts agent_id capability now
      \<and> credential_set_hash128 (af_credentials facts) = Inr (p_credential_set128 payload)
      \<and> (capability \<noteq> [] \<longrightarrow> (\<exists>verifier. rv_trust_verifier s = Some verifier
           \<and> verifier w (af_credentials facts) agent_id capability now = None)))"

lemma find_type_find: "find_type t eps = find (\<lambda>ep. ep_type ep = t) eps"
  by (induction eps) auto

lemma find_type_None: "find_type t eps = None \<longleftrightarrow> (\<forall>ep \<in> set eps. ep_type ep \<noteq> t)"
  by (induction eps) auto

lemma find_type_Some: "find_type t eps = Some ep \<Longrightarrow> ep \<in> set eps \<and> ep_type ep = t"
  by (induction eps) (auto split: if_splits)

lemma select_endpoint_valid:
  assumes "facts_valid_for rt facts agent capability now"
  shows "\<exists>ep. select_endpoint facts = Some ep"
proof -
  obtain ep where ep: "ep \<in> set (af_endpoints facts)" and ok: "endpoint_valid ep"
    using assms by (cases "af_endpoints facts") (auto simp: facts_valid_for_def)
  have "find_type (ep_type ep) (af_endpoints facts) \<noteq> None"
    using ep by (auto simp: find_type_None)
  moreover from ok have "is_supported_endpoint_type (ep_type ep)" by (simp add: endpoint_valid_def)
  ultimately show ?thesis
    by (auto simp: select_endpoint_def is_supported_endpoint_type_def split: option.splits)
qed

definition resolve_trust :: "string \<Rightarrow> string \<times> bool" where
  "resolve_trust capability =
     (if capability = [] then (trust_decision_unverified_v0, False) else (trust_decision_verified_v0, True))"

lemma resolve_checks_Inr:
  "resolve_checks rt s w now req = Inr (resp, hex) \<longleftrightarrow>
     (\<exists>agent_id indexed l1 pointer facts_bytes facts ep.
        resolution rt s w now req agent_id indexed l1 pointer facts_bytes facts
        \<and> select_endpoint facts = Some ep
        \<and> hex = hex_encode (arr_bytes (p_agent_id_hash (payload_of (ix_record indexed))))
        \<and> resp = resolve_result now agent_id ep (resolve_trust (rsq_required_capability req))
                   (payload_of (ix_record indexed)) l1)" (is "?l \<longleftrightarrow> ?r")
proof
  assume ?l
  then obtain agent_id h payload l1 facts_bytes facts trust ep where
    "normalize_agent_id rt (rsq_agent_id req) = Inr agent_id" "agent_id_hash rt agent_id = Inr h"
    "check_record rt s w now agent_id h = Inr (payload, l1)"
    "fetch_facts s w agent_id (hex_encode (arr_bytes h)) payload = Inr facts_bytes"
    "check_facts rt now agent_id (hex_encode (arr_bytes h)) (rsq_required_capability req) payload facts_bytes = Inr facts"
    "check_trust s w now agent_id (hex_encode (arr_bytes h)) (rsq_required_capability req) facts = Inr trust"
    "select_endpoint facts = Some ep" "resp = resolve_result now agent_id ep trust payload l1"
    "hex = hex_encode (arr_bytes h)"
    by (auto simp: resolve_checks_def Let_def split: sum.splits option.splits prod.splits)
  then show ?r
    unfolding check_record_Inr fetch_facts_Inr check_facts_Inr check_trust_Inr
    by (auto simp: resolution_def Let_def resolve_trust_def split: if_splits)
next
  assume ?r
  then obtain agent_id indexed l1 pointer facts_bytes facts ep where
    r: "resolution rt s w now req agent_id indexed l1 pointer facts_bytes facts"
    and ep: "select_endpoint facts = Some ep"
    and hex: "hex = hex_encode (arr_bytes (p_agent_id_hash (payload_of (ix_record indexed))))"
    and resp: "resp = resolve_result now agent_id ep (resolve_trust (rsq_required_capability req))
                   (payload_of (ix_record indexed)) l1" by blast
  let ?p = "payload_of (ix_record indexed)"
  have "check_record rt s w now agent_id (p_agent_id_hash ?p) = Inr (?p, l1)"
    "fetch_facts s w agent_id hex ?p = Inr facts_bytes"
    "check_facts rt now agent_id hex (rsq_required_capability req) ?p facts_bytes = Inr facts"
    "check_trust s w now agent_id hex (rsq_required_capability req) facts = Inr (resolve_trust (rsq_required_capability req))"
    using r unfolding check_record_Inr fetch_facts_Inr check_facts_Inr check_trust_Inr
    by (auto simp: resolution_def Let_def resolve_trust_def)
  then show ?l
    using r ep hex resp by (simp add: resolve_checks_def resolution_def Let_def)
qed

subsection \<open>Freshness\<close>

lemma l1_freshness_Inr:
  assumes "l1_freshness r p now = Inr l1"
  defines "expires \<equiv> instant (record_time r) + int (unat (p_ttl_seconds p)) * nanos_per_second"
  shows "\<not> time_is_zero (record_time r)" and "0 < l1"
    and "l1 * nanos_per_second \<le> expires - instant now"
proof -
  let ?rem = "time_sub (time_add (time_utc (record_time r)) (int (unat (p_ttl_seconds p)) * nanos_per_second)) now"
  have l1: "l1 = truncated_seconds ?rem" and pos: "0 < l1"
    and after: "instant now < expires" and zero: "\<not> time_is_zero (record_time r)"
    using assms(1) by (auto simp: l1_freshness_def Let_def time_after_def expires_def split: if_splits)
  have rem: "0 < ?rem" "?rem \<le> expires - instant now"
    using after by (auto simp: time_sub_def expires_def)
  have "l1 * nanos_per_second \<le> ?rem"
    using rem(1) by (simp add: l1 truncated_seconds_def nanos_per_second_def)
  with rem(2) show "l1 * nanos_per_second \<le> expires - instant now" by linarith
  show "\<not> time_is_zero (record_time r)" "0 < l1" by fact+
qed

lemma l1_freshness_ttl:
  assumes "l1_freshness r p now = Inr l1" and "instant (record_time r) \<le> instant now"
  shows "l1 \<le> int (unat (p_ttl_seconds p))"
  using l1_freshness_Inr(3) [OF assms(1)] assms(2) by (simp add: nanos_per_second_def)

text \<open>At or after the expiry, or with less than a second left, a record is refused.\<close>

lemma l1_freshness_expired:
  assumes "instant (record_time r) + int (unat (p_ttl_seconds p)) * nanos_per_second
             < instant now + nanos_per_second"
  shows "\<exists>e. l1_freshness r p now = Inl e"
proof (cases "l1_freshness r p now")
  case (Inr l1)
  from l1_freshness_Inr [OF Inr] assms show ?thesis by (simp add: nanos_per_second_def)
qed simp

lemma l1_freshness_fresh:
  assumes "\<not> time_is_zero (record_time r)"
    and "instant now + nanos_per_second
           \<le> instant (record_time r) + int (unat (p_ttl_seconds p)) * nanos_per_second"
  shows "\<exists>l1. l1_freshness r p now = Inr l1"
proof -
  let ?exp = "time_add (time_utc (record_time r)) (int (unat (p_ttl_seconds p)) * nanos_per_second)"
  have after: "time_after ?exp now" and rem: "nanos_per_second \<le> time_sub ?exp now"
    using assms(2) by (auto simp: time_after_def time_sub_def nanos_per_second_def)
  have "0 < truncated_seconds (time_sub ?exp now)"
    using rem by (simp add: truncated_seconds_def nanos_per_second_def pos_imp_zdiv_pos_iff)
  with assms(1) after show ?thesis by (simp add: l1_freshness_def Let_def)
qed

lemma resolve_result_cache:
  assumes "cache = rsp_cache (resolve_result now agent_id ep trust payload l1)"
    and "0 < l1" and "0 < ep_ttl_seconds ep"
  shows "0 < cm_ttl_seconds cache" and "cm_ttl_seconds cache \<le> l1"
    and "cm_ttl_seconds cache \<le> int (unat (ep_ttl_seconds ep))"
    and "instant (cm_expires_at cache) = instant now + cm_ttl_seconds cache * nanos_per_second"
proof -
  have "0 < uint (ep_ttl_seconds ep)"
    using assms(3) by (simp add: word_less_def)
  with assms(2) show "0 < cm_ttl_seconds cache" "cm_ttl_seconds cache \<le> l1"
    "cm_ttl_seconds cache \<le> int (unat (ep_ttl_seconds ep))"
    "instant (cm_expires_at cache) = instant now + cm_ttl_seconds cache * nanos_per_second"
    by (simp_all add: assms(1) resolve_result_def Let_def)
qed

subsection \<open>The endpoint\<close>

definition endpoint_rank :: "endpoint \<Rightarrow> nat" where
  "endpoint_rank ep =
     (if ep_type ep = endpoint_type_adaptive_resolver then 0
      else if ep_type ep = endpoint_type_rotating then 1
      else if ep_type ep = endpoint_type_static then 2 else 3)"

lemma endpoint_types_distinct [simp]:
  "endpoint_type_adaptive_resolver \<noteq> endpoint_type_rotating"
  "endpoint_type_adaptive_resolver \<noteq> endpoint_type_static" "endpoint_type_rotating \<noteq> endpoint_type_static"
  by (simp_all add: endpoint_type_adaptive_resolver_def endpoint_type_rotating_def endpoint_type_static_def)

lemma find_type_first:
  assumes "find_type t eps = Some ep"
  shows "\<exists>before after. eps = before @ ep # after \<and> (\<forall>e \<in> set before. ep_type e \<noteq> t)"
  using assms
proof (induction eps)
  case (Cons a eps)
  show ?case
  proof (cases "ep_type a = t")
    case True
    with Cons.prems show ?thesis by (intro exI [of _ "[]"] exI [of _ eps]) simp
  next
    case False
    with Cons obtain bef aft where "eps = bef @ ep # aft" "\<forall>e \<in> set bef. ep_type e \<noteq> t" by auto
    with False show ?thesis by (intro exI [of _ "a # bef"] exI [of _ aft]) simp
  qed
qed simp

lemma select_endpoint_cases:
  assumes "select_endpoint facts = Some ep"
  shows "\<exists>t. find_type t (af_endpoints facts) = Some ep
     \<and> (\<forall>e \<in> set (af_endpoints facts). endpoint_rank ep \<le> endpoint_rank e)
     \<and> (\<forall>e. endpoint_rank e = endpoint_rank ep \<longrightarrow> ep_type e = t)"
proof -
  let ?eps = "af_endpoints facts"
  consider (adaptive) "find_type endpoint_type_adaptive_resolver ?eps = Some ep"
    | (rotating) "find_type endpoint_type_adaptive_resolver ?eps = None" "find_type endpoint_type_rotating ?eps = Some ep"
    | (static) "find_type endpoint_type_adaptive_resolver ?eps = None" "find_type endpoint_type_rotating ?eps = None"
        "find_type endpoint_type_static ?eps = Some ep"
    using assms by (auto simp: select_endpoint_def split: option.splits)
  then show ?thesis
  proof cases
    case adaptive
    with find_type_Some [OF adaptive] show ?thesis
      by (intro exI [of _ endpoint_type_adaptive_resolver]) (auto simp: endpoint_rank_def split: if_splits)
  next
    case rotating
    with find_type_Some [OF rotating(2)] show ?thesis
      by (intro exI [of _ endpoint_type_rotating]) (auto simp: endpoint_rank_def find_type_None split: if_splits)
  next
    case static
    with find_type_Some [OF static(3)] show ?thesis
      by (intro exI [of _ endpoint_type_static]) (auto simp: endpoint_rank_def find_type_None split: if_splits)
  qed
qed

lemma select_endpoint_best:
  assumes "select_endpoint facts = Some ep"
  shows "\<exists>before after. af_endpoints facts = before @ ep # after
     \<and> (\<forall>e \<in> set before. endpoint_rank ep < endpoint_rank e)
     \<and> (\<forall>e \<in> set after. endpoint_rank ep \<le> endpoint_rank e)"
proof -
  obtain t where t: "find_type t (af_endpoints facts) = Some ep"
    and better: "\<forall>e \<in> set (af_endpoints facts). endpoint_rank ep \<le> endpoint_rank e"
    and same: "\<forall>e. endpoint_rank e = endpoint_rank ep \<longrightarrow> ep_type e = t"
    using select_endpoint_cases [OF assms] by blast
  obtain bef aft where eps: "af_endpoints facts = bef @ ep # aft" "\<forall>e \<in> set bef. ep_type e \<noteq> t"
    using find_type_first [OF t] by blast
  have "\<forall>e \<in> set bef. endpoint_rank ep < endpoint_rank e"
  proof
    fix e assume e: "e \<in> set bef"
    then have "endpoint_rank e \<noteq> endpoint_rank ep" using same eps(2) by metis
    moreover have "endpoint_rank ep \<le> endpoint_rank e" using better e eps(1) by simp
    ultimately show "endpoint_rank ep < endpoint_rank e" by simp
  qed
  with better eps show ?thesis by (intro exI [of _ bef] exI [of _ aft]) auto
qed

lemma select_endpoint_mem: "select_endpoint facts = Some ep \<Longrightarrow> ep \<in> set (af_endpoints facts)"
  by (auto simp: select_endpoint_def dest: find_type_Some split: option.splits)

subsection \<open>What is audited\<close>

text \<open>One append, whose input is fixed by the outcome, or no append and an error.\<close>

definition success_input :: "resolve_response \<Rightarrow> string \<Rightarrow> bytes \<Rightarrow> event_input" where
  "success_input resp agent_hash payload =
     \<lparr>in_type = event_resolve_allowed, in_agent_id = rsp_agent_id resp, in_agent_hash = agent_hash,
      in_actor_hash = [], in_decision = decision_allowed, in_reason = [], in_json = Some payload\<rparr>"

definition failure_input :: "denial \<Rightarrow> bytes \<Rightarrow> event_input" where
  "failure_input d payload =
     \<lparr>in_type = dn_event_type d, in_agent_id = dn_agent_id d, in_agent_hash = dn_agent_hash d,
      in_actor_hash = [], in_decision = decision_denied, in_reason = err_msg (dn_error d),
      in_json = Some payload\<rparr>"

lemma resolve_Inr:
  "resolve rt s req w = (Inr resp, w') \<longleftrightarrow>
     (\<exists>agent_hash. resolve_checks rt s w (rv_now s w) req = Inr (resp, agent_hash)
        \<and> (case rv_audit_store s of
             None \<Rightarrow> w' = w
           | Some store \<Rightarrow> \<exists>payload ev. audit_payload rt (resolve_success_json req resp) = Inr payload
               \<and> ai_append store (success_input resp agent_hash payload) w = (Inr ev, w')))"
  by (auto simp: resolve_def audit_resolve_success_def success_input_def append_event_def
      split: sum.splits prod.splits option.splits)

lemma resolve_denied:
  assumes "resolve_checks rt s w (rv_now s w) req = Inl d" and "rv_audit_store s = Some store"
    and "audit_payload rt (resolve_failure_json req (dn_error d)) = Inr payload"
  shows "resolve rt s req w =
     (case ai_append store (failure_input d payload) w of
        (Inl e, w') \<Rightarrow> (Inl (wrap_err ''append resolve audit event'' e), w')
      | (Inr ev, w') \<Rightarrow> (Inl (dn_error d), w'))"
  using assms by (simp add: resolve_def audit_resolve_failure_def failure_input_def append_event_def
      split: prod.split sum.split)

lemma deny_event_type:
  "deny a h e = Inl d \<Longrightarrow> dn_event_type d = event_resolve_denied"
  "deny_trust a h e = Inl d \<Longrightarrow> dn_event_type d = event_trust_denied"
  by (auto simp: deny_def deny_trust_def)

lemma check_inl_types:
  "check_record rt s w now a h = Inl d \<Longrightarrow> dn_event_type d = event_resolve_denied"
  "fetch_facts s w a hx p = Inl d \<Longrightarrow> dn_event_type d = event_resolve_denied"
  "check_facts rt now a hx c p b = Inl d \<Longrightarrow> dn_event_type d = event_resolve_denied"
  "check_trust s w now a hx c f = Inl d \<Longrightarrow> dn_event_type d = event_trust_denied
     \<and> err_is (dn_error d) (Resolver RS_ErrTrustDenied) \<and> c \<noteq> []"
  by (auto simp: check_record_def fetch_facts_def check_facts_def check_trust_def deny_def deny_trust_def Let_def
      split: sum.splits option.splits if_splits)

lemma resolve_checks_Inl_type:
  "resolve_checks rt s w now req = Inl d \<Longrightarrow>
   dn_event_type d = event_resolve_denied
   \<or> dn_event_type d = event_trust_denied \<and> err_is (dn_error d) (Resolver RS_ErrTrustDenied)
     \<and> rsq_required_capability req \<noteq> []"
  by (auto simp: resolve_checks_def Let_def dest: check_inl_types deny_event_type
      split: sum.splits option.splits prod.splits)

end
