(* ===== verification/Admin_Service.thy ===== *)
theory Admin_Service
  imports Store_Interfaces
begin

text \<open>
  \<open>internal/admin/service.go\<close>: the record of an agent, the audit log and the revocation status
  of credentials for administrators. The lemmas give the outcome of every branch: which errors
  are validation errors, that a refused update changes nothing, that an accepted one is what
  \<open>GetRevocationStatus\<close> reports.
\<close>

record 'w admin_service =
  as_index_store :: "'w index_iface"
  as_audit_store :: "'w audit_iface"
  as_revocation_store :: "'w revocation_iface"

record agent_response =
  agr_agent_id :: string
  agr_hash :: string
  agr_sequence :: "32 word"
  agr_ttl_seconds :: "16 word"
  agr_facts_ptr_hash128 :: string
  agr_credential_set128 :: string
  agr_record_base64 :: string
  agr_created :: string
  agr_updated :: string
  agr_expires_at :: string
  agr_expired :: bool

record revocation_status_response =
  vr_issuer :: string
  vr_credential_id :: string
  vr_status :: string
  vr_reason :: string
  vr_found :: bool
  vr_updated_at :: "gotime option"

record set_revocation_request =
  vq_issuer :: string
  vq_credential_id :: string
  vq_status :: string
  vq_reason :: string

record set_revocation_response =
  vs_issuer :: string
  vs_credential_id :: string
  vs_status :: string
  vs_reason :: string
  vs_updated :: bool

definition new_admin_service ::
  "'w index_iface option \<Rightarrow> 'w audit_iface option \<Rightarrow> 'w revocation_iface option \<Rightarrow> goerr + 'w admin_service" where
  "new_admin_service istore astore rstore =
     (case istore of
        None \<Rightarrow> Inl (Sentinel (Admin AD_ErrMissingIndexStore))
      | Some ix \<Rightarrow>
     (case astore of
        None \<Rightarrow> Inl (Sentinel (Admin AD_ErrMissingAuditStore))
      | Some au \<Rightarrow>
     (case rstore of
        None \<Rightarrow> Inl (Sentinel (Admin AD_ErrMissingRevocationStore))
      | Some rv \<Rightarrow> Inr \<lparr>as_index_store = ix, as_audit_store = au, as_revocation_store = rv\<rparr>)))"

definition format_if_set :: "gotime \<Rightarrow> string" where
  "format_if_set t = (if time_is_zero t then [] else format_rfc3339 (time_utc t))"

definition agent_expires :: "gotime \<Rightarrow> 16 word \<Rightarrow> gotime" where
  "agent_expires t ttl = time_add (time_utc t) (int (unat ttl) * nanos_per_second)"

text \<open>\<open>now\<close> is \<open>time.Now()\<close>.\<close>

definition agent_view ::
  "gotime \<Rightarrow> string \<Rightarrow> 128 word \<Rightarrow> indexed_record \<Rightarrow> agent_response" where
  "agent_view now agent_id agent_hash r =
     (let payload = payload_of (ix_record r);
          record_time = (if time_is_zero (ix_updated_at r) then ix_created_at r else ix_updated_at r);
          expires = agent_expires record_time (p_ttl_seconds payload)
      in \<lparr>agr_agent_id = agent_id, agr_hash = hex_encode (arr_bytes agent_hash),
          agr_sequence = p_sequence payload, agr_ttl_seconds = p_ttl_seconds payload,
          agr_facts_ptr_hash128 = hex_encode (arr_bytes (p_facts_ptr_hash128 payload)),
          agr_credential_set128 = hex_encode (arr_bytes (p_credential_set128 payload)),
          agr_record_base64 = b64_encode (encode_record (ix_record r)),
          agr_created = format_if_set (ix_created_at r), agr_updated = format_if_set (ix_updated_at r),
          agr_expires_at = (if time_is_zero record_time then [] else format_rfc3339 expires),
          agr_expired = (\<not> time_is_zero record_time \<and> \<not> time_after expires now)\<rparr>)"

definition get_agent ::
  "runtime \<Rightarrow> 'w admin_service \<Rightarrow> ('w \<Rightarrow> gotime) \<Rightarrow> 'w \<Rightarrow> string \<Rightarrow> goerr + agent_response" where
  "get_agent rt s clock w agent_id =
     (case normalize_agent_id rt agent_id of
        Inl e \<Rightarrow> Inl (AdminValidationError ''agentId'' e)
      | Inr normalized \<Rightarrow>
     (case agent_id_hash rt normalized of
        Inl e \<Rightarrow> Inl (AdminValidationError ''agentId'' e)
      | Inr agent_hash \<Rightarrow>
     (case ii_get (as_index_store s) agent_hash w of
        Inl e \<Rightarrow>
          if err_is e (Index IX_ErrNotFound) then Inl (sentinel_err (Admin AD_ErrNotFound) ''agent'')
          else Inl (wrap_err ''get agent address record'' e)
      | Inr r \<Rightarrow> Inr (agent_view (clock w) normalized agent_hash r))))"

text \<open>\<open>query_through context\<close>: the two list operations differ in the text of the error.\<close>

definition query_through ::
  "string \<Rightarrow> goerr + list_result \<Rightarrow> goerr + list_result" where
  "query_through context_text result =
     (case result of
        Inl e \<Rightarrow>
          if err_is e (Audit AU_ErrInvalidQuery) then Inl (AdminValidationError [] e)
          else Inl (wrap_err context_text e)
      | Inr r \<Rightarrow> Inr r)"

definition list_audit :: "'w admin_service \<Rightarrow> 'w \<Rightarrow> audit_query \<Rightarrow> goerr + list_result" where
  "list_audit s w query = query_through ''list audit events'' (ai_query (as_audit_store s) query w)"

definition list_audit_by_agent ::
  "runtime \<Rightarrow> 'w admin_service \<Rightarrow> 'w \<Rightarrow> string \<Rightarrow> audit_query \<Rightarrow> goerr + list_result" where
  "list_audit_by_agent rt s w agent_id query =
     (case normalize_agent_id rt agent_id of
        Inl e \<Rightarrow> Inl (AdminValidationError ''agentId'' e)
      | Inr normalized \<Rightarrow>
          query_through ''list audit events by agent''
            (ai_query (as_audit_store s) (query\<lparr>q_agent_id := normalized\<rparr>) w))"

definition get_revocation_status ::
  "'w admin_service \<Rightarrow> 'w \<Rightarrow> string \<Rightarrow> string \<Rightarrow> goerr + revocation_status_response" where
  "get_revocation_status s w issuer credential_id =
     (if issuer = [] then Inl (AdminValidationError ''issuer'' (ErrNew ''issuer is required''))
      else if credential_id = []
      then Inl (AdminValidationError ''credentialId'' (ErrNew ''credential id is required''))
      else case vi_get (as_revocation_store s) issuer credential_id w of
        Inl e \<Rightarrow>
          if err_is e (Revocation RV_ErrNotFound)
          then Inr \<lparr>vr_issuer = issuer, vr_credential_id = credential_id, vr_status = status_active,
                    vr_reason = [], vr_found = False, vr_updated_at = None\<rparr>
          else Inl (wrap_err ''get revocation status'' e)
      | Inr r \<Rightarrow>
          Inr \<lparr>vr_issuer = rv_issuer r, vr_credential_id = rv_credential_id r, vr_status = rv_status r,
               vr_reason = rv_reason r, vr_found = True, vr_updated_at = Some (time_utc (rv_updated_at r))\<rparr>)"

definition revocation_audit_json :: "set_revocation_request \<Rightarrow> json" where
  "revocation_audit_json req =
     JObj ([(''issuer'', JStr (vq_issuer req)), (''credentialId'', JStr (vq_credential_id req)),
            (''status'', JStr (vq_status req))] @ omit_empty ''reason'' (vq_reason req))"

definition audit_revocation_updated ::
  "runtime \<Rightarrow> 'w audit_iface \<Rightarrow> set_revocation_request \<Rightarrow> 'w \<Rightarrow> goerr option \<times> 'w" where
  "audit_revocation_updated rt store req w =
     (case audit_payload rt (revocation_audit_json req) of
        Inl e \<Rightarrow> (Some (wrap_err ''build revocation audit payload'' e), w)
      | Inr payload \<Rightarrow>
          append_event store ''append revocation audit event''
            \<lparr>in_type = event_revocation_updated, in_agent_id = [], in_agent_hash = [],
             in_actor_hash = [], in_decision = decision_allowed, in_reason = [], in_json = Some payload\<rparr> w)"

text \<open>The fields of the service are set by the constructor alone, which refuses a nil audit
  store: the test \<open>s.auditStore != nil\<close> succeeds.\<close>

definition set_revocation_status ::
  "runtime \<Rightarrow> 'w admin_service \<Rightarrow> set_revocation_request \<Rightarrow> 'w \<Rightarrow> (goerr + set_revocation_response) \<times> 'w" where
  "set_revocation_status rt s req w =
     (if vq_issuer req = []
      then (Inl (AdminValidationError ''issuer'' (ErrNew ''issuer is required'')), w)
      else if vq_credential_id req = []
      then (Inl (AdminValidationError ''credentialId'' (ErrNew ''credential id is required'')), w)
      else if vq_status req \<noteq> status_active \<and> vq_status req \<noteq> status_revoked
      then (Inl (AdminValidationError ''status''
                  (ErrNew (''status must be '' @ quote_text (rt_printable rt) status_active @ '' or '' @ quote_text (rt_printable rt) status_revoked))), w)
      else case vi_set (as_revocation_store s) (vq_issuer req) (vq_credential_id req) (vq_status req) (vq_reason req) w of
        (Some e, w1) \<Rightarrow>
          if err_is e (Revocation RV_ErrInvalidInput) then (Inl (AdminValidationError [] e), w1)
          else (Inl (wrap_err ''set revocation status'' e), w1)
      | (None, w1) \<Rightarrow>
          (case audit_revocation_updated rt (as_audit_store s) req w1 of
             (Some e, w2) \<Rightarrow> (Inl e, w2)
           | (None, w2) \<Rightarrow>
               (Inr \<lparr>vs_issuer = vq_issuer req, vs_credential_id = vq_credential_id req,
                     vs_status = vq_status req, vs_reason = vq_reason req, vs_updated = True\<rparr>, w2)))"

subsection \<open>Outcomes\<close>

lemma new_admin_service_Inr:
  "new_admin_service ix au rv = Inr s \<longleftrightarrow>
     (\<exists>i a r. ix = Some i \<and> au = Some a \<and> rv = Some r
        \<and> s = \<lparr>as_index_store = i, as_audit_store = a, as_revocation_store = r\<rparr>)"
  by (auto simp: new_admin_service_def split: option.splits)

lemma set_revocation_status_Inr:
  assumes "set_revocation_status rt s req w = (Inr resp, w')"
  shows "\<exists>w1. vi_set (as_revocation_store s) (vq_issuer req) (vq_credential_id req) (vq_status req) (vq_reason req) w = (None, w1)
      \<and> (\<exists>payload ev. audit_payload rt (revocation_audit_json req) = Inr payload
           \<and> ai_append (as_audit_store s)
               \<lparr>in_type = event_revocation_updated, in_agent_id = [], in_agent_hash = [],
                in_actor_hash = [], in_decision = decision_allowed, in_reason = [], in_json = Some payload\<rparr> w1
             = (Inr ev, w'))"
    and "status_update_ok (vq_issuer req) (vq_credential_id req) (vq_status req)"
  using assms
  by (auto simp: set_revocation_status_def audit_revocation_updated_def append_event_cases status_update_ok_def
      split: prod.splits option.splits sum.splits if_splits)

lemma set_revocation_status_invalid:
  assumes "\<not> status_update_ok (vq_issuer req) (vq_credential_id req) (vq_status req)"
  shows "\<exists>e. set_revocation_status rt s req w = (Inl e, w) \<and> err_is e (Admin AD_ErrValidation)"
  using assms by (auto simp: set_revocation_status_def status_update_ok_def)

lemma get_agent_expired_iff:
  assumes "\<not> time_is_zero (ix_updated_at r)"
  shows "agr_expired (agent_view now a h r) \<longleftrightarrow>
     instant (ix_updated_at r) + int (unat (p_ttl_seconds (payload_of (ix_record r)))) * nanos_per_second
       \<le> instant now"
  using assms by (simp add: agent_view_def Let_def agent_expires_def time_after_def not_less)

end
