(* ===== verification/Request_Bodies.thy ===== *)
theory Request_Bodies
  imports Registration_Service Resolver_Service Admin_Service
begin

text \<open>
  The bodies of the POST requests: how \<open>json.Decoder\<close> with \<open>DisallowUnknownFields\<close> fills
  \<open>RegisterRequest\<close>, \<open>ResolveRequest\<close> and \<open>SetRevocationStatusRequest\<close>, and what their
  \<open>json.Marshal\<close> prints. The lemmas show that a printed request is decoded to itself, and that an
  object with a member no field is named like is refused.
\<close>

subsection \<open>Registration\<close>

definition zero_register_request :: register_request where
  "zero_register_request =
     \<lparr>rq_agent_id = [], rq_ttl_seconds = 0, rq_flags = 0, rq_sequence = 0, rq_facts = []\<rparr>"

definition register_fields :: "register_request fields" where
  "register_fields =
     [(''agentId'', on_field rq_agent_id (\<lambda>v r. r\<lparr>rq_agent_id := v\<rparr>) dec_string),
      (''ttlSeconds'', on_field rq_ttl_seconds (\<lambda>v r. r\<lparr>rq_ttl_seconds := v\<rparr>) dec_uint),
      (''flags'', on_field rq_flags (\<lambda>v r. r\<lparr>rq_flags := v\<rparr>) dec_uint),
      (''sequence'', on_field rq_sequence (\<lambda>v r. r\<lparr>rq_sequence := v\<rparr>) dec_uint),
      (''facts'', on_field rq_facts (\<lambda>v r. r\<lparr>rq_facts := v\<rparr>) dec_raw)]"

definition decode_register_request :: "bytes \<Rightarrow> (register_request \<times> bytes) option" where
  "decode_register_request = decode_next (dec_struct True register_fields) zero_register_request"

subsection \<open>Resolution\<close>

definition zero_resolve_request :: resolve_request where
  "zero_resolve_request = \<lparr>rsq_agent_id = [], rsq_required_capability = []\<rparr>"

definition resolve_fields :: "resolve_request fields" where
  "resolve_fields =
     [(''agentId'', on_field rsq_agent_id (\<lambda>v r. r\<lparr>rsq_agent_id := v\<rparr>) dec_string),
      (''requiredCapability'',
        on_field rsq_required_capability (\<lambda>v r. r\<lparr>rsq_required_capability := v\<rparr>) dec_string)]"

definition decode_resolve_request :: "bytes \<Rightarrow> (resolve_request \<times> bytes) option" where
  "decode_resolve_request = decode_next (dec_struct True resolve_fields) zero_resolve_request"

subsection \<open>Revocation\<close>

definition zero_revocation_request :: set_revocation_request where
  "zero_revocation_request = \<lparr>vq_issuer = [], vq_credential_id = [], vq_status = [], vq_reason = []\<rparr>"

definition revocation_fields :: "set_revocation_request fields" where
  "revocation_fields =
     [(''issuer'', on_field vq_issuer (\<lambda>v r. r\<lparr>vq_issuer := v\<rparr>) dec_string),
      (''credentialId'', on_field vq_credential_id (\<lambda>v r. r\<lparr>vq_credential_id := v\<rparr>) dec_string),
      (''status'', on_field vq_status (\<lambda>v r. r\<lparr>vq_status := v\<rparr>) dec_string),
      (''reason'', on_field vq_reason (\<lambda>v r. r\<lparr>vq_reason := v\<rparr>) dec_string)]"

definition decode_revocation_request :: "bytes \<Rightarrow> (set_revocation_request \<times> bytes) option" where
  "decode_revocation_request = decode_next (dec_struct True revocation_fields) zero_revocation_request"

subsection \<open>One value\<close>

text \<open>One value and then the end of the body.\<close>

definition decode_single :: "(bytes \<Rightarrow> ('a \<times> bytes) option) \<Rightarrow> bytes \<Rightarrow> 'a option" where
  "decode_single decode body =
     (case decode body of
        None \<Rightarrow> None
      | Some (v, rest) \<Rightarrow> if json_decode rest = DecodeEOF then Some v else None)"

lemma decode_single_next:
  assumes "plain_at (Suc (Suc (Suc (Suc (Suc (Suc 0)))))) (JObj kvs)" and "list_all is_json_space ws"
  shows "decode_single (decode_next (dec_struct strict fs) old) (marshal (JObj kvs) @ ws)
    = dec_members strict fs old (map (\<lambda>kv. (clean_string (fst kv), marshal (snd kv))) kvs)"
proof -
  have ws: "skip_space ws = []" using assms(2) by (simp add: skip_space_def list_all_iff)
  have end_ws: "ends_value ws" using assms(2)
    by (cases ws) (auto simp: ends_value_def is_json_space_def is_digit_def byte_in_def)
  have "decode_next (dec_struct strict fs) old (marshal (JObj kvs) @ ws)
      = map_option (\<lambda>v. (v, ws)) (dec_struct strict fs old (marshal (JObj kvs)))"
    by (rule decode_next_marshal [OF assms(1) _ end_ws]) (simp add: max_nesting_def)
  then show ?thesis
    using ws by (simp add: decode_single_def dec_struct_printed [OF assms(1)] json_decode_def split: option.split
        del: marshal.simps)
qed

text \<open>One member that no field is named like, at whatever place, is enough.\<close>

lemma unknown_member:
  "(k, t) \<in> set kvs \<Longrightarrow> find_field fs k = None \<Longrightarrow> dec_members True fs old kvs = None"
  by (induction kvs arbitrary: old) (auto split: option.split)

lemma unknown_member_refused:
  assumes "(k, j) \<in> set kvs" and "plain_at (Suc (Suc (Suc (Suc (Suc (Suc 0)))))) (JObj kvs)" and "list_all is_json_space ws"
    and "find_field fs (clean_string k) = None"
  shows "decode_single (decode_next (dec_struct True fs) old) (marshal (JObj kvs) @ ws) = None"
proof -
  have "(clean_string k, marshal j) \<in> set (map (\<lambda>kv. (clean_string (fst kv), marshal (snd kv))) kvs)"
    using assms(1) by force
  from unknown_member [OF this assms(4)] show ?thesis by (simp only: decode_single_next [OF assms(2,3)])
qed

subsection \<open>The bodies of a client\<close>

definition resolve_request_doc :: "resolve_request \<Rightarrow> json" where
  "resolve_request_doc r =
     JObj ((''agentId'', JStr (rsq_agent_id r)) # omit_empty ''requiredCapability'' (rsq_required_capability r))"

definition register_request_doc :: "register_request \<Rightarrow> json \<Rightarrow> json" where
  "register_request_doc r facts =
     JObj ([(''agentId'', JStr (rq_agent_id r)), (''ttlSeconds'', json_nat (unat (rq_ttl_seconds r)))]
           @ (if rq_flags r = 0 then [] else [(''flags'', json_nat (unat (rq_flags r)))])
           @ [(''sequence'', json_nat (unat (rq_sequence r))), (''facts'', facts)])"

definition revocation_request_doc :: "set_revocation_request \<Rightarrow> json" where
  "revocation_request_doc r =
     JObj ([(''issuer'', JStr (vq_issuer r)), (''credentialId'', JStr (vq_credential_id r)),
            (''status'', JStr (vq_status r))] @ omit_empty ''reason'' (vq_reason r))"

lemma resolve_doc_decoded:
  assumes "utf8 (rsq_agent_id r)" and "utf8 (rsq_required_capability r)" and "list_all is_json_space ws"
  shows "decode_single decode_resolve_request (marshal (resolve_request_doc r) @ ws) = Some r"
  using assms
  by (simp add: decode_resolve_request_def resolve_request_doc_def decode_single_next omit_empty_def resolve_fields_def
      zero_resolve_request_def on_field_def find_field_def utf8_def del: marshal.simps)

lemma revocation_doc_decoded:
  assumes "utf8 (vq_issuer r)" and "utf8 (vq_credential_id r)" and "utf8 (vq_status r)" and "utf8 (vq_reason r)"
    and "list_all is_json_space ws"
  shows "decode_single decode_revocation_request (marshal (revocation_request_doc r) @ ws) = Some r"
  using assms
  by (simp add: decode_revocation_request_def revocation_request_doc_def decode_single_next omit_empty_def
      revocation_fields_def zero_revocation_request_def on_field_def find_field_def utf8_def del: marshal.simps)

lemma register_doc_decoded:
  assumes "utf8 (rq_agent_id r)" and "rq_facts r = marshal facts" and "plain_at (Suc (Suc (Suc (Suc (Suc 0))))) facts"
    and "list_all is_json_space ws"
  shows "decode_single decode_register_request (marshal (register_request_doc r facts) @ ws) = Some r"
proof -
  have "unat (rq_ttl_seconds r) < 2 ^ LENGTH(16)" "unat (rq_flags r) < 2 ^ LENGTH(8)" "unat (rq_sequence r) < 2 ^ LENGTH(32)"
    by (rule unsigned_less)+
  then show ?thesis
    using assms
    by (simp add: decode_register_request_def register_request_doc_def decode_single_next register_fields_def
        zero_register_request_def on_field_def find_field_def utf8_def dec_raw_def del: marshal.simps)
qed

end
