(* ===== verification/Api.thy ===== *)
theory Api
  imports Http_Model Request_Bodies
begin

text \<open>
  \<open>internal/api\<close>: bearer-token authentication, request ids, the JSON error body and the handlers
  of the seven routes. \<open>id_source\<close> is what \<open>newRequestID\<close> reads. A handler returns the calls on its writer; the server's log is not
  modelled. The lemmas say which status answers which error, that a refused request reaches no
  service, and that every response carries a request id.
\<close>

definition request_id_header :: string where
  "request_id_header = ''X-Request-ID''"

record 'w id_source =
  is_random8 :: "'w \<Rightarrow> 64 word option"
  is_unix_nano :: "'w \<Rightarrow> int"
  is_next_count :: "'w \<Rightarrow> 64 word \<times> 'w"

text \<open>\<open>%x\<close> of a number.\<close>

fun hex_of_nat :: "nat \<Rightarrow> string" where
  "hex_of_nat n = (if n < 16 then [hex_digit n] else hex_of_nat (n div 16) @ [hex_digit (n mod 16)])"

declare hex_of_nat.simps [simp del]

definition hex_of_int :: "int \<Rightarrow> string" where
  "hex_of_int i = (if i < 0 then ''-'' @ hex_of_nat (nat (- i)) else hex_of_nat (nat i))"

definition new_request_id :: "'w id_source \<Rightarrow> 'w \<Rightarrow> string \<times> 'w" where
  "new_request_id ids w =
     (case is_random8 ids w of
        Some b \<Rightarrow> (hex_encode (arr_bytes b), w)
      | None \<Rightarrow>
          (case is_next_count ids w of
             (n, w') \<Rightarrow> (hex_of_int (is_unix_nano ids w') @ ''-'' @ hex_of_nat (unat n), w')))"

text \<open>The id in the context, else the one in the header; a nil request has none.\<close>

definition request_id :: "http_request option \<Rightarrow> string" where
  "request_id r =
     (case r of
        None \<Rightarrow> []
      | Some req \<Rightarrow> if hq_context_id req \<noteq> [] then hq_context_id req else hq_header req request_id_header)"

definition ensure_request_id ::
  "'w id_source \<Rightarrow> http_request \<Rightarrow> 'w \<Rightarrow> http_op list \<times> http_request \<times> 'w" where
  "ensure_request_id ids req w =
     (case (if request_id (Some req) = [] then new_request_id ids w else (request_id (Some req), w)) of
        (i, w') \<Rightarrow> ([SetHeader request_id_header i], req\<lparr>hq_context_id := i\<rparr>, w'))"

definition with_request_id :: "'w id_source \<Rightarrow> 'w handler \<Rightarrow> 'w handler" where
  "with_request_id ids next_handler req w =
     (case ensure_request_id ids req w of
        (ops, req', w1) \<Rightarrow> (case next_handler req' w1 of (ops', w2) \<Rightarrow> (ops @ ops', w2)))"

text \<open>\<open>json.NewEncoder(w).Encode(value)\<close>: the value and a newline, nothing if it cannot be printed.\<close>

definition encode_json :: "string + json \<Rightarrow> http_op list" where
  "encode_json v = (case v of Inl _ \<Rightarrow> [] | Inr j \<Rightarrow> [WriteBody (marshal j @ [CHR 0x0A])])"

definition error_json :: "string \<Rightarrow> string \<Rightarrow> json" where
  "error_json code message = JObj [(''error'', JObj [(''code'', JStr code), (''message'', JStr message)])]"

definition json_type :: http_op where
  "json_type = SetHeader ''Content-Type'' ''application/json''"

definition write_json_error :: "int \<Rightarrow> string \<Rightarrow> string \<Rightarrow> http_op list" where
  "write_json_error status code message =
     [json_type, WriteHeader status] @ encode_json (Inr (error_json code message))"

definition write_json :: "string + json \<Rightarrow> http_op list" where
  "write_json v = [json_type, WriteHeader 200] @ encode_json v"

subsection \<open>Authentication\<close>

definition valid_bearer_token :: "string \<Rightarrow> string \<Rightarrow> bool" where
  "valid_bearer_token header token =
     (if \<not> has_prefix header ''Bearer '' then False else drop (length ''Bearer '') header = token)"

definition with_bearer_auth :: "'w id_source \<Rightarrow> 'w handler \<Rightarrow> string \<Rightarrow> 'w handler" where
  "with_bearer_auth ids next_handler token =
     (if token = [] then next_handler
      else (\<lambda>req w.
        case ensure_request_id ids req w of
          (ops, req', w1) \<Rightarrow>
            if \<not> valid_bearer_token (hq_header req' ''Authorization'') token
            then (ops @ write_json_error 401 ''unauthorized'' (status_text 401), w1)
            else (case next_handler req' w1 of (ops', w2) \<Rightarrow> (ops @ ops', w2))))"

subsection \<open>Requests\<close>

definition method_not_allowed :: "string \<Rightarrow> http_op list" where
  "method_not_allowed allowed =
     SetHeader ''Allow'' allowed # write_json_error 405 ''method_not_allowed'' (status_text 405)"

definition with_method ::
  "'w id_source \<Rightarrow> string \<Rightarrow> 'w handler \<Rightarrow> 'w handler" where
  "with_method ids allowed inner req w =
     (case ensure_request_id ids req w of
        (ops, req', w1) \<Rightarrow>
          if hq_method req' \<noteq> allowed then (ops @ method_not_allowed allowed, w1)
          else (case inner req' w1 of (ops', w2) \<Rightarrow> (ops @ ops', w2)))"

definition internal_error :: "http_op list" where
  "internal_error = write_json_error 500 ''internal_error'' (status_text 500)"

subsection \<open>Registration\<close>

definition register_response_json :: "register_response \<Rightarrow> json" where
  "register_response_json r =
     JObj [(''agentId'', JStr (rp_agent_id r)), (''factsPointer'', JStr (rp_facts_pointer r)),
           (''factsPtrHash128'', JStr (rp_facts_ptr_hash128 r)),
           (''credentialSet128'', JStr (rp_credential_set128 r)),
           (''sequence'', json_nat (unat (rp_sequence r))),
           (''ttlSeconds'', json_nat (unat (rp_ttl_seconds r))),
           (''agentAddrRecordBase64'', JStr (rp_record_base64 r))]"

definition register_error_ops :: "goerr \<Rightarrow> http_op list" where
  "register_error_ops e =
     (if err_is e (Registration RG_ErrValidation)
      then write_json_error 400 ''registration_validation_failed'' (err_msg e)
      else internal_error)"

definition register_agent_handler ::
  "'w id_source
     \<Rightarrow> (register_request \<Rightarrow> 'w \<Rightarrow> (goerr + register_response) \<times> 'w) \<Rightarrow> 'w handler" where
  "register_agent_handler ids service =
     with_method ids ''POST'' (\<lambda>req w.
       case decode_single decode_register_request (hq_body req) of
         None \<Rightarrow> (write_json_error 400 ''invalid_registration_request'' ''invalid registration request'', w)
       | Some r \<Rightarrow>
           (case service r w of
              (Inl e, w') \<Rightarrow> (register_error_ops e, w')
            | (Inr resp, w') \<Rightarrow> (write_json (Inr (register_response_json resp)), w')))"

subsection \<open>Resolution\<close>

definition cache_json :: "cache_metadata \<Rightarrow> json" where
  "cache_json c =
     JObj [(''ttlSeconds'', JNum (itoa (cm_ttl_seconds c))), (''expiresAt'', json_time (cm_expires_at c)),
           (''sourceSequence'', json_nat (unat (cm_source_sequence c)))]"

definition resolve_response_json :: "resolve_response \<Rightarrow> string + json" where
  "resolve_response_json r =
     (case times_marshal_error [cm_expires_at (rsp_cache r)] of
        Some m \<Rightarrow> Inl m
      | None \<Rightarrow>
          Inr (JObj [(''agentId'', JStr (rsp_agent_id r)), (''endpoint'', endpoint_json (rsp_endpoint r)),
                (''trustDecision'', JStr (rsp_trust_decision r)),
                (''proofBundle'', proof_bundle_json (rsp_proof_bundle r)),
                (''cache'', cache_json (rsp_cache r))]))"

definition resolve_error_ops :: "goerr \<Rightarrow> http_op list" where
  "resolve_error_ops e =
     (if err_is e (Resolver RS_ErrValidation)
      then write_json_error 400 ''resolve_validation_failed'' (err_msg e)
      else if err_is e (Resolver RS_ErrNotFound) then write_json_error 404 ''not_found'' (status_text 404)
      else if err_is e (Resolver RS_ErrTrustDenied) then write_json_error 403 ''trust_denied'' (err_msg e)
      else if err_is e (Resolver RS_ErrExpired) then write_json_error 410 ''expired'' (err_msg e)
      else internal_error)"

definition resolve_agent_handler ::
  "'w id_source
     \<Rightarrow> (resolve_request \<Rightarrow> 'w \<Rightarrow> (goerr + resolve_response) \<times> 'w) \<Rightarrow> 'w handler" where
  "resolve_agent_handler ids service =
     with_method ids ''POST'' (\<lambda>req w.
       case decode_single decode_resolve_request (hq_body req) of
         None \<Rightarrow> (write_json_error 400 ''invalid_resolve_request'' ''invalid resolve request'', w)
       | Some r \<Rightarrow>
           (case service r w of
              (Inl e, w') \<Rightarrow> (resolve_error_ops e, w')
            | (Inr resp, w') \<Rightarrow> (write_json (resolve_response_json resp), w')))"

subsection \<open>Administration\<close>

definition agent_response_json :: "agent_response \<Rightarrow> json" where
  "agent_response_json r =
     JObj ([(''agentId'', JStr (agr_agent_id r)), (''agentHash'', JStr (agr_hash r)),
            (''sequence'', json_nat (unat (agr_sequence r))),
            (''ttlSeconds'', json_nat (unat (agr_ttl_seconds r))),
            (''factsPtrHash128'', JStr (agr_facts_ptr_hash128 r)),
            (''credentialSet128'', JStr (agr_credential_set128 r)),
            (''recordBase64'', JStr (agr_record_base64 r))]
           @ omit_empty ''createdAt'' (agr_created r) @ omit_empty ''updatedAt'' (agr_updated r)
           @ omit_empty ''expiresAt'' (agr_expires_at r) @ [(''expired'', JBool (agr_expired r))])"

definition audit_event_json :: "audit_event \<Rightarrow> json" where
  "audit_event_json e =
     JObj ([(''eventId'', JStr (ev_id e)), (''eventType'', JStr (ev_type e))]
           @ omit_empty ''agentId'' (ev_agent_id e) @ omit_empty ''agentHash'' (ev_agent_hash e)
           @ omit_empty ''actorHash'' (ev_actor_hash e) @ [(''decision'', JStr (ev_decision e))]
           @ omit_empty ''reason'' (ev_reason e) @ [(''eventJSON'', JRaw (ev_json e))]
           @ omit_empty ''previousHash'' (ev_previous_hash e)
           @ [(''eventHash'', JStr (ev_hash e)), (''createdAt'', json_time (ev_created_at e))])"

definition list_result_json :: "list_result \<Rightarrow> string + json" where
  "list_result_json r =
     (case times_marshal_error (map ev_created_at (lr_items r)) of
        Some m \<Rightarrow> Inl m
      | None \<Rightarrow>
          Inr (JObj [(''items'', if lr_items_nil r then JNull else JArr (map audit_event_json (lr_items r))),
                     (''limit'', JNum (itoa (lr_limit r))), (''offset'', JNum (itoa (lr_offset r))),
                     (''count'', JNum (itoa (lr_count r)))]))"

definition revocation_status_json :: "revocation_status_response \<Rightarrow> string + json" where
  "revocation_status_json r =
     (case times_marshal_error (case vr_updated_at r of None \<Rightarrow> [] | Some t \<Rightarrow> [t]) of
        Some m \<Rightarrow> Inl m
      | None \<Rightarrow>
          Inr (JObj ([(''issuer'', JStr (vr_issuer r)), (''credentialId'', JStr (vr_credential_id r)),
                      (''status'', JStr (vr_status r))]
                     @ omit_empty ''reason'' (vr_reason r) @ [(''found'', JBool (vr_found r))]
                     @ (case vr_updated_at r of None \<Rightarrow> [] | Some t \<Rightarrow> [(''updatedAt'', json_time t)]))))"

definition set_revocation_json :: "set_revocation_response \<Rightarrow> json" where
  "set_revocation_json r =
     JObj ([(''issuer'', JStr (vs_issuer r)), (''credentialId'', JStr (vs_credential_id r)),
            (''status'', JStr (vs_status r))]
           @ omit_empty ''reason'' (vs_reason r) @ [(''updated'', JBool (vs_updated r))])"

definition admin_error_ops :: "goerr \<Rightarrow> http_op list" where
  "admin_error_ops e =
     (if err_is e (Admin AD_ErrValidation) then write_json_error 400 ''admin_validation_failed'' (err_msg e)
      else if err_is e (Admin AD_ErrNotFound) then write_json_error 404 ''not_found'' (status_text 404)
      else internal_error)"

definition parse_audit_query :: "runtime \<Rightarrow> http_request \<Rightarrow> goerr + audit_query" where
  "parse_audit_query rt req =
     (let raw_limit = hq_query req ''limit''; raw_offset = hq_query req ''offset'';
          limit = (if raw_limit = [] then Some 0
                   else case atoi raw_limit of None \<Rightarrow> None | Some n \<Rightarrow> if n \<le> 0 then None else Some n);
          offset = (if raw_offset = [] then Some 0
                    else case atoi raw_offset of None \<Rightarrow> None | Some n \<Rightarrow> if n < 0 then None else Some n)
      in case limit of
           None \<Rightarrow> Inl (AdminValidationError ''limit'' (ErrNew ''limit must be a positive integer''))
         | Some l \<Rightarrow>
        (case offset of
           None \<Rightarrow> Inl (AdminValidationError ''offset'' (ErrNew ''offset must be a non-negative integer''))
         | Some off \<Rightarrow>
             let query = \<lparr>q_agent_id = [], q_event_type = hq_query req ''eventType'',
                          q_decision = hq_query req ''decision'', q_limit = l, q_offset = off\<rparr>
             in (case normalize_query rt query of
                   Inl e \<Rightarrow> Inl (AdminValidationError [] e)
                 | Inr _ \<Rightarrow> Inr query)))"

text \<open>The service behind the admin handlers.\<close>

record 'w admin_iface =
  mi_get_agent :: "string \<Rightarrow> 'w \<Rightarrow> goerr + agent_response"
  mi_list_audit :: "audit_query \<Rightarrow> 'w \<Rightarrow> goerr + list_result"
  mi_list_audit_by_agent :: "string \<Rightarrow> audit_query \<Rightarrow> 'w \<Rightarrow> goerr + list_result"
  mi_get_revocation_status :: "string \<Rightarrow> string \<Rightarrow> 'w \<Rightarrow> goerr + revocation_status_response"
  mi_set_revocation_status :: "set_revocation_request \<Rightarrow> 'w \<Rightarrow> (goerr + set_revocation_response) \<times> 'w"

definition answer :: "('a \<Rightarrow> string + json) \<Rightarrow> goerr + 'a \<Rightarrow> http_op list" where
  "answer to_json result =
     (case result of Inl e \<Rightarrow> admin_error_ops e | Inr v \<Rightarrow> write_json (to_json v))"

definition admin_get_agent_handler :: "'w id_source \<Rightarrow> 'w admin_iface \<Rightarrow> 'w handler" where
  "admin_get_agent_handler ids service =
     with_method ids ''GET'' (\<lambda>req w.
       (answer (\<lambda>r. Inr (agent_response_json r)) (mi_get_agent service (hq_path_value req ''agentId'') w), w))"

definition admin_list_audit_handler :: "runtime \<Rightarrow> 'w id_source \<Rightarrow> 'w admin_iface \<Rightarrow> 'w handler" where
  "admin_list_audit_handler rt ids service =
     with_method ids ''GET'' (\<lambda>req w.
       case parse_audit_query rt req of
         Inl e \<Rightarrow> (admin_error_ops e, w)
       | Inr query \<Rightarrow> (answer list_result_json (mi_list_audit service query w), w))"

definition admin_list_audit_by_agent_handler ::
  "runtime \<Rightarrow> 'w id_source \<Rightarrow> 'w admin_iface \<Rightarrow> 'w handler" where
  "admin_list_audit_by_agent_handler rt ids service =
     with_method ids ''GET'' (\<lambda>req w.
       case parse_audit_query rt req of
         Inl e \<Rightarrow> (admin_error_ops e, w)
       | Inr query \<Rightarrow>
           (answer list_result_json
              (mi_list_audit_by_agent service (hq_path_value req ''agentId'') query w), w))"

definition admin_get_revocation_status_handler :: "'w id_source \<Rightarrow> 'w admin_iface \<Rightarrow> 'w handler" where
  "admin_get_revocation_status_handler ids service =
     with_method ids ''GET'' (\<lambda>req w.
       (answer revocation_status_json
          (mi_get_revocation_status service (hq_path_value req ''issuer'') (hq_path_value req ''credentialId'') w), w))"

definition admin_set_revocation_status_handler ::
  "'w id_source \<Rightarrow> 'w admin_iface \<Rightarrow> 'w handler" where
  "admin_set_revocation_status_handler ids service =
     with_method ids ''POST'' (\<lambda>req w.
       case decode_single decode_revocation_request (hq_body req) of
         None \<Rightarrow> (write_json_error 400 ''invalid_json'' ''request body must be valid JSON'', w)
       | Some r \<Rightarrow>
           (case mi_set_revocation_status service r w of
              (result, w') \<Rightarrow> (answer (\<lambda>v. Inr (set_revocation_json v)) result, w')))"

subsection \<open>Request ids\<close>

lemma hex_of_nat_nonempty [simp]: "hex_of_nat n \<noteq> []"
  by (subst hex_of_nat.simps) simp

lemma new_request_id_nonempty: "fst (new_request_id ids w) \<noteq> []"
proof -
  have "hex_encode (arr_bytes b) \<noteq> []" for b :: "64 word"
  proof -
    have "length (hex_encode (arr_bytes b)) = 16" by simp
    then show ?thesis by force
  qed
  then show ?thesis by (simp add: new_request_id_def split: option.split prod.split)
qed

lemma ensure_request_id_form:
  obtains i w' where "ensure_request_id ids req w = ([SetHeader request_id_header i], req\<lparr>hq_context_id := i\<rparr>, w')"
    and "i \<noteq> []" and "request_id (Some req) \<noteq> [] \<longrightarrow> i = request_id (Some req) \<and> w' = w"
proof (cases "request_id (Some req) = []")
  case True
  obtain i w' where n: "new_request_id ids w = (i, w')" by fastforce
  then have "i \<noteq> []" using new_request_id_nonempty [of ids w] by simp
  with n True that show thesis by (simp add: ensure_request_id_def)
next
  case False
  with that [of "request_id (Some req)" w] show thesis by (simp add: ensure_request_id_def)
qed

lemma request_id_context: "hq_context_id req \<noteq> [] \<Longrightarrow> request_id (Some req) = hq_context_id req"
  by (simp add: request_id_def)

text \<open>A second call keeps the id of the first.\<close>

lemma ensure_request_id_again:
  assumes "hq_context_id req \<noteq> []"
  shows "ensure_request_id ids req w = ([SetHeader request_id_header (hq_context_id req)], req, w)"
  using assms by (simp add: ensure_request_id_def request_id_context)

subsection \<open>Statuses\<close>

lemma first_status_json_error [simp]: "first_status (write_json_error n c m) = n"
  by (simp add: write_json_error_def json_type_def)

lemma first_status_write_json [simp]: "first_status (write_json v) = 200"
  by (simp add: write_json_def json_type_def)

lemma first_status_not_allowed [simp]: "first_status (method_not_allowed m) = 405"
  by (simp add: method_not_allowed_def)

lemma first_status_internal [simp]: "first_status internal_error = 500"
  by (simp add: internal_error_def)

definition register_status :: "goerr \<Rightarrow> int" where
  "register_status e = (if err_is e (Registration RG_ErrValidation) then 400 else 500)"

definition resolve_status :: "goerr \<Rightarrow> int" where
  "resolve_status e =
     (if err_is e (Resolver RS_ErrValidation) then 400
      else if err_is e (Resolver RS_ErrNotFound) then 404
      else if err_is e (Resolver RS_ErrTrustDenied) then 403
      else if err_is e (Resolver RS_ErrExpired) then 410 else 500)"

definition admin_status :: "goerr \<Rightarrow> int" where
  "admin_status e =
     (if err_is e (Admin AD_ErrValidation) then 400
      else if err_is e (Admin AD_ErrNotFound) then 404 else 500)"

lemma first_status_errors [simp]:
  "first_status (register_error_ops e) = register_status e"
  "first_status (resolve_error_ops e) = resolve_status e"
  "first_status (admin_error_ops e) = admin_status e"
  by (simp_all add: register_error_ops_def register_status_def resolve_error_ops_def resolve_status_def
      admin_error_ops_def admin_status_def)

lemma first_status_answer [simp]:
  "first_status (answer f r) = (case r of Inl e \<Rightarrow> admin_status e | Inr _ \<Rightarrow> 200)"
  by (simp add: answer_def split: sum.split)

text \<open>No handler writes the status 0, so the first one written is the one sent.\<close>

definition ops_ok :: "http_op list \<Rightarrow> bool" where
  "ops_ok ops \<longleftrightarrow> WriteHeader 0 \<notin> set ops"

lemma ops_ok_simps [simp]:
  "ops_ok [SetHeader k hv]" "ops_ok (xs @ ys) \<longleftrightarrow> ops_ok xs \<and> ops_ok ys"
  "n \<noteq> 0 \<Longrightarrow> ops_ok (write_json_error n c m)" "ops_ok (write_json v)" "ops_ok (method_not_allowed m)"
  "ops_ok (register_error_ops e)" "ops_ok (resolve_error_ops e)" "ops_ok (admin_error_ops e)"
  "ops_ok (answer f r)"
  by (auto simp: ops_ok_def write_json_error_def write_json_def json_type_def encode_json_def
      method_not_allowed_def register_error_ops_def resolve_error_ops_def admin_error_ops_def internal_error_def
      answer_def split: sum.splits)

lemma status_of_ops: "ops_ok ops \<Longrightarrow> hp_status (run_ops ops) = first_status ops"
  by (rule first_status_run) (auto simp: ops_ok_def)

lemma with_method_form:
  obtains i w' where "i \<noteq> []"
    and "request_id (Some req) \<noteq> [] \<longrightarrow> i = request_id (Some req) \<and> w' = w"
    and "with_method ids allowed inner req w =
      (if hq_method req \<noteq> allowed then (SetHeader request_id_header i # method_not_allowed allowed, w')
       else (SetHeader request_id_header i # fst (inner (req\<lparr>hq_context_id := i\<rparr>) w'),
             snd (inner (req\<lparr>hq_context_id := i\<rparr>) w')))"
proof -
  obtain i w' where e: "ensure_request_id ids req w = ([SetHeader request_id_header i], req\<lparr>hq_context_id := i\<rparr>, w')"
    "i \<noteq> []" "request_id (Some req) \<noteq> [] \<longrightarrow> i = request_id (Some req) \<and> w' = w"
    by (rule ensure_request_id_form)
  then show thesis
    by (intro that [of i w']) (simp_all add: with_method_def split: prod.split)
qed

subsection \<open>Authentication\<close>

lemma valid_bearer_token_iff: "valid_bearer_token header token \<longleftrightarrow> header = ''Bearer '' @ token"
  by (auto simp: valid_bearer_token_def has_prefix_iff)

lemma with_bearer_auth_rejects:
  assumes "token \<noteq> []" and "hq_header req ''Authorization'' \<noteq> ''Bearer '' @ token"
  shows "with_bearer_auth ids next_handler token req w =
     (case ensure_request_id ids req w of
        (ops, req', w1) \<Rightarrow> (ops @ write_json_error 401 ''unauthorized'' (status_text 401), w1))"
  using assms
  by (auto simp: with_bearer_auth_def valid_bearer_token_iff ensure_request_id_def split: prod.splits)

lemma with_bearer_auth_accepts:
  assumes "token = [] \<or> hq_header req ''Authorization'' = ''Bearer '' @ token" and "hq_context_id req = i" "i \<noteq> []"
  shows "with_bearer_auth ids next_handler token req w =
     ((if token = [] then [] else [SetHeader request_id_header i]) @ fst (next_handler req w), snd (next_handler req w))"
proof (cases "token = []")
  case True
  then show ?thesis by (simp add: with_bearer_auth_def)
next
  case False
  with assms have "valid_bearer_token (hq_header req ''Authorization'') token" by (simp add: valid_bearer_token_iff)
  with False ensure_request_id_again [of req ids w] assms(2,3) show ?thesis
    by (simp add: with_bearer_auth_def split: prod.split)
qed

subsection \<open>The handlers\<close>

text \<open>Behind \<open>WithRequestID\<close> every request has an id in its context.\<close>

lemma with_method_ctx:
  assumes "hq_context_id req \<noteq> []"
  shows "with_method ids allowed inner req w =
     (if hq_method req \<noteq> allowed
      then (SetHeader request_id_header (hq_context_id req) # method_not_allowed allowed, w)
      else (SetHeader request_id_header (hq_context_id req) # fst (inner req w), snd (inner req w)))"
  by (simp add: with_method_def ensure_request_id_again [OF assms] split: prod.split)

lemma register_handler_eq:
  assumes "hq_context_id req \<noteq> []"
  shows "register_agent_handler ids service req w =
     (if hq_method req \<noteq> ''POST''
      then (SetHeader request_id_header (hq_context_id req) # method_not_allowed ''POST'', w)
      else case decode_single decode_register_request (hq_body req) of
        None \<Rightarrow> (SetHeader request_id_header (hq_context_id req)
                   # write_json_error 400 ''invalid_registration_request'' ''invalid registration request'', w)
      | Some r \<Rightarrow>
          (SetHeader request_id_header (hq_context_id req)
             # (case fst (service r w) of
                  Inl e \<Rightarrow> register_error_ops e
                | Inr resp \<Rightarrow> write_json (Inr (register_response_json resp))), snd (service r w)))"
  by (simp add: register_agent_handler_def with_method_ctx [OF assms] split: option.split prod.split sum.split)

lemma resolve_handler_eq:
  assumes "hq_context_id req \<noteq> []"
  shows "resolve_agent_handler ids service req w =
     (if hq_method req \<noteq> ''POST''
      then (SetHeader request_id_header (hq_context_id req) # method_not_allowed ''POST'', w)
      else case decode_single decode_resolve_request (hq_body req) of
        None \<Rightarrow> (SetHeader request_id_header (hq_context_id req)
                   # write_json_error 400 ''invalid_resolve_request'' ''invalid resolve request'', w)
      | Some r \<Rightarrow>
          (SetHeader request_id_header (hq_context_id req)
             # (case fst (service r w) of
                  Inl e \<Rightarrow> resolve_error_ops e
                | Inr resp \<Rightarrow> write_json (resolve_response_json resp)), snd (service r w)))"
  by (simp add: resolve_agent_handler_def with_method_ctx [OF assms] split: option.split prod.split sum.split)

lemma ops_ok_Cons [simp]: "ops_ok (SetHeader k hv # ops) \<longleftrightarrow> ops_ok ops"
  by (simp add: ops_ok_def)

lemma resolve_handler_status:
  assumes "hq_context_id req \<noteq> []" and "hq_method req = ''POST''"
    and "decode_single decode_resolve_request (hq_body req) = Some r"
  shows "hp_status (run_ops (fst (resolve_agent_handler ids service req w))) =
     (case fst (service r w) of Inl e \<Rightarrow> resolve_status e | Inr _ \<Rightarrow> 200)"
proof -
  let ?ops = "fst (resolve_agent_handler ids service req w)"
  have "ops_ok ?ops" by (simp add: resolve_handler_eq assms split: sum.split)
  then have "hp_status (run_ops ?ops) = first_status ?ops" by (rule status_of_ops)
  then show ?thesis by (simp add: resolve_handler_eq assms split: sum.split)
qed

lemma register_handler_status:
  assumes "hq_context_id req \<noteq> []" and "hq_method req = ''POST''"
    and "decode_single decode_register_request (hq_body req) = Some r"
  shows "hp_status (run_ops (fst (register_agent_handler ids service req w))) =
     (case fst (service r w) of Inl e \<Rightarrow> register_status e | Inr _ \<Rightarrow> 200)"
proof -
  let ?ops = "fst (register_agent_handler ids service req w)"
  have "ops_ok ?ops" by (simp add: register_handler_eq assms split: sum.split)
  then have "hp_status (run_ops ?ops) = first_status ?ops" by (rule status_of_ops)
  then show ?thesis by (simp add: register_handler_eq assms split: sum.split)
qed

lemma revocation_handler_eq:
  assumes "hq_context_id req \<noteq> []"
  shows "admin_set_revocation_status_handler ids service req w =
     (if hq_method req \<noteq> ''POST''
      then (SetHeader request_id_header (hq_context_id req) # method_not_allowed ''POST'', w)
      else case decode_single decode_revocation_request (hq_body req) of
        None \<Rightarrow> (SetHeader request_id_header (hq_context_id req)
                   # write_json_error 400 ''invalid_json'' ''request body must be valid JSON'', w)
      | Some r \<Rightarrow>
          (SetHeader request_id_header (hq_context_id req)
             # answer (\<lambda>v. Inr (set_revocation_json v)) (fst (mi_set_revocation_status service r w)),
           snd (mi_set_revocation_status service r w)))"
  by (simp add: admin_set_revocation_status_handler_def with_method_ctx [OF assms] split: option.split prod.split)

text \<open>A body that does not decode is answered with 400, and no service is called.\<close>

lemma status_400 [simp]: "hp_status (run_ops (SetHeader k v # write_json_error 400 c m)) = 400"
proof -
  have "ops_ok (SetHeader k v # write_json_error 400 c m)" by simp
  from status_of_ops [OF this] show ?thesis by simp
qed

lemma bad_body_refused:
  assumes "hq_context_id req \<noteq> []" and "hq_method req = ''POST''"
  shows "decode_single decode_resolve_request (hq_body req) = None \<Longrightarrow>
      hp_status (run_ops (fst (resolve_agent_handler ids resolve_service req w))) = 400
      \<and> snd (resolve_agent_handler ids resolve_service req w) = w"
    and "decode_single decode_register_request (hq_body req) = None \<Longrightarrow>
      hp_status (run_ops (fst (register_agent_handler ids register_service req w))) = 400
      \<and> snd (register_agent_handler ids register_service req w) = w"
    and "decode_single decode_revocation_request (hq_body req) = None \<Longrightarrow>
      hp_status (run_ops (fst (admin_set_revocation_status_handler ids admin_service req w))) = 400
      \<and> snd (admin_set_revocation_status_handler ids admin_service req w) = w"
  using assms by (simp_all add: resolve_handler_eq register_handler_eq revocation_handler_eq)

lemma parse_audit_query_Inr:
  assumes "parse_audit_query rt req = Inr q"
  shows "q_agent_id q = []" and "0 \<le> q_limit q" and "0 \<le> q_offset q"
    and "\<exists>q'. normalize_query rt q = Inr q'"
  using assms by (auto simp: parse_audit_query_def Let_def split: if_splits option.splits sum.splits)

end
