(* ===== verification/Observability.thy ===== *)
theory Observability
  imports Http_Model Store_Interfaces "HOL-Library.AList"
begin

text \<open>
  \<open>internal/observability\<close>: the in-process metrics registry, the middleware that records every
  request, and the audit store wrapper that counts events. The maps of the registry are
  association lists, a counter is a 64-bit word and wraps as Go's \<open>uint64\<close> does. A latency is
  kept in whole microseconds, of which the Go code stores a thousandth as a \<open>float64\<close> number of
  milliseconds; the rounding of the floats is not modelled. The lemmas show that the \<open>route\<close>
  label is one of a fixed set whatever the path, and what a request adds to the counters.
\<close>

definition route_unknown :: string where "route_unknown = ''unknown''"
definition route_healthz :: string where "route_healthz = ''/healthz''"
definition route_readyz :: string where "route_readyz = ''/readyz''"
definition route_metrics :: string where "route_metrics = ''/metrics''"
definition route_register :: string where "route_register = ''/v1/agents/register''"
definition route_resolve :: string where "route_resolve = ''/v1/resolve''"
definition route_admin_agent :: string where "route_admin_agent = ''/v1/admin/agents/{agentId}''"
definition route_admin_audit :: string where "route_admin_audit = ''/v1/admin/audit''"
definition route_admin_audit_agent :: string where
  "route_admin_audit_agent = ''/v1/admin/audit/{agentId}''"
definition route_admin_revocation :: string where "route_admin_revocation = ''/v1/admin/revocation''"
definition route_admin_revoked_id :: string where
  "route_admin_revoked_id = ''/v1/admin/revocation/{issuer}/{credentialId}''"

definition classify_route :: "string \<Rightarrow> string" where
  "classify_route path =
     (if path \<in> {route_healthz, route_readyz, route_metrics, route_register, route_resolve,
                 route_admin_audit, route_admin_revocation}
      then path
      else
        let parts = split_on CHR ''/'' (trim_byte CHR ''/'' path) in
        if length parts = 4 \<and> parts ! 0 = ''v1'' \<and> parts ! 1 = ''admin'' \<and> parts ! 2 = ''agents''
        then route_admin_agent
        else if length parts = 4 \<and> parts ! 0 = ''v1'' \<and> parts ! 1 = ''admin'' \<and> parts ! 2 = ''audit''
        then route_admin_audit_agent
        else if length parts = 5 \<and> parts ! 0 = ''v1'' \<and> parts ! 1 = ''admin'' \<and> parts ! 2 = ''revocation''
        then route_admin_revoked_id
        else route_unknown)"

definition safe_route :: "string \<Rightarrow> string" where
  "safe_route route =
     (if route \<in> {route_healthz, route_readyz, route_metrics, route_register, route_resolve,
                  route_admin_agent, route_admin_audit, route_admin_audit_agent,
                  route_admin_revocation, route_admin_revoked_id}
      then route else classify_route route)"

text \<open>\<open>pattern\<close> is \<open>r.Pattern\<close>, empty when no route matched; a nil request has no route.\<close>

definition route_for_request :: "http_request option \<Rightarrow> string \<Rightarrow> string" where
  "route_for_request r pattern =
     (case r of
        None \<Rightarrow> route_unknown
      | Some req \<Rightarrow> if pattern \<noteq> [] then safe_route pattern else classify_route (hq_path req))"

definition is_admin_route :: "string \<Rightarrow> bool" where
  "is_admin_route route = has_prefix route ''/v1/admin/''"

subsection \<open>The registry\<close>

datatype metric_key = MetricKey (key_name: string) (key_labels: string)

text \<open>\<open>sampleLess\<close>, the order of the samples: by name, then by labels. It is linear.\<close>

definition sample_less :: "metric_key \<Rightarrow> metric_key \<Rightarrow> bool" where
  "sample_less a b =
     (if key_name a \<noteq> key_name b then key_name a < key_name b else key_labels a < key_labels b)"

instantiation metric_key :: linorder
begin

definition less_metric_key :: "metric_key \<Rightarrow> metric_key \<Rightarrow> bool" where
  "a < b \<longleftrightarrow> sample_less a b"

definition less_eq_metric_key :: "metric_key \<Rightarrow> metric_key \<Rightarrow> bool" where
  "a \<le> b \<longleftrightarrow> \<not> sample_less b a"

instance
proof
  fix a b c :: metric_key
  show "a < b \<longleftrightarrow> a \<le> b \<and> \<not> b \<le> a" "a \<le> a" "a \<le> b \<or> b \<le> a"
    by (auto simp: less_metric_key_def less_eq_metric_key_def sample_less_def split: if_splits)
  show "a \<le> b \<Longrightarrow> b \<le> c \<Longrightarrow> a \<le> c"
    by (auto simp: less_eq_metric_key_def sample_less_def split: if_splits)
  show "a \<le> b \<Longrightarrow> b \<le> a \<Longrightarrow> a = b"
    by (cases a; cases b) (auto simp: less_eq_metric_key_def sample_less_def split: if_splits)
qed

end

record latency_stats =
  ls_count :: "64 word"
  ls_sum :: int
  ls_min :: int
  ls_max :: int

record registry =
  rg_counters :: "(metric_key \<times> 64 word) list"
  rg_latencies :: "(metric_key \<times> latency_stats) list"

definition new_registry :: registry where
  "new_registry = \<lparr>rg_counters = [], rg_latencies = []\<rparr>"

definition escape_label :: "string \<Rightarrow> string" where
  "escape_label v =
     replace_byte quote [backslash, quote]
       (replace_byte CHR 0x0A [backslash, CHR ''n''] (replace_byte backslash [backslash, backslash] v))"

definition format_label :: "string \<times> string \<Rightarrow> string" where
  "format_label kv = fst kv @ ''='' @ [quote] @ escape_label (snd kv) @ [quote]"

definition format_labels :: "(string \<times> string) list \<Rightarrow> string" where
  "format_labels labels =
     (if labels = [] then []
      else ''{'' @ join '','' (map format_label (sort_key fst labels)) @ ''}'')"

definition counter_value :: "registry \<Rightarrow> metric_key \<Rightarrow> 64 word" where
  "counter_value r k = (case map_of (rg_counters r) k of None \<Rightarrow> 0 | Some n \<Rightarrow> n)"

definition add_counter ::
  "registry option \<Rightarrow> string \<Rightarrow> (string \<times> string) list \<Rightarrow> 64 word \<Rightarrow> registry option" where
  "add_counter r metric labels delta =
     map_option (\<lambda>reg. reg\<lparr>rg_counters :=
        AList.update (MetricKey metric (format_labels labels))
          (counter_value reg (MetricKey metric (format_labels labels)) + delta) (rg_counters reg)\<rparr>) r"

definition zero_stats :: latency_stats where
  "zero_stats = \<lparr>ls_count = 0, ls_sum = 0, ls_min = 0, ls_max = 0\<rparr>"

definition observe_stats :: "latency_stats \<Rightarrow> int \<Rightarrow> latency_stats" where
  "observe_stats stats v =
     (let n = ls_count stats + 1 in
      \<lparr>ls_count = n, ls_sum = ls_sum stats + v,
       ls_min = (if n = 1 \<or> v < ls_min stats then v else ls_min stats),
       ls_max = (if n = 1 \<or> v > ls_max stats then v else ls_max stats)\<rparr>)"

definition observe_latency ::
  "registry option \<Rightarrow> string \<Rightarrow> (string \<times> string) list \<Rightarrow> int \<Rightarrow> registry option" where
  "observe_latency r metric labels v =
     map_option (\<lambda>reg.
       let k = MetricKey metric (format_labels labels);
           stats = (case map_of (rg_latencies reg) k of None \<Rightarrow> zero_stats | Some st \<Rightarrow> st)
       in reg\<lparr>rg_latencies := AList.update k (observe_stats stats v) (rg_latencies reg)\<rparr>) r"

definition inc_http_requests :: "registry option \<Rightarrow> string \<Rightarrow> string \<Rightarrow> int \<Rightarrow> registry option" where
  "inc_http_requests r method route status =
     add_counter r ''nanda_http_requests_total''
       [(''method'', method), (''route'', safe_route route), (''status'', itoa status)] 1"

text \<open>\<open>micros\<close> is \<open>duration.Microseconds()\<close>.\<close>

definition observe_http_request :: "registry option \<Rightarrow> string \<Rightarrow> int \<Rightarrow> registry option" where
  "observe_http_request r route micros =
     observe_latency r ''nanda_http_request_duration_ms'' [(''route'', safe_route route)] micros"

definition inc_registration_requests :: "registry option \<Rightarrow> string \<Rightarrow> int \<Rightarrow> registry option" where
  "inc_registration_requests r decision status =
     add_counter r ''nanda_registration_requests_total''
       [(''decision'', decision), (''status'', itoa status)] 1"

definition inc_resolve_requests :: "registry option \<Rightarrow> string \<Rightarrow> int \<Rightarrow> registry option" where
  "inc_resolve_requests r decision status =
     add_counter r ''nanda_resolve_requests_total''
       [(''decision'', decision), (''status'', itoa status)] 1"

definition inc_admin_requests :: "registry option \<Rightarrow> string \<Rightarrow> int \<Rightarrow> registry option" where
  "inc_admin_requests r route status =
     add_counter r ''nanda_admin_requests_total''
       [(''route'', safe_route route), (''status'', itoa status)] 1"

definition inc_trust_denied :: "registry option \<Rightarrow> registry option" where
  "inc_trust_denied r = add_counter r ''nanda_trust_denied_total'' [] 1"

definition inc_revocation_updates :: "registry option \<Rightarrow> registry option" where
  "inc_revocation_updates r = add_counter r ''nanda_revocation_updates_total'' [] 1"

definition inc_audit_events :: "registry option \<Rightarrow> string \<Rightarrow> string \<Rightarrow> registry option" where
  "inc_audit_events r event_type decision =
     add_counter r ''nanda_audit_events_total'' [(''eventType'', event_type), (''decision'', decision)] 1"

text \<open>\<open>%.3f\<close> of a number of microseconds, in milliseconds.\<close>

definition format_ms :: "int \<Rightarrow> string" where
  "format_ms us =
     (if us < 0 then ''-'' else []) @ itoa (\<bar>us\<bar> div 1000) @ ''.'' @ pad_digits 3 (\<bar>us\<bar> mod 1000)"

definition newline :: string where
  "newline = [CHR 0x0A]"

definition counter_line :: "metric_key \<times> 64 word \<Rightarrow> string" where
  "counter_line s = key_name (fst s) @ key_labels (fst s) @ '' '' @ digits_of (unat (snd s)) @ newline"

definition latency_lines :: "metric_key \<times> latency_stats \<Rightarrow> string" where
  "latency_lines s =
     (let n = key_name (fst s); l = key_labels (fst s); st = snd s in
      n @ ''_count'' @ l @ '' '' @ digits_of (unat (ls_count st)) @ newline
      @ n @ ''_sum'' @ l @ '' '' @ format_ms (ls_sum st) @ newline
      @ n @ ''_min'' @ l @ '' '' @ format_ms (ls_min st) @ newline
      @ n @ ''_max'' @ l @ '' '' @ format_ms (ls_max st) @ newline)"

definition render :: "registry \<Rightarrow> string" where
  "render r =
     concat (map counter_line (sort_key fst (rg_counters r)))
     @ concat (map latency_lines (sort_key fst (rg_latencies r)))"

subsection \<open>The middleware\<close>

text \<open>\<open>responseRecorder\<close>: the status it has seen and the calls it has passed on.\<close>

record recorder =
  rc_status :: int
  rc_ops :: "http_op list"

fun recorder_op :: "recorder \<Rightarrow> http_op \<Rightarrow> recorder" where
  "recorder_op r (SetHeader k v) = r\<lparr>rc_ops := rc_ops r @ [SetHeader k v]\<rparr>"
| "recorder_op r (WriteHeader n) =
     (if rc_status r = 0 then r\<lparr>rc_status := n, rc_ops := rc_ops r @ [WriteHeader n]\<rparr> else r)"
| "recorder_op r (WriteBody b) =
     r\<lparr>rc_status := (if rc_status r = 0 then 200 else rc_status r), rc_ops := rc_ops r @ [WriteBody b]\<rparr>"

definition record_ops :: "http_op list \<Rightarrow> recorder" where
  "record_ops ops = foldl recorder_op \<lparr>rc_status = 0, rc_ops = []\<rparr> ops"

definition request_decision :: "int \<Rightarrow> string" where
  "request_decision status =
     (if 200 \<le> status \<and> status < 300 then ''allowed'' else if 500 \<le> status then ''error'' else ''denied'')"

definition resolve_decision :: "int \<Rightarrow> string" where
  "resolve_decision status =
     (if status = 404 then ''not_found'' else if status = 410 then ''expired'' else request_decision status)"

definition record_route_metrics :: "registry option \<Rightarrow> string \<Rightarrow> string \<Rightarrow> int \<Rightarrow> registry option" where
  "record_route_metrics r method route status =
     (if route = route_register then inc_registration_requests r (request_decision status) status
      else if route = route_resolve then
        (let r1 = inc_resolve_requests r (resolve_decision status) status
         in if status = 403 then inc_trust_denied r1 else r1)
      else if route \<in> {route_admin_agent, route_admin_audit, route_admin_audit_agent,
                       route_admin_revocation, route_admin_revoked_id} then
        (let r1 = inc_admin_requests r route status
         in if route = route_admin_revocation \<and> method = ''POST'' \<and> 200 \<le> status \<and> status < 300
            then inc_revocation_updates r1 else r1)
      else r)"

definition micros_of :: "int \<Rightarrow> int" where
  "micros_of d = (if d < 0 then - ((- d) div 1000) else d div 1000)"

definition observe_request :: "registry option \<Rightarrow> string \<Rightarrow> string \<Rightarrow> int \<Rightarrow> int \<Rightarrow> registry option" where
  "observe_request r method route status duration =
     record_route_metrics
       (observe_http_request (inc_http_requests r method route status) route (micros_of duration))
       method route status"

text \<open>\<open>on_registry\<close> updates the registry in the world, \<open>elapsed\<close> is \<open>time.Since(start)\<close>,
  \<open>pattern_of\<close> the pattern \<open>next\<close> leaves in the request. The log line is not modelled.\<close>

definition middleware ::
  "((registry option \<Rightarrow> registry option) \<Rightarrow> 'w \<Rightarrow> 'w) \<Rightarrow> ('w \<Rightarrow> int) \<Rightarrow> (http_request \<Rightarrow> string)
     \<Rightarrow> 'w handler \<Rightarrow> 'w handler" where
  "middleware on_registry elapsed pattern_of next_handler req w =
     (let (ops, w1) = next_handler req w;
          recorded = record_ops ops;
          status = (if rc_status recorded = 0 then 200 else rc_status recorded);
          route = route_for_request (Some req) (pattern_of req)
      in (rc_ops recorded,
          on_registry (\<lambda>r. observe_request r (hq_method req) route status (elapsed w1)) w1))"

subsection \<open>The audit store wrapper\<close>

definition observe_append ::
  "((registry option \<Rightarrow> registry option) \<Rightarrow> 'w \<Rightarrow> 'w) \<Rightarrow> (goerr + audit_event) \<times> 'w
     \<Rightarrow> (goerr + audit_event) \<times> 'w" where
  "observe_append on_registry result =
     (case result of
        (Inl e, w) \<Rightarrow> (Inl e, w)
      | (Inr event, w) \<Rightarrow>
          (Inr event, on_registry (\<lambda>r. inc_audit_events r (ev_type event) (ev_decision event)) w))"

definition new_audit_store ::
  "((registry option \<Rightarrow> registry option) \<Rightarrow> 'w \<Rightarrow> 'w) \<Rightarrow> 'w audit_iface option \<Rightarrow> 'w audit_iface option" where
  "new_audit_store on_registry next_store =
     map_option (\<lambda>store. store\<lparr>ai_append := \<lambda>input w. observe_append on_registry (ai_append store input w)\<rparr>) next_store"

subsection \<open>Labels\<close>

definition known_routes :: "string set" where
  "known_routes = {route_unknown, route_healthz, route_readyz, route_metrics, route_register, route_resolve,
     route_admin_agent, route_admin_audit, route_admin_audit_agent, route_admin_revocation, route_admin_revoked_id}"

lemma classify_route_known: "classify_route path \<in> known_routes"
  by (auto simp: classify_route_def known_routes_def Let_def)

lemma safe_route_known: "safe_route route \<in> known_routes"
  using classify_route_known by (auto simp: safe_route_def known_routes_def)

lemma route_for_request_known: "route_for_request r pattern \<in> known_routes"
  using classify_route_known safe_route_known
  by (auto simp: route_for_request_def known_routes_def split: option.split)

subsection \<open>Counters\<close>

lemma counter_value_add [simp]:
  "add_counter (Some r) metric labels d
     = Some (r\<lparr>rg_counters := AList.update (MetricKey metric (format_labels labels))
          (counter_value r (MetricKey metric (format_labels labels)) + d) (rg_counters r)\<rparr>)"
  by (simp add: add_counter_def)

lemma counter_value_update [simp]:
  "counter_value (r\<lparr>rg_counters := AList.update k n (rg_counters r)\<rparr>) k' = (if k' = k then n else counter_value r k')"
  by (simp add: counter_value_def update_conv')

lemma counter_value_latencies [simp]: "counter_value (r\<lparr>rg_latencies := l\<rparr>) k = counter_value r k"
  by (simp add: counter_value_def)

definition counter_of :: "registry option \<Rightarrow> metric_key \<Rightarrow> 64 word" where
  "counter_of r k = (case r of None \<Rightarrow> 0 | Some reg \<Rightarrow> counter_value reg k)"

lemma counter_of_add:
  "counter_of (add_counter r metric labels d) k =
     counter_of r k + (if r \<noteq> None \<and> k = MetricKey metric (format_labels labels) then d else 0)"
  by (cases r) (simp_all add: counter_of_def add_counter_def)

lemma counter_of_observe [simp]: "counter_of (observe_latency r metric labels v) k = counter_of r k"
  by (cases r) (simp_all add: counter_of_def observe_latency_def Let_def)

lemma is_none_add [simp]:
  "add_counter r metric labels d = None \<longleftrightarrow> r = None" "observe_latency r metric labels v = None \<longleftrightarrow> r = None"
  by (simp_all add: add_counter_def observe_latency_def)

definition http_key :: "string \<Rightarrow> string \<Rightarrow> int \<Rightarrow> metric_key" where
  "http_key method route status =
     (MetricKey ''nanda_http_requests_total''
      (format_labels [(''method'', method), (''route'', safe_route route), (''status'', itoa status)]))"

text \<open>A request adds one to its own request counter and to no other request counter.\<close>

lemma http_counter_step:
  assumes "r \<noteq> None"
  shows "counter_of (observe_request r method route status d) (MetricKey ''nanda_http_requests_total'' labels) =
     counter_of r (MetricKey ''nanda_http_requests_total'' labels)
     + (if (MetricKey ''nanda_http_requests_total'' labels) = http_key method route status then 1 else 0)"
  using assms
  by (simp add: observe_request_def record_route_metrics_def inc_http_requests_def observe_http_request_def
      inc_registration_requests_def inc_resolve_requests_def inc_admin_requests_def inc_trust_denied_def
      inc_revocation_updates_def counter_of_add http_key_def Let_def)

text \<open>Trust denials are counted exactly for the resolutions that end with 403.\<close>

lemma trust_denied_step:
  assumes "r \<noteq> None"
  shows "counter_of (observe_request r method route status d) (MetricKey ''nanda_trust_denied_total'' []) =
     counter_of r (MetricKey ''nanda_trust_denied_total'' [])
     + (if route = route_resolve \<and> status = 403 then 1 else 0)"
  using assms
  by (auto simp: observe_request_def record_route_metrics_def inc_http_requests_def observe_http_request_def
      inc_registration_requests_def inc_resolve_requests_def inc_admin_requests_def inc_trust_denied_def
      inc_revocation_updates_def counter_of_add format_labels_def Let_def route_register_def route_resolve_def)

text \<open>The recorder is transparent and sees the status that is sent.\<close>

lemma record_ops_run:
  "hp_status (foldl apply_op r0 (rc_ops rc)) = rc_status rc \<Longrightarrow> hp_status r0 = 0 \<Longrightarrow>
   foldl apply_op r0 (rc_ops (foldl recorder_op rc ops)) = foldl apply_op (foldl apply_op r0 (rc_ops rc)) ops
   \<and> rc_status (foldl recorder_op rc ops) = hp_status (foldl apply_op (foldl apply_op r0 (rc_ops rc)) ops)"
proof (induction ops arbitrary: rc)
  case (Cons op ops)
  have inv: "hp_status (foldl apply_op r0 (rc_ops (recorder_op rc op))) = rc_status (recorder_op rc op)"
    using Cons.prems by (cases op) auto
  have same: "foldl apply_op r0 (rc_ops (recorder_op rc op)) = apply_op (foldl apply_op r0 (rc_ops rc)) op"
    using Cons.prems by (cases op) auto
  from Cons.IH [OF inv Cons.prems(2)] show ?case by (simp add: same)
qed simp

lemma recorder_transparent:
  "run_ops (rc_ops (record_ops ops)) = run_ops ops" "rc_status (record_ops ops) = hp_status (run_ops ops)"
  using record_ops_run [of fresh_response "\<lparr>rc_status = 0, rc_ops = []\<rparr>" ops]
  by (simp_all add: record_ops_def run_ops_def fresh_response_def)

subsection \<open>Rendering\<close>

text \<open>The order in which a Go map is visited is the order of the association list. A registry that
  is built by the operations has distinct keys, so sorting removes every trace of that order.\<close>

definition registry_ok :: "registry option \<Rightarrow> bool" where
  "registry_ok r \<longleftrightarrow>
     (case r of None \<Rightarrow> True
      | Some reg \<Rightarrow> distinct (map fst (rg_counters reg)) \<and> distinct (map fst (rg_latencies reg)))"

lemma registry_ok_new [simp]: "registry_ok (Some new_registry)"
  by (simp add: registry_ok_def new_registry_def)

lemma registry_ok_add [simp]:
  "registry_ok r \<Longrightarrow> registry_ok (add_counter r metric labels d)"
  "registry_ok r \<Longrightarrow> registry_ok (observe_latency r metric labels v)"
  by (cases r; simp add: registry_ok_def add_counter_def observe_latency_def Let_def distinct_update)+

lemma registry_ok_observe [simp]:
  "registry_ok r \<Longrightarrow> registry_ok (observe_request r method route status d)"
  "registry_ok r \<Longrightarrow> registry_ok (inc_audit_events r t dec)"
  by (simp_all add: observe_request_def record_route_metrics_def inc_http_requests_def observe_http_request_def
      inc_registration_requests_def inc_resolve_requests_def inc_admin_requests_def inc_trust_denied_def
      inc_revocation_updates_def inc_audit_events_def Let_def del: counter_value_add)

lemma filter_distinct: "distinct zs \<Longrightarrow> k \<in> set zs \<Longrightarrow> filter (\<lambda>x. x = k) zs = [k]"
  by (induction zs) (auto simp: filter_empty_conv)

lemma sort_key_distinct:
  assumes "distinct (map f xs)" and "mset ys = mset xs"
  shows "sort_key f ys = sort_key f xs"
proof (rule properties_for_sort_key)
  show "mset (sort_key f xs) = mset ys" using assms(2) by simp
  have inj: "inj_on f (set ys)"
    using assms mset_eq_setD [OF assms(2)] by (simp add: distinct_map)
  show "filter (\<lambda>x. f k = f x) (sort_key f xs) = filter (\<lambda>x. f k = f x) ys"
    if "k \<in> set (sort_key f xs)" for k
  proof -
    have "k \<in> set ys" using that mset_eq_setD [OF assms(2)] by simp
    have "filter (\<lambda>x. f k = f x) zs = [k]" if "distinct zs" "set zs = set ys" for zs
    proof -
      have "filter (\<lambda>x. f k = f x) zs = filter (\<lambda>x. x = k) zs"
        using inj \<open>k \<in> set ys\<close> that(2) by (intro filter_cong) (auto dest: inj_onD)
      also have "\<dots> = [k]"
        using that \<open>k \<in> set ys\<close> by (intro filter_distinct) auto
      finally show ?thesis .
    qed
    moreover have "distinct ys" "distinct (sort_key f xs)" "set (sort_key f xs) = set ys"
      using assms mset_eq_imp_distinct_iff [OF assms(2)] mset_eq_setD [OF assms(2)]
      by (auto simp: distinct_map)
    ultimately show ?thesis by metis
  qed
qed simp

lemma render_order:
  assumes "registry_ok (Some r)" and "mset (rg_counters r') = mset (rg_counters r)"
    and "mset (rg_latencies r') = mset (rg_latencies r)"
  shows "render r' = render r"
proof -
  have "sort_key fst (rg_counters r') = sort_key fst (rg_counters r)"
    "sort_key fst (rg_latencies r') = sort_key fst (rg_latencies r)"
    using assms by (auto simp: registry_ok_def intro!: sort_key_distinct)
  then show ?thesis by (simp add: render_def)
qed

subsection \<open>The wrapped store keeps the contract\<close>

definition audit_key :: "audit_event \<Rightarrow> metric_key" where
  "audit_key e =
     (MetricKey ''nanda_audit_events_total'' (format_labels [(''eventType'', ev_type e), (''decision'', ev_decision e)]))"

definition pair_append ::
  "('x \<Rightarrow> 's \<Rightarrow> event_input \<Rightarrow> (goerr + audit_event) \<times> 's)
     \<Rightarrow> 'x \<Rightarrow> 's \<times> registry option \<Rightarrow> event_input \<Rightarrow> (goerr + audit_event) \<times> 's \<times> registry option" where
  "pair_append app x w input =
     observe_append (\<lambda>f (s, r). (s, f r))
       (case app x (fst w) input of (res, s') \<Rightarrow> (res, (s', snd w)))"

lemma pair_append_cases:
  "pair_append app x (s, r) input =
     (case app x s input of
        (Inl e, s') \<Rightarrow> (Inl e, (s', r))
      | (Inr ev, s') \<Rightarrow> (Inr ev, (s', inc_audit_events r (ev_type ev) (ev_decision ev))))"
  by (auto simp: pair_append_def observe_append_def split: prod.split sum.split)

lemma counter_of_audit:
  "counter_of (inc_audit_events r (ev_type ev) (ev_decision ev)) k =
     counter_of r k + (if r \<noteq> None \<and> k = audit_key ev then 1 else 0)"
  by (simp add: inc_audit_events_def counter_of_add audit_key_def)

locale observed_store = audit_store rt append events query verify invar
  for rt :: runtime and append :: "'x \<Rightarrow> 's \<Rightarrow> event_input \<Rightarrow> (goerr + audit_event) \<times> 's"
    and events query verify invar
begin

definition run_counted :: "'s \<times> registry option \<Rightarrow> ('x \<times> event_input) list \<Rightarrow> 's \<times> registry option" where
  "run_counted w ops = foldl (\<lambda>w op. snd (pair_append append (fst op) w (snd op))) w ops"

text \<open>The counter of an event type and decision grows by the number of events appended with them.\<close>

lemma counted_run:
  assumes "invar s" and "list_all (\<lambda>op. input_ok (snd op)) ops"
  shows "\<exists>new. events (fst (run_counted (s, Some r) ops)) = events s @ new
     \<and> counter_of (snd (run_counted (s, Some r) ops)) k
         = counter_of (Some r) k + of_nat (length (filter (\<lambda>ev. audit_key ev = k) new))"
  using assms
proof (induction ops arbitrary: s r)
  case Nil
  then show ?case by (intro exI [of _ "[]"]) (simp add: run_counted_def)
next
  case (Cons op ops)
  have run: "run_counted w (op # ops) = run_counted (snd (pair_append append (fst op) w (snd op))) ops" for w
    by (simp add: run_counted_def)
  obtain res s1 where app: "append (fst op) s (snd op) = (res, s1)" by fastforce
  show ?case
  proof (cases res)
    case (Inl e)
    with app have "s1 = s" using append_failed by blast
    with app Inl have "snd (pair_append append (fst op) (s, Some r) (snd op)) = (s, Some r)"
      by (simp add: pair_append_cases)
    with Cons.IH [OF Cons.prems(1), of r] Cons.prems(2) show ?thesis by (simp add: run)
  next
    case (Inr ev)
    obtain r1 where r1: "inc_audit_events (Some r) (ev_type ev) (ev_decision ev) = Some r1"
      by (simp add: inc_audit_events_def)
    have step: "run_counted (s, Some r) (op # ops) = run_counted (s1, Some r1) ops"
      unfolding run using app Inr r1 by (simp add: pair_append_cases)
    have st: "invar s1" "events s1 = events s @ [ev]"
      using append_stored [OF Cons.prems(1), of "snd op" "fst op"] Cons.prems(2) app Inr by auto
    obtain new where IH: "events (fst (run_counted (s1, Some r1) ops)) = events s1 @ new"
      "counter_of (snd (run_counted (s1, Some r1) ops)) k
         = counter_of (Some r1) k + of_nat (length (filter (\<lambda>ev. audit_key ev = k) new))"
      using Cons.IH [OF st(1), of r1] Cons.prems(2) by (auto simp: list_all_iff)
    have "counter_of (Some r1) k = counter_of (Some r) k + (if audit_key ev = k then 1 else 0)"
      using counter_of_audit [of "Some r" ev k] r1 by auto
    with IH st show ?thesis
      unfolding step by (intro exI [of _ "ev # new"]) (simp add: algebra_simps)
  qed
qed

end

sublocale observed_store \<subseteq> wrapped: audit_store rt "pair_append append" "\<lambda>w. events (fst w)"
  "\<lambda>w. query (fst w)" "\<lambda>w. verify (fst w)" "\<lambda>w. invar (fst w)"
proof unfold_locales
  fix x and w :: "'s \<times> registry option" and input e w'
  obtain s r where w: "w = (s, r)" by (cases w)
  assume "pair_append append x w input = (Inl e, w')"
  then show "w' = w"
    using append_failed by (auto simp: w pair_append_cases split: prod.splits sum.splits)
next
  fix x and w :: "'s \<times> registry option" and input ev w'
  obtain s r where w: "w = (s, r)" by (cases w)
  assume inv: "invar (fst w)" and app: "pair_append append x w input = (Inr ev, w')"
  obtain s' where s': "append x s input = (Inr ev, s')" "fst w' = s'"
    using app by (auto simp: w pair_append_cases split: prod.splits sum.splits)
  show "invar (fst w') \<and> events (fst w') = events (fst w) @ [ev]" if "input_ok input"
    using that append_stored [of s input x ev s'] inv s' by (simp add: w)
  show "\<exists>random now. new_event rt random (last_hash (events (fst w))) input now = Inr ev"
    using append_new [of s x input ev s'] inv s' by (simp add: w)
qed (simp_all add: query_page verify_chain)

interpretation obs_pg: observed_store rt "pg_append rt" table_events "pg_query rt reader"
  "pg_verify_hash_chain rt reader" "table_invar rt reader"
  by unfold_locales

interpretation obs_mem: observed_store rt "\<lambda>env. memory_append rt (ae_random env) (ae_now env)"
  "\<lambda>events. events" "memory_query rt" "verify_events rt" "\<lambda>_. True"
  by unfold_locales

end
