(* ===== verification/Config.thy ===== *)
theory Config
  imports Trust_Verifier
begin

text \<open>
  \<open>internal/config/local.go\<close>: the configuration read from the environment and its validation.
  \<open>config_env\<close> holds what is outside: the variables, key generation, file reading, the text of
  a base64 error and the order in which Go visits the entries of a map. The lemmas
  show that a configuration that loads has keys and issuers of the right sizes, with the public
  key belonging to the private one, what production mode additionally enforces, and that the order
  of the visit does not matter.
\<close>

definition default_addr :: string where
  "default_addr = '':8080''"

definition default_facts_dir :: string where
  "default_facts_dir = ''./var/facts''"

definition mode_local :: string where
  "mode_local = ''local''"

definition mode_production :: string where
  "mode_production = ''production''"

record config_env =
  ce_lookup :: "string \<Rightarrow> string"
  ce_generate_key :: "goerr + bytes"
  ce_read_file :: "string \<Rightarrow> string + bytes"
  ce_b64_error :: "string \<Rightarrow> string"
  ce_visit :: "(string \<times> string) list \<Rightarrow> (string \<times> string) list"

record local_config =
  cf_addr :: string
  cf_mode :: string
  cf_postgres_dsn :: string
  cf_facts_dir :: string
  cf_api_token :: string
  cf_auto_migrate :: bool
  cf_private_key :: bytes
  cf_public_key :: bytes
  cf_trusted_issuers :: "(string \<times> bytes) list"
  cf_ephemeral_key :: bool

definition value_or_default :: "string \<Rightarrow> string \<Rightarrow> string" where
  "value_or_default v fallback = (if v = [] then fallback else v)"

definition should_auto_migrate :: "string \<Rightarrow> string \<Rightarrow> bool" where
  "should_auto_migrate mode v = (if mode = mode_local then v \<noteq> ''false'' else v = ''true'')"

definition key_error :: "string \<Rightarrow> goerr" where
  "key_error m = sentinel_err (Config CF_ErrInvalidKeyConfig) m"

definition trust_config_error :: "string \<Rightarrow> goerr" where
  "trust_config_error m = sentinel_err (Config CF_ErrInvalidTrustConfig) m"

definition length_text :: "nat \<Rightarrow> nat \<Rightarrow> string" where
  "length_text got want = '' decoded length = '' @ digits_of got @ '', want '' @ digits_of want"

text \<open>The private key and whether it was generated.\<close>

definition load_private_key :: "config_env \<Rightarrow> string \<Rightarrow> goerr + bytes \<times> bool" where
  "load_private_key env encoded =
     (if encoded = [] then
        (case ce_generate_key env of
           Inl e \<Rightarrow> Inl (wrap_err ''generate ephemeral local private key'' e)
         | Inr private_key \<Rightarrow> Inr (private_key, True))
      else case b64_decode encoded of
        None \<Rightarrow> Inl (key_error (''decode NANDA_PRIVATE_KEY_BASE64: '' @ ce_b64_error env encoded))
      | Some decoded \<Rightarrow>
          if length decoded \<noteq> ed_private_key_size
          then Inl (key_error (''NANDA_PRIVATE_KEY_BASE64'' @ length_text (length decoded) ed_private_key_size))
          else Inr (decoded, False))"

definition load_public_key :: "config_env \<Rightarrow> string \<Rightarrow> bytes \<Rightarrow> goerr + bytes" where
  "load_public_key env encoded private_key =
     (let derived = ed_public private_key in
      if encoded = [] then Inr derived
      else case b64_decode encoded of
        None \<Rightarrow> Inl (key_error (''decode NANDA_PUBLIC_KEY_BASE64: '' @ ce_b64_error env encoded))
      | Some decoded \<Rightarrow>
          if length decoded \<noteq> ed_public_key_size
          then Inl (key_error (''NANDA_PUBLIC_KEY_BASE64'' @ length_text (length decoded) ed_public_key_size))
          else if decoded \<noteq> derived
          then Inl (key_error ''NANDA_PUBLIC_KEY_BASE64 does not match NANDA_PRIVATE_KEY_BASE64'')
          else Inr decoded)"

text \<open>The loop over the entries, in the order the map is visited.\<close>

fun decode_issuers ::
  "runtime \<Rightarrow> config_env \<Rightarrow> string \<Rightarrow> (string \<times> string) list \<Rightarrow> goerr + (string \<times> bytes) list" where
  "decode_issuers rt env source [] = Inr []"
| "decode_issuers rt env source ((issuer, encoded) # rest) =
     (if trim_space issuer = [] then Inl (trust_config_error (''issuer name is empty in '' @ source))
      else case b64_decode encoded of
        None \<Rightarrow> Inl (trust_config_error (''decode public key for issuer '' @ quote_text (rt_printable rt) issuer @ '' in ''
                       @ source @ '': '' @ ce_b64_error env encoded))
      | Some key \<Rightarrow>
          if length key \<noteq> ed_public_key_size
          then Inl (trust_config_error (''issuer '' @ quote_text (rt_printable rt) issuer @ '' public key''
                      @ length_text (length key) ed_public_key_size))
          else case decode_issuers rt env source rest of
            Inl e \<Rightarrow> Inl e
          | Inr issuers \<Rightarrow> Inr ((issuer, key) # issuers))"

definition parse_trusted_issuers ::
  "runtime \<Rightarrow> config_env \<Rightarrow> bytes \<Rightarrow> string \<Rightarrow> goerr + (string \<times> bytes) list" where
  "parse_trusted_issuers rt env config_bytes source =
     (case unmarshal dec_string_map None config_bytes of
        None \<Rightarrow> Inl (trust_config_error
                  (''parse '' @ source @ '': '' @ rt_json_error rt ''map[string]string'' config_bytes))
      | Some None \<Rightarrow> Inl (trust_config_error (source @ '' must be a JSON object''))
      | Some (Some entries) \<Rightarrow> decode_issuers rt env source (ce_visit env entries))"

definition load_trusted_issuers :: "runtime \<Rightarrow> config_env \<Rightarrow> goerr + (string \<times> bytes) list" where
  "load_trusted_issuers rt env =
     (let inline_json = ce_lookup env ''NANDA_TRUST_ISSUERS_JSON'';
          file_path = ce_lookup env ''NANDA_TRUST_ISSUERS_FILE'' in
      if inline_json \<noteq> [] \<and> file_path \<noteq> []
      then Inl (trust_config_error ''set only one of NANDA_TRUST_ISSUERS_JSON or NANDA_TRUST_ISSUERS_FILE'')
      else if inline_json = [] \<and> file_path = [] then Inr []
      else if inline_json \<noteq> [] then parse_trusted_issuers rt env inline_json ''NANDA_TRUST_ISSUERS_JSON''
      else case ce_read_file env file_path of
        Inl m \<Rightarrow> Inl (trust_config_error (''read NANDA_TRUST_ISSUERS_FILE: '' @ m))
      | Inr config_bytes \<Rightarrow> parse_trusted_issuers rt env config_bytes ''NANDA_TRUST_ISSUERS_FILE'')"

definition mode_error :: goerr where
  "mode_error = sentinel_err (Config CF_ErrInvalidMode) ''NANDA_MODE must be local or production''"

definition load_local :: "runtime \<Rightarrow> config_env \<Rightarrow> goerr + local_config" where
  "load_local rt env =
     (let lookup = ce_lookup env; mode = value_or_default (lookup ''NANDA_MODE'') mode_local in
      if mode \<noteq> mode_local \<and> mode \<noteq> mode_production then Inl mode_error
      else
      let private_key_encoded = lookup ''NANDA_PRIVATE_KEY_BASE64'' in
      if mode = mode_production \<and> private_key_encoded = []
      then Inl (ErrNew ''NANDA_PRIVATE_KEY_BASE64 is required in production mode'')
      else case load_private_key env private_key_encoded of
        Inl e \<Rightarrow> Inl e
      | Inr (private_key, generated) \<Rightarrow>
        (case load_public_key env (lookup ''NANDA_PUBLIC_KEY_BASE64'') private_key of
           Inl e \<Rightarrow> Inl e
         | Inr public_key \<Rightarrow>
           (case load_trusted_issuers rt env of
              Inl e \<Rightarrow> Inl e
            | Inr issuers \<Rightarrow>
                Inr \<lparr>cf_addr = value_or_default (lookup ''NANDA_ADDR'') default_addr, cf_mode = mode,
                     cf_postgres_dsn = lookup ''NANDA_POSTGRES_DSN'',
                     cf_facts_dir = value_or_default (lookup ''NANDA_FACTS_DIR'') default_facts_dir,
                     cf_api_token = lookup ''NANDA_API_TOKEN'',
                     cf_auto_migrate = should_auto_migrate mode (lookup ''NANDA_AUTO_MIGRATE''),
                     cf_private_key = private_key, cf_public_key = public_key,
                     cf_trusted_issuers = issuers, cf_ephemeral_key = generated\<rparr>)))"

definition validate_runtime :: "local_config \<Rightarrow> goerr option" where
  "validate_runtime cfg =
     (if cf_mode cfg \<noteq> mode_local \<and> cf_mode cfg \<noteq> mode_production then Some mode_error
      else if cf_postgres_dsn cfg = [] then Some (ErrNew ''NANDA_POSTGRES_DSN is required'')
      else if cf_mode cfg = mode_production then
        (if length (cf_private_key cfg) \<noteq> ed_private_key_size
         then Some (ErrNew ''NANDA_PRIVATE_KEY_BASE64 is required in production mode'')
         else if cf_ephemeral_key cfg
         then Some (ErrNew ''ephemeral signing keys are forbidden in production mode'')
         else if cf_api_token cfg = [] then Some (ErrNew ''NANDA_API_TOKEN is required in production mode'')
         else None)
      else None)"

subsection \<open>What a loaded configuration guarantees\<close>

lemma mode_distinct [simp]: "mode_local \<noteq> mode_production" "mode_production \<noteq> mode_local"
  by (simp_all add: mode_local_def mode_production_def)

lemma load_private_key_Inr:
  assumes "load_private_key env encoded = Inr (key, generated)"
    and "\<forall>k. ce_generate_key env = Inr k \<longrightarrow> length k = ed_private_key_size"
  shows "length key = ed_private_key_size" and "generated \<longleftrightarrow> encoded = []"
  using assms by (auto simp: load_private_key_def split: if_splits sum.splits option.splits)

lemma load_public_key_Inr: "load_public_key env encoded private_key = Inr key \<Longrightarrow> key = ed_public private_key"
  by (auto simp: load_public_key_def Let_def split: if_splits option.splits)

definition issuers_ok :: "(string \<times> bytes) list \<Rightarrow> bool" where
  "issuers_ok issuers \<longleftrightarrow> (\<forall>(i, k) \<in> set issuers. trim_space i \<noteq> [] \<and> length k = ed_public_key_size)"

lemma issuers_ok_simps [simp]:
  "issuers_ok []"
  "issuers_ok ((i, k) # rest) \<longleftrightarrow> trim_space i \<noteq> [] \<and> length k = ed_public_key_size \<and> issuers_ok rest"
  by (auto simp: issuers_ok_def)

lemma decode_issuers_Inr: "decode_issuers rt env source entries = Inr issuers \<Longrightarrow> issuers_ok issuers"
proof (induction entries arbitrary: issuers)
  case (Cons entry rest)
  then show ?case by (cases entry) (auto split: if_splits option.splits sum.splits)
qed simp

lemma load_trusted_issuers_Inr: "load_trusted_issuers rt env = Inr issuers \<Longrightarrow> issuers_ok issuers"
  by (auto simp: load_trusted_issuers_def parse_trusted_issuers_def Let_def dest: decode_issuers_Inr
      split: if_splits sum.splits option.splits)

lemma copy_issuers_ok: "issuers_ok issuers \<Longrightarrow> copy_issuers issuers = Inr issuers"
  by (induction issuers) auto

lemma new_verifier_ok:
  "issuers_ok issuers \<Longrightarrow> new_verifier issuers checker = Inr \<lparr>tv_issuers = issuers, tv_revocation_checker = checker\<rparr>"
  by (simp add: new_verifier_def copy_issuers_ok)

lemma load_local_Inr:
  assumes "load_local rt env = Inr cfg"
    and "\<forall>k. ce_generate_key env = Inr k \<longrightarrow> length k = ed_private_key_size"
  shows "length (cf_private_key cfg) = ed_private_key_size"
    and "cf_public_key cfg = ed_public (cf_private_key cfg)" and "issuers_ok (cf_trusted_issuers cfg)"
    and "cf_mode cfg = mode_local \<or> cf_mode cfg = mode_production"
    and "cf_mode cfg = mode_production \<longrightarrow> \<not> cf_ephemeral_key cfg"
    and "cf_facts_dir cfg \<noteq> []"
proof -
  obtain key generated where k: "load_private_key env (ce_lookup env ''NANDA_PRIVATE_KEY_BASE64'') = Inr (key, generated)"
    and c: "cf_private_key cfg = key" "cf_ephemeral_key cfg = generated"
    using assms(1) by (auto simp: load_local_def Let_def split: if_splits sum.splits prod.splits)
  note lk = load_private_key_Inr [OF k assms(2)]
  show "length (cf_private_key cfg) = ed_private_key_size" using lk(1) c by simp
  have prod: "cf_mode cfg = mode_production \<longrightarrow> ce_lookup env ''NANDA_PRIVATE_KEY_BASE64'' \<noteq> []"
    using assms(1) by (auto simp: load_local_def Let_def split: if_splits sum.splits prod.splits)
  then show "cf_mode cfg = mode_production \<longrightarrow> \<not> cf_ephemeral_key cfg" using lk(2) c by simp
  show "cf_public_key cfg = ed_public (cf_private_key cfg)"
    using assms(1) by (auto simp: load_local_def Let_def dest: load_public_key_Inr split: if_splits sum.splits prod.splits)
  show "issuers_ok (cf_trusted_issuers cfg)"
    using assms(1) by (auto simp: load_local_def Let_def dest: load_trusted_issuers_Inr split: if_splits sum.splits prod.splits)
  show "cf_mode cfg = mode_local \<or> cf_mode cfg = mode_production" "cf_facts_dir cfg \<noteq> []"
    using assms(1)
    by (auto simp: load_local_def Let_def value_or_default_def default_facts_dir_def split: if_splits sum.splits prod.splits)
qed

lemma validate_runtime_None:
  "validate_runtime cfg = None \<longleftrightarrow>
     cf_postgres_dsn cfg \<noteq> []
     \<and> (cf_mode cfg = mode_local
        \<or> cf_mode cfg = mode_production \<and> length (cf_private_key cfg) = ed_private_key_size
          \<and> \<not> cf_ephemeral_key cfg \<and> cf_api_token cfg \<noteq> [])"
  by (auto simp: validate_runtime_def)

subsection \<open>The order of the issuers\<close>

lemma dec_entries_distinct:
  "dec_entries m kvs = Some es \<Longrightarrow> distinct (map fst m) \<Longrightarrow> distinct (map fst es)"
proof (induction m kvs rule: dec_entries.induct)
  case (2 m k t kvs)
  then show ?case by (auto simp: distinct_update split: option.splits)
qed simp

lemma string_map_distinct:
  "unmarshal dec_string_map None bs = Some (Some es) \<Longrightarrow> distinct (map fst es)"
  using dec_entries_distinct [of "[]" _ es]
  by (auto simp: unmarshal_def dec_string_map_def split: if_splits option.splits)

text \<open>What the loop makes of one entry.\<close>

definition issuer_entry :: "string \<times> string \<Rightarrow> (string \<times> bytes) option" where
  "issuer_entry entry =
     (if trim_space (fst entry) = [] then None
      else case b64_decode (snd entry) of
        None \<Rightarrow> None
      | Some key \<Rightarrow> if length key = ed_public_key_size then Some (fst entry, key) else None)"

lemma decode_issuers_entries:
  "decode_issuers rt env source es = Inr xs \<longleftrightarrow> map issuer_entry es = map Some xs"
proof (induction es arbitrary: xs)
  case (Cons entry es)
  obtain i e where entry: "entry = (i, e)" by (cases entry)
  show ?case
  proof (cases "issuer_entry entry")
    case None
    then show ?thesis
      unfolding entry by (auto simp: issuer_entry_def split: if_splits option.splits sum.splits)
  next
    case (Some x)
    then have "decode_issuers rt env source (entry # es) =
        (case decode_issuers rt env source es of Inl e \<Rightarrow> Inl e | Inr ys \<Rightarrow> Inr (x # ys))"
      unfolding entry by (auto simp: issuer_entry_def split: if_splits option.splits)
    with Some Cons.IH show ?thesis by (cases xs) (auto split: sum.splits)
  qed
qed auto

lemma issuer_entry_fst: "issuer_entry entry = Some x \<Longrightarrow> fst x = fst entry"
  by (auto simp: issuer_entry_def split: if_splits option.splits)

lemma decode_issuers_perm:
  assumes "decode_issuers rt env source es = Inr xs" and "mset fs = mset es" and "distinct (map fst es)"
  shows "\<exists>ys. decode_issuers rt' env' source' fs = Inr ys \<and> map_of ys = map_of xs"
proof -
  define f where "f = (\<lambda>entry. the (issuer_entry entry))"
  have xs: "map issuer_entry es = map Some xs" using assms(1) decode_issuers_entries by metis
  have "\<forall>e \<in> set es. issuer_entry e \<noteq> None"
  proof
    fix e assume "e \<in> set es"
    then have "issuer_entry e \<in> set (map Some xs)" unfolding xs [symmetric] by simp
    then show "issuer_entry e \<noteq> None" by auto
  qed
  then have ok: "\<forall>e \<in> set es. issuer_entry e = Some (f e)" by (auto simp: f_def)
  have es: "xs = map f es"
  proof -
    have "map Some xs = map Some (map f es)" using ok unfolding xs [symmetric] by simp
    then show ?thesis by (metis inj_map_eq_map inj_Some)
  qed
  have same: "set fs = set es" using assms(2) by (metis set_mset_mset)
  then have "map issuer_entry fs = map Some (map f fs)" using ok by simp
  then have "decode_issuers rt' env' source' fs = Inr (map f fs)" by (simp only: decode_issuers_entries)
  moreover have "map_of (map f fs) = map_of (map f es)"
  proof -
    have keys: "map fst (map f zs) = map fst zs" if "set zs = set es" for zs
      using ok that issuer_entry_fst by auto
    have "mset (map fst fs) = mset (map fst es)" using assms(2) by simp
    then have "distinct (map fst fs)" using assms(3) by (metis mset_eq_imp_distinct_iff)
    then have "distinct (map fst (map f fs))" "distinct (map fst (map f es))"
      unfolding keys [OF same] keys [OF refl] using assms(3) .
    then show ?thesis using same by (simp add: map_of_inject_set)
  qed
  ultimately show ?thesis by (simp add: es)
qed

text \<open>A range over a map visits every entry once.\<close>

definition visits_once :: "config_env \<Rightarrow> bool" where
  "visits_once env \<longleftrightarrow> (\<forall>es. mset (ce_visit env es) = mset es)"

lemma parse_trusted_issuers_order:
  assumes "parse_trusted_issuers rt env bs source = Inr xs" and "visits_once env" and "visits_once env'"
  shows "\<exists>ys. parse_trusted_issuers rt env' bs source = Inr ys \<and> map_of ys = map_of xs"
proof -
  obtain es where es: "unmarshal dec_string_map None bs = Some (Some es)"
    and xs: "decode_issuers rt env source (ce_visit env es) = Inr xs"
    using assms(1) by (auto simp: parse_trusted_issuers_def split: option.splits)
  have visit: "mset (ce_visit env' es) = mset (ce_visit env es)" "mset (ce_visit env es) = mset es"
    using assms(2,3) by (simp_all add: visits_once_def)
  then have "distinct (map fst (ce_visit env es))"
    using string_map_distinct [OF es] by (metis mset_map mset_eq_imp_distinct_iff)
  from decode_issuers_perm [OF xs visit(1) this] es show ?thesis by (simp add: parse_trusted_issuers_def)
qed

lemma load_trusted_issuers_order:
  assumes "load_trusted_issuers rt env = Inr xs" and "visits_once env" and "visits_once (env\<lparr>ce_visit := visit\<rparr>)"
  shows "\<exists>ys. load_trusted_issuers rt (env\<lparr>ce_visit := visit\<rparr>) = Inr ys \<and> map_of ys = map_of xs"
  using assms(1) parse_trusted_issuers_order [OF _ assms(2,3), of rt]
  by (auto simp: load_trusted_issuers_def Let_def split: if_splits sum.splits)

lemma load_local_order:
  assumes "load_local rt env = Inr cfg" and "visits_once env" and "visits_once (env\<lparr>ce_visit := visit\<rparr>)"
  shows "\<exists>issuers. load_local rt (env\<lparr>ce_visit := visit\<rparr>) = Inr (cfg\<lparr>cf_trusted_issuers := issuers\<rparr>)
     \<and> map_of issuers = map_of (cf_trusted_issuers cfg) \<and> issuers_ok issuers"
proof -
  obtain xs where xs: "load_trusted_issuers rt env = Inr xs" "cf_trusted_issuers cfg = xs"
    using assms(1) by (auto simp: load_local_def Let_def split: if_splits sum.splits prod.splits)
  obtain ys where ys: "load_trusted_issuers rt (env\<lparr>ce_visit := visit\<rparr>) = Inr ys" "map_of ys = map_of xs"
    using load_trusted_issuers_order [OF xs(1) assms(2,3)] by blast
  have "load_private_key (env\<lparr>ce_visit := visit\<rparr>) = load_private_key env"
    "load_public_key (env\<lparr>ce_visit := visit\<rparr>) = load_public_key env"
    by (simp_all add: load_private_key_def load_public_key_def Let_def fun_eq_iff split: option.split)
  then have "load_local rt (env\<lparr>ce_visit := visit\<rparr>) = Inr (cfg\<lparr>cf_trusted_issuers := ys\<rparr>)"
    using assms(1) ys(1) by (auto simp: load_local_def Let_def split: if_splits sum.splits prod.splits)
  with ys xs(2) load_trusted_issuers_Inr [OF ys(1)] show ?thesis by blast
qed

end
