(* ===== verification/Server.thy ===== *)
theory Server
  imports Api Observability Config
begin

text \<open>
  \<open>cmd/nanda-server/main.go\<close>: the stores, services and routes put together. \<open>server_world\<close>
  holds the state of every store and of the registry, and \<open>server_env\<close> what the environment
  does during one request: the clock, randomness and the faults of the disk and the database.
  \<open>new_local_handler\<close> is \<open>newLocalHandler\<close>; its mux matches the segments of a clean path
  against the patterns of \<open>addRoutes\<close>. \<open>run_migrations\<close> applies the migration files in order.
  \<open>start\<close> is \<open>run\<close> up to the listener and \<open>run\<close> adds how the server stops; the listener, its
  goroutine and the signals themselves are not modelled.
\<close>

subsection \<open>The world\<close>

record server_env =
  se_now :: gotime
  se_fs :: fs_env
  se_pointer_put :: "db_error option"
  se_pointer_get :: "db_error option"
  se_index_put :: index_env
  se_index_get :: "db_error option"
  se_zone :: "int \<Rightarrow> int"
  se_audit :: append_env
  se_audit_reader :: db_reader
  se_revocation_set :: "db_error option"
  se_revocation_get :: "db_error option"
  se_random8 :: "64 word option"
  se_unix_nano :: int
  se_elapsed :: int

record server_world =
  w_disk :: disk
  w_pointers :: pointer_table
  w_index :: index_table
  w_audit :: audit_table
  w_revocations :: revocation_table
  w_registry :: registry
  w_fallback_count :: "64 word"
  w_env :: server_env

definition on_registry :: "(registry option \<Rightarrow> registry option) \<Rightarrow> server_world \<Rightarrow> server_world" where
  "on_registry f w =
     (case f (Some (w_registry w)) of None \<Rightarrow> w | Some r \<Rightarrow> w\<lparr>w_registry := r\<rparr>)"

definition server_ids :: "server_world id_source" where
  "server_ids =
     \<lparr>is_random8 = (\<lambda>w. se_random8 (w_env w)), is_unix_nano = (\<lambda>w. se_unix_nano (w_env w)),
      is_next_count = (\<lambda>w. (w_fallback_count w + 1, w\<lparr>w_fallback_count := w_fallback_count w + 1\<rparr>))\<rparr>"

definition server_facts :: "runtime \<Rightarrow> string \<Rightarrow> server_world facts_iface" where
  "server_facts rt root =
     \<lparr>fi_put = (\<lambda>d w. case fs_put root (se_fs (w_env w)) (w_disk w) d of (r, disk) \<Rightarrow> (r, w\<lparr>w_disk := disk\<rparr>)),
      fi_get = (\<lambda>p w. fs_get rt root (se_fs (w_env w)) (w_disk w) p)\<rparr>"

definition server_pointers :: "server_world pointer_iface" where
  "server_pointers =
     \<lparr>pi_put = (\<lambda>p w. case pg_put_pointer (se_pointer_put (w_env w)) (w_pointers w) p of
                        (r, t) \<Rightarrow> (r, w\<lparr>w_pointers := t\<rparr>)),
      pi_resolve = (\<lambda>h w. pg_resolve_pointer (se_pointer_get (w_env w)) (w_pointers w) h)\<rparr>"

definition server_index :: "runtime \<Rightarrow> server_world index_iface" where
  "server_index rt =
     \<lparr>ii_put = (\<lambda>a r w. case index_put rt (se_index_put (w_env w)) (w_index w) a r of
                          (res, t) \<Rightarrow> (res, w\<lparr>w_index := t\<rparr>)),
      ii_get = (\<lambda>h w. index_get (se_index_get (w_env w)) (se_zone (w_env w)) (w_index w) h),
      ii_history = (\<lambda>h w. index_history (se_index_get (w_env w)) (se_zone (w_env w)) (w_index w) h)\<rparr>"

definition server_pg_audit :: "runtime \<Rightarrow> server_world audit_iface" where
  "server_pg_audit rt =
     \<lparr>ai_append = (\<lambda>input w. case pg_append rt (se_audit (w_env w)) (w_audit w) input of
                              (r, t) \<Rightarrow> (r, w\<lparr>w_audit := t\<rparr>)),
      ai_list = (\<lambda>w. pg_list rt (se_audit_reader (w_env w)) (w_audit w)),
      ai_list_by_agent = (\<lambda>a w. pg_list_by_agent rt (se_audit_reader (w_env w)) (w_audit w) a),
      ai_query = (\<lambda>q w. pg_query rt (se_audit_reader (w_env w)) (w_audit w) q),
      ai_verify = (\<lambda>w. pg_verify_hash_chain rt (se_audit_reader (w_env w)) (w_audit w))\<rparr>"

definition server_audit :: "runtime \<Rightarrow> server_world audit_iface option" where
  "server_audit rt = new_audit_store on_registry (Some (server_pg_audit rt))"

definition server_revocations :: "runtime \<Rightarrow> server_world revocation_iface" where
  "server_revocations rt =
     \<lparr>vi_set = (\<lambda>i c st r w.
        case pg_set_status rt (se_revocation_set (w_env w)) (se_now (w_env w)) (w_revocations w) i c st r of
          (res, t) \<Rightarrow> (res, w\<lparr>w_revocations := t\<rparr>)),
      vi_get = (\<lambda>i c w. pg_get_status (se_revocation_get (w_env w)) (w_revocations w) i c),
      vi_is_revoked = (\<lambda>i c w. pg_is_revoked (se_revocation_get (w_env w)) (w_revocations w) i c)\<rparr>"

text \<open>The verifier asks the revocation store as it is during the request.\<close>

definition server_trust :: "runtime \<Rightarrow> (string \<times> bytes) list \<Rightarrow> server_world trust_iface" where
  "server_trust rt issuers w credentials agent_id capability now =
     verify_capability rt
       \<lparr>tv_issuers = issuers,
        tv_revocation_checker = Some (\<lambda>i c. vi_is_revoked (server_revocations rt) i c w)\<rparr>
       credentials agent_id capability now"

subsection \<open>The services\<close>

definition local_registration :: "runtime \<Rightarrow> local_config \<Rightarrow> goerr + server_world registration_service" where
  "local_registration rt cfg =
     new_registration_service (Some (server_facts rt (cf_facts_dir cfg))) (Some (server_index rt))
       (cf_private_key cfg)
       [with_pointer_store (Some (server_pointers)), with_audit_store (server_audit rt)]"

definition local_resolver :: "runtime \<Rightarrow> local_config \<Rightarrow> goerr + server_world resolver_service" where
  "local_resolver rt cfg =
     new_resolver_service (\<lambda>w. se_now (w_env w)) (Some (server_index rt))
       (Some (server_facts rt (cf_facts_dir cfg))) (Some (server_pointers)) (cf_public_key cfg)
       [with_trust_verifier (Some (server_trust rt (cf_trusted_issuers cfg))),
        with_resolver_audit_store (server_audit rt)]"

definition local_admin :: "runtime \<Rightarrow> goerr + server_world admin_service" where
  "local_admin rt =
     new_admin_service (Some (server_index rt)) (server_audit rt) (Some (server_revocations rt))"

definition admin_methods :: "runtime \<Rightarrow> server_world admin_service \<Rightarrow> server_world admin_iface" where
  "admin_methods rt s =
     \<lparr>mi_get_agent = (\<lambda>a w. get_agent rt s (\<lambda>w. se_now (w_env w)) w a),
      mi_list_audit = (\<lambda>q w. list_audit s w q),
      mi_list_audit_by_agent = (\<lambda>a q w. list_audit_by_agent rt s w a q),
      mi_get_revocation_status = (\<lambda>i c w. get_revocation_status s w i c),
      mi_set_revocation_status = (\<lambda>r w. set_revocation_status rt s r w)\<rparr>"

subsection \<open>The routes\<close>

definition write_status :: "string \<Rightarrow> http_op list" where
  "write_status status = [json_type, WriteHeader 200] @ encode_json (Inr (JObj [(''status'', JStr status)]))"

definition healthz_handler :: "'w handler" where
  "healthz_handler req w = (write_status ''ok'', w)"

definition readyz_handler :: "'w handler" where
  "readyz_handler req w = (write_status ''ready'', w)"

definition metrics_handler :: "('w \<Rightarrow> registry option) \<Rightarrow> 'w handler" where
  "metrics_handler registry_of req w =
     ([SetHeader ''Content-Type'' ''text/plain; version=0.0.4'', WriteHeader 200]
      @ (case registry_of w of None \<Rightarrow> [] | Some r \<Rightarrow> [WriteBody (render r)]), w)"

record 'w admin_route_handlers =
  ah_get_agent :: "'w handler"
  ah_list_audit :: "'w handler"
  ah_list_audit_by_agent :: "'w handler"
  ah_get_revocation_status :: "'w handler"
  ah_set_revocation_status :: "'w handler"

text \<open>A segment of a pattern: a literal, or a wildcard with its name, which matches one
  segment that is not empty.\<close>

datatype pattern_segment = Lit string | Wild string

type_synonym 'w route = "string \<times> pattern_segment list \<times> 'w handler"

definition add_routes ::
  "'w id_source \<Rightarrow> 'w handler \<Rightarrow> 'w handler \<Rightarrow> 'w admin_route_handlers \<Rightarrow> string
     \<Rightarrow> ('w \<Rightarrow> registry option) \<Rightarrow> 'w route list" where
  "add_routes ids register_handler resolve_handler admin token registry_of =
     [(route_healthz, [Lit ''healthz''], healthz_handler),
      (route_readyz, [Lit ''readyz''], readyz_handler),
      (route_metrics, [Lit ''metrics''], metrics_handler registry_of),
      (route_register, [Lit ''v1'', Lit ''agents'', Lit ''register''],
         with_bearer_auth ids register_handler token),
      (route_resolve, [Lit ''v1'', Lit ''resolve''], with_bearer_auth ids resolve_handler token),
      (route_admin_agent, [Lit ''v1'', Lit ''admin'', Lit ''agents'', Wild ''agentId''],
         with_bearer_auth ids (ah_get_agent admin) token),
      (route_admin_audit, [Lit ''v1'', Lit ''admin'', Lit ''audit''],
         with_bearer_auth ids (ah_list_audit admin) token),
      (route_admin_audit_agent, [Lit ''v1'', Lit ''admin'', Lit ''audit'', Wild ''agentId''],
         with_bearer_auth ids (ah_list_audit_by_agent admin) token),
      (route_admin_revocation, [Lit ''v1'', Lit ''admin'', Lit ''revocation''],
         with_bearer_auth ids (ah_set_revocation_status admin) token),
      (route_admin_revoked_id, [Lit ''v1'', Lit ''admin'', Lit ''revocation'', Wild ''issuer'', Wild ''credentialId''],
         with_bearer_auth ids (ah_get_revocation_status admin) token)]"

fun match_segments :: "pattern_segment list \<Rightarrow> string list \<Rightarrow> (string \<times> string) list option" where
  "match_segments [] [] = Some []"
| "match_segments (Lit l # ps) (s # ss) = (if l = s then match_segments ps ss else None)"
| "match_segments (Wild n # ps) (s # ss) =
     (if s = [] then None else map_option (\<lambda>vs. (n, s) # vs) (match_segments ps ss))"
| "match_segments _ _ = None"

fun find_route :: "'w route list \<Rightarrow> string list \<Rightarrow> (string \<times> (string \<times> string) list \<times> 'w handler) option" where
  "find_route [] segs = None"
| "find_route ((pat, ps, h) # routes) segs =
     (case match_segments ps segs of
        Some vs \<Rightarrow> Some (pat, vs, h)
      | None \<Rightarrow> find_route routes segs)"

definition path_value :: "(string \<times> string) list \<Rightarrow> string \<Rightarrow> string" where
  "path_value vs n = (case map_of vs n of None \<Rightarrow> [] | Some v \<Rightarrow> v)"

text \<open>\<open>http.NotFound\<close>.\<close>

definition not_found_ops :: "http_op list" where
  "not_found_ops =
     [SetHeader ''Content-Type'' ''text/plain; charset=utf-8'', SetHeader ''X-Content-Type-Options'' ''nosniff'',
      WriteHeader 404, WriteBody (''404 page not found'' @ [CHR 0x0A])]"

definition mux :: "'w route list \<Rightarrow> 'w handler" where
  "mux routes req w =
     (case find_route routes (hq_segments req) of
        None \<Rightarrow> (not_found_ops, w)
      | Some (pat, vs, h) \<Rightarrow> h (req\<lparr>hq_path_value := path_value vs\<rparr>) w)"

definition mux_pattern :: "'w route list \<Rightarrow> http_request \<Rightarrow> string" where
  "mux_pattern routes req =
     (case find_route routes (hq_segments req) of None \<Rightarrow> [] | Some (pat, _, _) \<Rightarrow> pat)"

definition local_routes ::
  "runtime \<Rightarrow> local_config \<Rightarrow> server_world registration_service
     \<Rightarrow> server_world resolver_service \<Rightarrow> server_world admin_service \<Rightarrow> server_world route list" where
  "local_routes rt cfg reg res adm =
     (let service = admin_methods rt adm in
      add_routes server_ids
        (register_agent_handler server_ids (register rt reg))
        (resolve_agent_handler server_ids (resolve rt res))
        \<lparr>ah_get_agent = admin_get_agent_handler server_ids service,
         ah_list_audit = admin_list_audit_handler rt server_ids service,
         ah_list_audit_by_agent = admin_list_audit_by_agent_handler rt server_ids service,
         ah_get_revocation_status = admin_get_revocation_status_handler server_ids service,
         ah_set_revocation_status = admin_set_revocation_status_handler server_ids service\<rparr>
        (cf_api_token cfg) (\<lambda>w. Some (w_registry w)))"

text \<open>\<open>newLocalHandler\<close> with an open database.\<close>

definition new_local_handler ::
  "runtime \<Rightarrow> local_config \<Rightarrow> goerr + server_world handler" where
  "new_local_handler rt cfg =
     (case new_filesystem_store (cf_facts_dir cfg) of
        Inl e \<Rightarrow> Inl e
      | Inr _ \<Rightarrow>
     (case new_verifier (cf_trusted_issuers cfg) None of
        Inl e \<Rightarrow> Inl e
      | Inr _ \<Rightarrow>
     (case local_registration rt cfg of
        Inl e \<Rightarrow> Inl e
      | Inr reg \<Rightarrow>
     (case local_resolver rt cfg of
        Inl e \<Rightarrow> Inl e
      | Inr res \<Rightarrow>
     (case local_admin rt of
        Inl e \<Rightarrow> Inl e
      | Inr adm \<Rightarrow>
          let routes = local_routes rt cfg reg res adm
          in Inr (with_request_id server_ids
                    (middleware on_registry (\<lambda>w. se_elapsed (w_env w)) (mux_pattern routes) (mux routes))))))))"

subsection \<open>Migrations\<close>

text \<open>\<open>is_dir\<close> answers \<open>os.Stat\<close>, \<open>glob\<close> lists the \<open>*.sql\<close> files of a directory, \<open>exec\<close>
  is the database.\<close>

fun find_dir :: "(string \<Rightarrow> bool) \<Rightarrow> string list \<Rightarrow> goerr + string" where
  "find_dir is_dir [] = Inl (ErrNew ''migrations directory not found'')"
| "find_dir is_dir (c # cs) = (if is_dir c then Inr c else find_dir is_dir cs)"

definition find_migrations_dir :: "(string \<Rightarrow> bool) \<Rightarrow> goerr + string" where
  "find_migrations_dir is_dir = find_dir is_dir [''migrations'', ''../../migrations'']"

fun apply_migrations ::
  "(string \<Rightarrow> os_error + bytes) \<Rightarrow> (bytes \<Rightarrow> 'd \<Rightarrow> db_error option \<times> 'd) \<Rightarrow> string list \<Rightarrow> 'd \<Rightarrow> goerr option \<times> 'd" where
  "apply_migrations read exec [] db = (None, db)"
| "apply_migrations read exec (f # fs) db =
     (case read f of
        Inl e \<Rightarrow> (Some (wrap_err (''read migration '' @ f) (ErrNew e)), db)
      | Inr sql \<Rightarrow>
          (case exec sql db of
             (Some e, db') \<Rightarrow> (Some (wrap_err (''apply migration '' @ f) (ErrNew e)), db')
           | (None, db') \<Rightarrow> apply_migrations read exec fs db'))"

definition run_migrations ::
  "(string \<Rightarrow> bool) \<Rightarrow> (string \<Rightarrow> string list) \<Rightarrow> (string \<Rightarrow> os_error + bytes)
     \<Rightarrow> (bytes \<Rightarrow> 'd \<Rightarrow> db_error option \<times> 'd) \<Rightarrow> 'd \<Rightarrow> goerr option \<times> 'd" where
  "run_migrations is_dir glob read exec db =
     (case find_migrations_dir is_dir of
        Inl e \<Rightarrow> (Some e, db)
      | Inr dir \<Rightarrow>
          let files = glob dir in
          if files = [] then (Some (ErrNew ''no migrations found in ./migrations''), db)
          else apply_migrations read exec (sort files) db)"

subsection \<open>The start of the process\<close>

text \<open>\<open>run\<close> up to the listener. \<open>start_env\<close> is the process environment and what opening the
  database answers; the database itself is threaded through, since the migrations change it.\<close>

record 'd start_env =
  st_config :: config_env
  st_open :: "string \<Rightarrow> db_error option"
  st_ping :: "db_error option"
  st_is_dir :: "string \<Rightarrow> bool"
  st_glob :: "string \<Rightarrow> string list"
  st_read :: "string \<Rightarrow> os_error + bytes"
  st_exec :: "bytes \<Rightarrow> 'd \<Rightarrow> db_error option \<times> 'd"

definition start_migrations :: "'d start_env \<Rightarrow> local_config \<Rightarrow> 'd \<Rightarrow> goerr option \<times> 'd" where
  "start_migrations env cfg db =
     (if cf_auto_migrate cfg then run_migrations (st_is_dir env) (st_glob env) (st_read env) (st_exec env) db
      else (None, db))"

definition start ::
  "runtime \<Rightarrow> 'd start_env \<Rightarrow> 'd \<Rightarrow> (goerr + local_config \<times> server_world handler) \<times> 'd" where
  "start rt env db =
     (case load_local rt (st_config env) of
        Inl e \<Rightarrow> (Inl e, db)
      | Inr cfg \<Rightarrow>
     (case validate_runtime cfg of
        Some e \<Rightarrow> (Inl e, db)
      | None \<Rightarrow>
     (case st_open env (cf_postgres_dsn cfg) of
        Some e \<Rightarrow> (Inl (wrap_err ''open postgres'' (ErrNew e)), db)
      | None \<Rightarrow>
     (case st_ping env of
        Some e \<Rightarrow> (Inl (wrap_err ''ping postgres'' (ErrNew e)), db)
      | None \<Rightarrow>
     (case start_migrations env cfg db of
        (Some e, db1) \<Rightarrow> (Inl e, db1)
      | (None, db1) \<Rightarrow>
     (case new_local_handler rt cfg of
        Inl e \<Rightarrow> (Inl e, db1)
      | Inr handler \<Rightarrow> (Inr (cfg, handler), db1)))))))"

text \<open>How the server stops: a signal and the outcome of the shutdown, or what \<open>ListenAndServe\<close>
  returned, \<open>ServerClosed\<close> for \<open>http.ErrServerClosed\<close>.\<close>

datatype listen_error = ServerClosed | ListenFailed goerr

datatype server_stop = Signalled "goerr option" | ListenerEnded "listen_error option"

fun stop_error :: "server_stop \<Rightarrow> goerr option" where
  "stop_error (Signalled None) = None"
| "stop_error (Signalled (Some e)) = Some (wrap_err ''server shutdown'' e)"
| "stop_error (ListenerEnded (Some (ListenFailed e))) = Some e"
| "stop_error (ListenerEnded _) = None"

definition run ::
  "runtime \<Rightarrow> 'd start_env \<Rightarrow> server_stop \<Rightarrow> 'd \<Rightarrow> goerr option \<times> 'd" where
  "run rt env stop db =
     (case start rt env db of
        (Inl e, db1) \<Rightarrow> (Some e, db1)
      | (Inr _, db1) \<Rightarrow> (stop_error stop, db1))"

end
