(* ===== verification/Server_Facts.thy ===== *)
theory Server_Facts
  imports Server
begin

text \<open>
  The server as a whole: what its services are once the configuration is loaded, that a protected
  route cannot be reached without the token, that what the server appends to the audit log is
  accepted by the log, and that an agent that has been registered can be resolved.
\<close>

subsection \<open>The services of a loaded configuration\<close>

definition registration_of :: "runtime \<Rightarrow> local_config \<Rightarrow> server_world registration_service" where
  "registration_of rt cfg =
     \<lparr>rs_facts_store = server_facts rt (cf_facts_dir cfg), rs_pointer_store = Some (server_pointers),
      rs_index_store = server_index rt, rs_private_key = cf_private_key cfg,
      rs_audit_store = server_audit rt\<rparr>"

definition resolver_of :: "runtime \<Rightarrow> local_config \<Rightarrow> server_world resolver_service" where
  "resolver_of rt cfg =
     \<lparr>rv_index_store = server_index rt, rv_facts_store = server_facts rt (cf_facts_dir cfg),
      rv_pointer_resolver = server_pointers, rv_public_key = cf_public_key cfg,
      rv_trust_verifier = Some (server_trust rt (cf_trusted_issuers cfg)),
      rv_audit_store = server_audit rt, rv_now = (\<lambda>w. se_now (w_env w))\<rparr>"

definition observed_audit :: "runtime \<Rightarrow> server_world audit_iface" where
  "observed_audit rt =
     (server_pg_audit rt)\<lparr>ai_append := \<lambda>input w. observe_append on_registry (ai_append (server_pg_audit rt) input w)\<rparr>"

definition admin_of :: "runtime \<Rightarrow> server_world admin_service" where
  "admin_of rt =
     \<lparr>as_index_store = server_index rt, as_audit_store = observed_audit rt,
      as_revocation_store = server_revocations rt\<rparr>"

lemma server_audit_Some: "server_audit rt = Some (observed_audit rt)"
  by (simp add: server_audit_def new_audit_store_def observed_audit_def)

lemma local_registration_eq:
  "length (cf_private_key cfg) = ed_private_key_size \<Longrightarrow> local_registration rt cfg = Inr (registration_of rt cfg)"
  by (simp add: local_registration_def new_registration_service_def registration_of_def
      with_pointer_store_def with_audit_store_def)

lemma local_resolver_eq:
  "length (cf_public_key cfg) = ed_public_key_size \<Longrightarrow> local_resolver rt cfg = Inr (resolver_of rt cfg)"
  by (simp add: local_resolver_def new_resolver_service_def resolver_of_def
      with_trust_verifier_def with_resolver_audit_store_def)

lemma local_admin_eq: "local_admin rt = Inr (admin_of rt)"
  by (simp add: local_admin_def new_admin_service_def server_audit_Some admin_of_def)

definition server_routes :: "runtime \<Rightarrow> local_config \<Rightarrow> server_world route list" where
  "server_routes rt cfg =
     local_routes rt cfg (registration_of rt cfg) (resolver_of rt cfg) (admin_of rt)"

definition server_handler :: "runtime \<Rightarrow> local_config \<Rightarrow> server_world handler" where
  "server_handler rt cfg =
     with_request_id server_ids
       (middleware on_registry (\<lambda>w. se_elapsed (w_env w)) (mux_pattern (server_routes rt cfg))
          (mux (server_routes rt cfg)))"

definition config_ok :: "local_config \<Rightarrow> bool" where
  "config_ok cfg \<longleftrightarrow>
     length (cf_private_key cfg) = ed_private_key_size \<and> cf_public_key cfg = ed_public (cf_private_key cfg)
     \<and> issuers_ok (cf_trusted_issuers cfg) \<and> cf_facts_dir cfg \<noteq> []"

lemma new_local_handler_eq:
  assumes "config_ok cfg"
  shows "new_local_handler rt cfg = Inr (server_handler rt cfg)"
proof -
  have "length (cf_public_key cfg) = ed_public_key_size"
    using assms by (simp add: config_ok_def length_ed_public)
  with assms show ?thesis
    by (simp add: new_local_handler_def new_filesystem_store_def config_ok_def new_verifier_ok
        local_registration_eq local_resolver_eq local_admin_eq server_handler_def server_routes_def Let_def)
qed

lemma load_local_config_ok:
  assumes "load_local rt env = Inr cfg"
    and "\<forall>k. ce_generate_key env = Inr k \<longrightarrow> length k = ed_private_key_size"
  shows "config_ok cfg"
  using load_local_Inr [OF assms] by (simp add: config_ok_def)

subsection \<open>Protected routes\<close>

definition public_path :: "string list \<Rightarrow> bool" where
  "public_path segs \<longleftrightarrow> segs \<in> {[''healthz''], [''readyz''], [''metrics'']}"

text \<open>Without the token a request changes nothing but the registry and the id counter.\<close>

definition same_stores :: "server_world \<Rightarrow> server_world \<Rightarrow> bool" where
  "same_stores w w' \<longleftrightarrow>
     w_disk w' = w_disk w \<and> w_pointers w' = w_pointers w \<and> w_index w' = w_index w
     \<and> w_audit w' = w_audit w \<and> w_revocations w' = w_revocations w \<and> w_env w' = w_env w"

lemma same_stores_refl [simp]: "same_stores w w"
  by (simp add: same_stores_def)

lemma same_stores_trans: "same_stores a b \<Longrightarrow> same_stores b c \<Longrightarrow> same_stores a c"
  by (simp add: same_stores_def)

lemma on_registry_stores [simp]: "same_stores w (on_registry f w)"
  by (simp add: on_registry_def same_stores_def split: option.split)

lemma server_ids_stores: "same_stores w (snd (snd (ensure_request_id server_ids req w)))"
  by (simp add: ensure_request_id_def new_request_id_def server_ids_def same_stores_def split: option.split prod.split)

definition guarded :: "string \<Rightarrow> 'w id_source \<Rightarrow> 'w handler \<Rightarrow> bool" where
  "guarded token ids h \<longleftrightarrow> (\<exists>inner. h = with_bearer_auth ids inner token)"

lemma find_route_guarded:
  assumes "find_route (server_routes rt cfg) segs = Some (pat, vs, h)" and "\<not> public_path segs"
  shows "guarded (cf_api_token cfg) server_ids h"
proof -
  have lit: "match_segments [Lit l] segs = Some us \<Longrightarrow> segs = [l]" for l us
    by (cases segs rule: remdups_adj.cases) (auto split: if_splits)
  show ?thesis
    using assms
    by (auto simp: server_routes_def local_routes_def add_routes_def Let_def public_path_def guarded_def
        simp del: match_segments.simps dest: lit split: option.splits)
qed

lemma status_depends:
  "hp_status r = hp_status r' \<Longrightarrow> hp_status (foldl apply_op r ops) = hp_status (foldl apply_op r' ops)"
proof (induction ops arbitrary: r r')
  case (Cons op ops)
  have "hp_status (apply_op r op) = hp_status (apply_op r' op)"
    using Cons.prems by (cases op) auto
  from Cons.IH [OF this] show ?case by simp
qed simp

lemma status_after_header: "hp_status (run_ops (SetHeader k hv # ops)) = hp_status (run_ops ops)"
  unfolding run_ops_def foldl.simps
  by (rule status_depends) (simp add: fresh_response_def)

text \<open>What the server answers, in terms of the mux: the stores are those the mux leaves.\<close>

lemma server_handler_mux:
  obtains i w1 where "i \<noteq> []" and "same_stores w w1"
    and "request_id (Some req) \<noteq> [] \<longrightarrow> i = request_id (Some req) \<and> w1 = w"
    and "fst (server_handler rt cfg req w) =
      SetHeader request_id_header i
        # rc_ops (record_ops (fst (mux (server_routes rt cfg) (req\<lparr>hq_context_id := i\<rparr>) w1)))"
    and "same_stores (snd (mux (server_routes rt cfg) (req\<lparr>hq_context_id := i\<rparr>) w1))
      (snd (server_handler rt cfg req w))"
proof -
  obtain i w1 where e: "ensure_request_id server_ids req w = ([SetHeader request_id_header i], req\<lparr>hq_context_id := i\<rparr>, w1)"
    "i \<noteq> []" "request_id (Some req) \<noteq> [] \<longrightarrow> i = request_id (Some req) \<and> w1 = w"
    by (rule ensure_request_id_form)
  have "same_stores w w1" using server_ids_stores [of w req] e(1) by simp
  with e show thesis
    by (intro that [of i w1]) (simp_all add: server_handler_def with_request_id_def middleware_def Let_def split: prod.split)
qed

lemma server_handler_status:
  assumes "fst (server_handler rt cfg req w) =
      SetHeader request_id_header i # rc_ops (record_ops ops)"
  shows "hp_status (run_ops (fst (server_handler rt cfg req w))) = hp_status (run_ops ops)"
  using assms by (simp add: status_after_header recorder_transparent)

lemma status_401: "hp_status (run_ops (SetHeader k hv # write_json_error 401 c m)) = 401"
  by (simp add: run_ops_def write_json_error_def json_type_def encode_json_def fresh_response_def)

lemma status_404: "hp_status (run_ops not_found_ops) = 404"
  by (simp add: run_ops_def not_found_ops_def fresh_response_def)

lemma unauthorized_mux:
  assumes "cf_api_token cfg \<noteq> []" and "\<not> public_path (hq_segments req)"
    and "hq_header req ''Authorization'' \<noteq> ''Bearer '' @ cf_api_token cfg" and "hq_context_id req \<noteq> []"
  shows "hp_status (run_ops (fst (mux (server_routes rt cfg) req w)))
      = (if find_route (server_routes rt cfg) (hq_segments req) = None then 404 else 401)"
    and "snd (mux (server_routes rt cfg) req w) = w"
proof -
  let ?routes = "server_routes rt cfg"
  have "hp_status (run_ops (fst (mux ?routes req w)))
      = (if find_route ?routes (hq_segments req) = None then 404 else 401) \<and> snd (mux ?routes req w) = w"
  proof (cases "find_route ?routes (hq_segments req)")
    case None
    then show ?thesis by (simp add: mux_def status_404)
  next
    case (Some found)
    obtain pat vs h where found: "found = (pat, vs, h)" by (cases found) auto
    with Some have "find_route ?routes (hq_segments req) = Some (pat, vs, h)" by simp
    from find_route_guarded [OF this assms(2)]
    obtain inner where h: "h = with_bearer_auth server_ids inner (cf_api_token cfg)"
      unfolding guarded_def by blast
    let ?req = "req\<lparr>hq_path_value := path_value vs\<rparr>"
    have "mux ?routes req w =
      (SetHeader request_id_header (hq_context_id req) # write_json_error 401 ''unauthorized'' (status_text 401), w)"
      using assms Some found
      by (simp add: mux_def h with_bearer_auth_rejects ensure_request_id_again)
    then show ?thesis using Some by (simp add: status_401)
  qed
  then show "hp_status (run_ops (fst (mux ?routes req w)))
      = (if find_route ?routes (hq_segments req) = None then 404 else 401)" "snd (mux ?routes req w) = w"
    by blast+
qed

lemma server_unauthorized:
  assumes "cf_api_token cfg \<noteq> []" and "\<not> public_path (hq_segments req)"
    and "hq_header req ''Authorization'' \<noteq> ''Bearer '' @ cf_api_token cfg"
  shows "hp_status (run_ops (fst (server_handler rt cfg req w)))
      = (if find_route (server_routes rt cfg) (hq_segments req) = None then 404 else 401)
    \<and> same_stores w (snd (server_handler rt cfg req w))"
proof -
  obtain i w1 where i: "i \<noteq> []" "same_stores w w1"
    "fst (server_handler rt cfg req w) =
      SetHeader request_id_header i
        # rc_ops (record_ops (fst (mux (server_routes rt cfg) (req\<lparr>hq_context_id := i\<rparr>) w1)))"
    "same_stores (snd (mux (server_routes rt cfg) (req\<lparr>hq_context_id := i\<rparr>) w1))
      (snd (server_handler rt cfg req w))"
    by (rule server_handler_mux)
  have m: "hp_status (run_ops (fst (mux (server_routes rt cfg) (req\<lparr>hq_context_id := i\<rparr>) w1)))
      = (if find_route (server_routes rt cfg) (hq_segments req) = None then 404 else 401)"
    "snd (mux (server_routes rt cfg) (req\<lparr>hq_context_id := i\<rparr>) w1) = w1"
    using unauthorized_mux [of cfg "req\<lparr>hq_context_id := i\<rparr>" rt w1] assms i(1) by simp_all
  with i server_handler_status [OF i(3)] show ?thesis
    by (auto intro: same_stores_trans)
qed

subsection \<open>What the server logs is accepted by the log\<close>

definition audit_ready :: "append_env \<Rightarrow> bool" where
  "audit_ready env \<longleftrightarrow>
     (\<forall>stage. ae_fault env stage = None) \<and> (\<exists>bs. ae_random env = Inr bs)
     \<and> time_marshal_error (truncate_micros (time_utc (ae_now env))) = None"

lemma truncate_utc [simp]: "time_utc (truncate_micros (time_utc t)) = truncate_micros (time_utc t)"
  by (simp add: time_utc_def truncate_micros_def)

lemma pg_append_ok:
  assumes "input_ok input" and "audit_ready env"
  shows "\<exists>ev table'. pg_append rt env table input = (Inr ev, table')"
proof -
  obtain bs where "ae_random env = Inr bs" using assms(2) by (auto simp: audit_ready_def)
  from new_event_ok [OF assms(1) this, of "truncate_micros (time_utc (ae_now env))" rt "pg_previous_hash table"] assms(2)
  show ?thesis by (auto simp: pg_append_def audit_ready_def)
qed

lemma observed_append_ok:
  assumes "input_ok input" and "audit_ready (se_audit (w_env w))"
  shows "\<exists>ev w'. ai_append (observed_audit rt) input w = (Inr ev, w')"
proof -
  obtain ev t where "pg_append rt (se_audit (w_env w)) (w_audit w) input = (Inr ev, t)"
    using pg_append_ok [OF assms] by blast
  then show ?thesis
    by (simp add: observed_audit_def server_pg_audit_def observe_append_def)
qed

lemma plain_success_json:
  assumes "0 \<le> cm_ttl_seconds (rsp_cache resp)"
  shows "plain_json (resolve_success_json req resp)"
  using assms by (simp add: plain_json_def eval_nat_numeral resolve_success_json_def resolve_request_json_def proof_bundle_json_def)

lemma plain_failure_json: "plain_json (resolve_failure_json req e)"
  by (simp add: plain_json_def eval_nat_numeral resolve_failure_json_def resolve_request_json_def)

lemma plain_registration_json: "plain_json (registration_audit_json req resp)"
  by (simp add: plain_json_def eval_nat_numeral registration_audit_json_def)

lemma plain_revocation_json: "plain_json (revocation_audit_json req)"
  by (simp add: plain_json_def eval_nat_numeral revocation_audit_json_def omit_empty_def)

subsection \<open>Registration and resolution\<close>

text \<open>The stores hold a registration: the document under its pointer, the pointer under its hash,
  the record under the hash of the agent.\<close>

definition published ::
  "runtime \<Rightarrow> string \<Rightarrow> server_world \<Rightarrow> string \<Rightarrow> bytes \<Rightarrow> agent_addr120 \<Rightarrow> index_row \<Rightarrow> bool" where
  "published rt root w agent_id facts_bytes record row \<longleftrightarrow>
     index_wf rt (w_index w)
     \<and> w_disk w (join_path [root, deterministic_path facts_bytes]) = Some facts_bytes
     \<and> w_pointers w (hex_encode (arr_bytes (pointer_hash128 (fs_pointer facts_bytes))))
         = Some (filesystem_scheme, deterministic_path facts_bytes)
     \<and> it_rows (w_index w) (arr_bytes (hash128 agent_id)) = Some row
     \<and> ir_record_bytes row = encode_record record"

definition stores_agree :: "server_world \<Rightarrow> server_world \<Rightarrow> bool" where
  "stores_agree w w' \<longleftrightarrow> w_disk w' = w_disk w \<and> w_pointers w' = w_pointers w \<and> w_index w' = w_index w"

lemma published_agree: "published rt root w a f r row \<Longrightarrow> stores_agree w w' \<Longrightarrow> published rt root w' a f r row"
  by (simp add: published_def stores_agree_def)

lemma published_sequence:
  assumes "published rt root w a f record row" and "record_commits rt key req a pointer record"
  shows "ir_sequence row = rq_sequence req"
proof -
  have "row_ok rt row" using assms(1) unfolding published_def index_wf_def by blast
  with assms show ?thesis by (auto simp: published_def row_ok_def record_commits_def)
qed

lemma observed_append_agree: "stores_agree w (snd (ai_append (observed_audit rt) input w))"
  by (auto simp: observed_audit_def server_pg_audit_def observe_append_def stores_agree_def on_registry_def
      split: prod.splits sum.splits option.splits)

definition newer_than_current :: "index_table \<Rightarrow> 128 word \<Rightarrow> 32 word \<Rightarrow> bool" where
  "newer_than_current table h sq \<longleftrightarrow>
     (\<forall>row. it_rows table (arr_bytes h) = Some row \<longrightarrow> ir_sequence row < sq)"

lemma index_put_newer_ok:
  assumes wf: "index_wf rt table" and ready: "index_ready env" and check: "check_put rt agent_id record = Inr h"
    and newer: "newer_than_current table h (p_sequence (payload_of record))"
  shows "index_put rt env table agent_id record = (None, written env table h agent_id record)"
proof -
  have wrote: "write_record env table h agent_id record = (None, written env table h agent_id record)"
    using ready by (simp add: write_record_def written_def index_ready_def)
  show ?thesis
  proof (cases "get_current None (\<lambda>_. 0) table h")
    case (Inl e)
    have "it_rows table (arr_bytes h) = None"
      using get_current_row [OF wf, of h _ "\<lambda>_. 0"] Inl by (cases "it_rows table (arr_bytes h)") auto
    then have "err_is e (Index IX_ErrNotFound)" using get_current_None [of table h "\<lambda>_. 0"] Inl by auto
    with Inl check ready wrote show ?thesis by (simp add: index_put_def index_ready_def)
  next
    case (Inr cur)
    from get_current_Inr(1) [OF wf Inr] newer have "ix_sequence cur < p_sequence (payload_of record)"
      by (auto simp: newer_than_current_def)
    then have "decide_put (Some cur) record = PutWrite" by (simp add: decide_put_def not_less_iff_gr_or_eq)
    with Inr check ready wrote show ?thesis by (simp add: index_put_def index_ready_def)
  qed
qed

lemma register_publishes:
  assumes reg: "register rt (registration_of rt cfg) req w = (Inr resp, w')"
    and wf: "index_wf rt (w_index w)" and lower: "lower_ok (rt_lower rt)"
  shows "\<exists>agent_id record row. validate_register_request rt req = Inr agent_id
      \<and> published rt (cf_facts_dir cfg) w' agent_id (rq_facts req) record row
      \<and> record_commits rt (cf_private_key cfg) req agent_id (fs_pointer (rq_facts req)) record
      \<and> agent_id_hash rt agent_id = Inr (hash128 agent_id)
      \<and> ir_ttl_seconds row = rq_ttl_seconds req
      \<and> (index_ready (se_index_put (w_env w))
           \<longrightarrow> newer_than_current (w_index w) (hash128 agent_id) (rq_sequence req)
           \<longrightarrow> ir_updated_at row = ie_now (se_index_put (w_env w)))"
proof -
  let ?s = "registration_of rt cfg"
  obtain agent_id pointer w1 w2 cs "record" w3 where
    valid: "validate_register_request rt req = Inr agent_id"
    and put: "fi_put (rs_facts_store ?s) (rq_facts req) w = (Inr pointer, w1)"
    and ptr: "put_pointer ?s pointer w1 = (None, w2)"
    and rec: "register_record rt (rs_private_key ?s) req agent_id pointer = Inr (cs, record)"
    and index: "ii_put (rs_index_store ?s) agent_id record w2 = (None, w3)"
    and audit: "audit_registration rt ?s req resp w3 = (None, w')"
    using reg by (simp only: register_Inr) blast
  have hash: "agent_id_hash rt agent_id = Inr (hash128 agent_id)"
    using valid agent_id_hash_fixpoint [OF lower] unfolding validate_register_request_Inr by blast
  obtain disk where d: "fs_put (cf_facts_dir cfg) (se_fs (w_env w)) (w_disk w) (rq_facts req) = (Inr pointer, disk)"
    and w1: "w1 = w\<lparr>w_disk := disk\<rparr>"
    using put by (auto simp: registration_of_def server_facts_def split: prod.splits)
  have fs: "pointer = fs_pointer (rq_facts req)"
    "disk = (w_disk w)(join_path [cf_facts_dir cfg, deterministic_path (rq_facts req)] \<mapsto> rq_facts req)"
    using fs_put_Inr [of "cf_facts_dir cfg" "se_fs (w_env w)" "w_disk w" "rq_facts req" pointer] d by auto
  obtain t where t: "pg_put_pointer (se_pointer_put (w_env w)) (w_pointers w) pointer = (None, t)"
    and w2: "w2 = w1\<lparr>w_pointers := t\<rparr>"
    using ptr by (auto simp: put_pointer_None registration_of_def server_pointers_def w1 split: prod.splits)
  have t_eq: "t = (w_pointers w)(hex_encode (arr_bytes (pointer_hash128 pointer)) \<mapsto> (fp_scheme pointer, fp_path pointer))"
    using t by (auto simp: pg_put_pointer_def Let_def split: if_splits option.splits)
  obtain ix where ix: "index_put rt (se_index_put (w_env w)) (w_index w) agent_id record = (None, ix)"
    and w3: "w3 = w2\<lparr>w_index := ix\<rparr>"
    using index by (auto simp: registration_of_def server_index_def w1 w2 split: prod.splits)
  have commits: "record_commits rt (cf_private_key cfg) req agent_id pointer record"
    using register_record_commits(1) [OF rec hash] by (simp add: registration_of_def)
  then have key: "p_agent_id_hash (payload_of record) = hash128 agent_id" by (simp add: record_commits_def)
  have "fst (index_put rt (se_index_put (w_env w)) (w_index w) agent_id record) = None" by (simp add: ix)
  from index_put_row [OF wf this] ix key obtain row where
    row: "it_rows ix (arr_bytes (hash128 agent_id)) = Some row" "ir_record_bytes row = encode_record record" by auto
  have wf': "index_wf rt ix" using index_put_wf [OF wf, of "se_index_put (w_env w)" agent_id "record"] ix by simp
  have agree: "stores_agree w3 w'"
    using audit observed_append_agree
    by (auto simp: audit_registration_None registration_of_def server_audit_Some dest: arg_cong [where f = snd])
      (metis snd_conv)
  have "published rt (cf_facts_dir cfg) w3 agent_id (rq_facts req) record row"
    using row wf' fs t_eq by (simp add: published_def w3 w2 w1 fs_pointer_def)
  note published = published_agree [OF this agree]
  have "row_ok rt row" using wf' row(1) unfolding index_wf_def by blast
  then have ttl: "ir_ttl_seconds row = rq_ttl_seconds req"
    using row(2) commits by (auto simp: row_ok_def record_commits_def)
  have "ir_updated_at row = ie_now (se_index_put (w_env w))"
    if "index_ready (se_index_put (w_env w))"
      and "newer_than_current (w_index w) (hash128 agent_id) (rq_sequence req)"
  proof -
    have "newer_than_current (w_index w) (hash128 agent_id) (p_sequence (payload_of record))"
      using that(2) commits by (simp add: record_commits_def)
    from index_put_newer_ok [OF wf that(1) record_commits_check_put [OF commits hash] this] ix
    have "ix = written (se_index_put (w_env w)) (w_index w) (hash128 agent_id) agent_id record" by simp
    with row(1) show ?thesis by (auto simp: written_rows upsert_row_def split: option.splits)
  qed
  with published valid commits hash fs(1) ttl show ?thesis by blast
qed

definition reads_ready :: "server_env \<Rightarrow> bool" where
  "reads_ready env \<longleftrightarrow>
     fs_ctx (se_fs env) = None \<and> fs_read (se_fs env) = None
     \<and> se_pointer_get env = None \<and> se_index_get env = None"

text \<open>At least one second is left of the time to live of a row.\<close>

definition row_fresh :: "gotime \<Rightarrow> index_row \<Rightarrow> bool" where
  "row_fresh now row \<longleftrightarrow>
     instant (ir_updated_at row) \<noteq> 0
     \<and> instant now + nanos_per_second
         \<le> instant (ir_updated_at row) + int (unat (ir_ttl_seconds row)) * nanos_per_second"

definition trusted_on ::
  "runtime \<Rightarrow> local_config \<Rightarrow> server_world \<Rightarrow> agent_facts \<Rightarrow> string \<Rightarrow> string \<Rightarrow> bool" where
  "trusted_on rt cfg w facts agent_id capability \<longleftrightarrow>
     (\<exists>c \<in> set (af_credentials facts).
        credential_trusted rt
          \<lparr>tv_issuers = cf_trusted_issuers cfg,
           tv_revocation_checker = Some (\<lambda>i c. pg_is_revoked (se_revocation_get (w_env w)) (w_revocations w) i c)\<rparr>
          c agent_id capability (se_now (w_env w)))"

lemma server_trust_iff:
  "server_trust rt (cf_trusted_issuers cfg) w (af_credentials facts) agent_id capability (se_now (w_env w)) = None
     \<longleftrightarrow> trusted_on rt cfg w facts agent_id capability"
  by (simp add: server_trust_def verify_capability_iff trusted_on_def server_revocations_def)

text \<open>What is published and fresh passes the checks of \<open>Resolve\<close>.\<close>

lemma published_checks:
  assumes pub: "published rt (cf_facts_dir cfg) w agent_id (rq_facts reg) record row"
    and commits: "record_commits rt (cf_private_key cfg) reg agent_id (fs_pointer (rq_facts reg)) record"
    and hash: "agent_id_hash rt agent_id = Inr (hash128 agent_id)"
    and cfg: "config_ok cfg" and key: "keypair_ok rt (cf_private_key cfg)"
    and ready: "reads_ready (w_env w)" and fresh: "row_fresh (se_now (w_env w)) row"
    and agent: "normalize_agent_id rt (rsq_agent_id req) = Inr agent_id"
    and facts: "decode_facts rt (rq_facts reg) = Inr facts"
    and valid: "facts_valid_for rt facts agent_id (rsq_required_capability req) (se_now (w_env w))"
    and trust: "rsq_required_capability req \<noteq> [] \<longrightarrow> trusted_on rt cfg w facts agent_id (rsq_required_capability req)"
  shows "\<exists>resp hex ep. resolve_checks rt (resolver_of rt cfg) w (se_now (w_env w)) req = Inr (resp, hex)
     \<and> select_endpoint facts = Some ep \<and> rsp_endpoint resp = ep \<and> rsp_agent_id resp = agent_id
     \<and> cm_source_sequence (rsp_cache resp) = rq_sequence reg \<and> 0 \<le> cm_ttl_seconds (rsp_cache resp)
     \<and> rsp_trust_decision resp = fst (resolve_trust (rsq_required_capability req))"
proof -
  let ?s = "resolver_of rt cfg" and ?now = "se_now (w_env w)" and ?p = "payload_of record"
  have p: "p_agent_id_hash ?p = hash128 agent_id" "p_ttl_seconds ?p = rq_ttl_seconds reg"
    "p_sequence ?p = rq_sequence reg" "p_facts_ptr_hash128 ?p = pointer_hash128 (fs_pointer (rq_facts reg))"
    "credential_set_hash128 (af_credentials facts) = Inr (p_credential_set128 ?p)"
    using commits facts by (auto simp: record_commits_def)
  have wf: "index_wf rt (w_index w)" and row: "it_rows (w_index w) (arr_bytes (hash128 agent_id)) = Some row"
    "ir_record_bytes row = encode_record record"
    using pub by (auto simp: published_def)
  from index_get_wf [OF wf row(1), of "se_zone (w_env w)"] row(2) obtain ir where
    get: "index_get None (se_zone (w_env w)) (w_index w) (hash128 agent_id) = Inr ir"
    and ir: "ix_record ir = record" "ix_updated_at ir = read_time (se_zone (w_env w)) (ir_updated_at row)"
    by auto
  have "row_ok rt row" using wf row(1) unfolding index_wf_def by blast
  then have ttl: "ir_ttl_seconds row = p_ttl_seconds ?p" using row(2) by (auto simp: row_ok_def)
  have get': "ii_get (rv_index_store ?s) (p_agent_id_hash ?p) w = Inr ir"
    using get ready p(1) by (simp add: resolver_of_def server_index_def reads_ready_def)
  have verify: "verify_record rt record (rv_public_key ?s) = None"
    using record_commits_verifies [OF commits key] cfg by (simp add: resolver_of_def config_ok_def)
  have time: "record_time ir = read_time (se_zone (w_env w)) (ir_updated_at row)"
    using fresh by (simp add: record_time_def ir(2) row_fresh_def time_is_zero_def read_time_def)
  obtain l1 where l1: "l1_freshness ir ?p ?now = Inr l1"
    using l1_freshness_fresh [of ir ?now ?p] fresh ttl
    by (auto simp: time row_fresh_def time_is_zero_def read_time_def)
  have pointer: "pi_resolve (rv_pointer_resolver ?s) (p_facts_ptr_hash128 ?p) w = Inr (fs_pointer (rq_facts reg))"
    using pub ready p(4) by (simp add: resolver_of_def server_pointers_def pg_resolve_pointer_def reads_ready_def
        published_def fs_pointer_def)
  have doc: "fi_get (rv_facts_store ?s) (fs_pointer (rq_facts reg)) w = Inr (rq_facts reg)"
    using pub ready by (simp add: resolver_of_def server_facts_def fs_get_def reads_ready_def published_def
        fs_pointer_def clean_deterministic_path del: join_path.simps)
  have trust': "rsq_required_capability req \<noteq> [] \<longrightarrow>
      (\<exists>verifier. rv_trust_verifier ?s = Some verifier
         \<and> verifier w (af_credentials facts) agent_id (rsq_required_capability req) ?now = None)"
    using trust by (simp add: resolver_of_def server_trust_iff)
  have res: "resolution rt ?s w ?now req agent_id ir l1 (fs_pointer (rq_facts reg)) (rq_facts reg) facts"
    unfolding resolution_def Let_def ir(1)
    using agent hash p get' verify l1 pointer doc facts valid trust' by simp
  obtain ep where ep: "select_endpoint facts = Some ep" using select_endpoint_valid [OF valid] by blast
  let ?trust = "resolve_trust (rsq_required_capability req)"
  let ?resp = "resolve_result ?now agent_id ep ?trust ?p l1"
  have "resolve_checks rt ?s w ?now req = Inr (?resp, hex_encode (arr_bytes (p_agent_id_hash ?p)))"
    unfolding resolve_checks_Inr using res ep ir(1) by blast
  moreover have "0 \<le> cm_ttl_seconds (rsp_cache ?resp)"
    using l1_freshness_Inr(2) [OF l1] by (simp add: resolve_result_def Let_def)
  ultimately show ?thesis
    using ep p(3) by (intro exI [of _ ?resp]) (simp add: resolve_result_def Let_def)
qed

lemma resolve_audited:
  assumes checks: "resolve_checks rt (resolver_of rt cfg) w (se_now (w_env w)) req = Inr (resp, hex)"
    and "audit_ready (se_audit (w_env w))" and "0 \<le> cm_ttl_seconds (rsp_cache resp)"
  shows "\<exists>w'. resolve rt (resolver_of rt cfg) req w = (Inr resp, w')"
proof -
  obtain d where d: "audit_payload rt (resolve_success_json req resp) = Inr (marshal d)" "plain_json d"
    using audit_payload_plain [OF plain_success_json [OF assms(3)]] by blast
  have "input_ok (success_input resp hex (marshal d))"
    using d(2) by (auto simp: input_ok_def success_input_def)
  from observed_append_ok [OF this assms(2)] obtain ev w' where
    "ai_append (observed_audit rt) (success_input resp hex (marshal d)) w = (Inr ev, w')" by blast
  with checks d(1) show ?thesis
    by (auto simp: resolve_Inr resolver_of_def server_audit_Some)
qed

lemma published_resolves:
  assumes pub: "published rt (cf_facts_dir cfg) w agent_id (rq_facts reg) record row"
    and commits: "record_commits rt (cf_private_key cfg) reg agent_id (fs_pointer (rq_facts reg)) record"
    and hash: "agent_id_hash rt agent_id = Inr (hash128 agent_id)"
    and cfg: "config_ok cfg" and key: "keypair_ok rt (cf_private_key cfg)"
    and ready: "reads_ready (w_env w)" "audit_ready (se_audit (w_env w))" and fresh: "row_fresh (se_now (w_env w)) row"
    and agent: "normalize_agent_id rt (rsq_agent_id req) = Inr agent_id"
    and facts: "decode_facts rt (rq_facts reg) = Inr facts"
    and valid: "facts_valid_for rt facts agent_id (rsq_required_capability req) (se_now (w_env w))"
    and trust: "rsq_required_capability req \<noteq> [] \<longrightarrow> trusted_on rt cfg w facts agent_id (rsq_required_capability req)"
  shows "\<exists>resp w3. resolve rt (resolver_of rt cfg) req w = (Inr resp, w3)
     \<and> rsp_agent_id resp = agent_id \<and> select_endpoint facts = Some (rsp_endpoint resp)
     \<and> cm_source_sequence (rsp_cache resp) = rq_sequence reg"
proof -
  from published_checks [OF pub commits hash cfg key ready(1) fresh agent facts valid trust]
  obtain resp hex ep where r: "resolve_checks rt (resolver_of rt cfg) w (se_now (w_env w)) req = Inr (resp, hex)"
    "select_endpoint facts = Some ep" "rsp_endpoint resp = ep" "rsp_agent_id resp = agent_id"
    "cm_source_sequence (rsp_cache resp) = rq_sequence reg" "0 \<le> cm_ttl_seconds (rsp_cache resp)"
    by blast
  from resolve_audited [OF r(1) ready(2) r(6)] r show ?thesis by auto
qed

lemma registered_resolves:
  assumes reg: "register rt (registration_of rt cfg) rreq w = (Inr rresp, w1)"
    and wf: "index_wf rt (w_index w)" and lower: "lower_ok (rt_lower rt)"
    and cfg: "config_ok cfg" and key: "keypair_ok rt (cf_private_key cfg)"
    and later: "stores_agree w1 w2" and ready: "reads_ready (w_env w2)" "audit_ready (se_audit (w_env w2))"
    and fresh: "\<forall>row. it_rows (w_index w2) (arr_bytes (hash128 (rp_agent_id rresp))) = Some row
       \<longrightarrow> row_fresh (se_now (w_env w2)) row"
    and agent: "normalize_agent_id rt (rsq_agent_id req) = Inr (rp_agent_id rresp)"
    and facts: "decode_facts rt (rq_facts rreq) = Inr facts"
      "facts_valid_for rt facts (rp_agent_id rresp) (rsq_required_capability req) (se_now (w_env w2))"
    and trust: "rsq_required_capability req \<noteq> [] \<longrightarrow>
       trusted_on rt cfg w2 facts (rp_agent_id rresp) (rsq_required_capability req)"
  shows "\<exists>resp w3. resolve rt (resolver_of rt cfg) req w2 = (Inr resp, w3)
     \<and> rsp_agent_id resp = rp_agent_id rresp \<and> select_endpoint facts = Some (rsp_endpoint resp)
     \<and> cm_source_sequence (rsp_cache resp) = rq_sequence rreq"
proof -
  obtain agent_id "record" row where pub: "validate_register_request rt rreq = Inr agent_id"
    "published rt (cf_facts_dir cfg) w1 agent_id (rq_facts rreq) record row"
    "record_commits rt (cf_private_key cfg) rreq agent_id (fs_pointer (rq_facts rreq)) record"
    "agent_id_hash rt agent_id = Inr (hash128 agent_id)"
    using register_publishes [OF reg wf lower] by blast
  have id: "rp_agent_id rresp = agent_id"
    using reg pub(1) by (auto simp: register_Inr make_response_def)
  have pub2: "published rt (cf_facts_dir cfg) w2 agent_id (rq_facts rreq) record row"
    by (rule published_agree [OF pub(2) later])
  then have "row_fresh (se_now (w_env w2)) row" using fresh id by (simp add: published_def)
  from published_resolves [OF pub2 pub(3,4) cfg key ready this] agent facts trust id show ?thesis by simp
qed

text \<open>A valid request with a sequence above the current one is registered when nothing outside fails.\<close>

definition writes_ready :: "server_env \<Rightarrow> bool" where
  "writes_ready env \<longleftrightarrow>
     fs_ctx (se_fs env) = None \<and> fs_mkdir (se_fs env) = None \<and> fs_write (se_fs env) = None
     \<and> se_pointer_put env = None \<and> index_ready (se_index_put env)"

lemma register_succeeds:
  assumes valid: "validate_register_request rt req = Inr agent_id"
    and wf: "index_wf rt (w_index w)" and lower: "lower_ok (rt_lower rt)"
    and key: "length (cf_private_key cfg) = ed_private_key_size"
    and ready: "writes_ready (w_env w)" "audit_ready (se_audit (w_env w))"
    and facts: "decode_facts rt (rq_facts req) = Inr facts" "credential_set_hash128 (af_credentials facts) = Inr cs"
    and newer: "newer_than_current (w_index w) (hash128 agent_id) (rq_sequence req)"
  shows "\<exists>resp w'. register rt (registration_of rt cfg) req w = (Inr resp, w') \<and> rp_agent_id resp = agent_id"
proof -
  let ?s = "registration_of rt cfg" and ?ptr = "fs_pointer (rq_facts req)" and ?env = "w_env w"
  have ttl: "rq_ttl_seconds req \<noteq> 0" using valid by (simp add: validate_register_request_Inr)
  have hash: "agent_id_hash rt agent_id = Inr (hash128 agent_id)"
    using valid agent_id_hash_fixpoint [OF lower] unfolding validate_register_request_Inr by blast
  obtain w1 where w1: "fi_put (rs_facts_store ?s) (rq_facts req) w = (Inr ?ptr, w1)" "w_env w1 = ?env" "w_index w1 = w_index w"
    using ready(1) by (simp add: registration_of_def server_facts_def fs_put_def writes_ready_def Let_def fs_pointer_def
        del: join_path.simps)
  obtain w2 where w2: "put_pointer ?s ?ptr w1 = (None, w2)" "w_env w2 = ?env" "w_index w2 = w_index w"
    using ready(1) w1 deterministic_path_nonempty [of "rq_facts req"]
    by (simp add: put_pointer_None registration_of_def server_pointers_def pg_put_pointer_def writes_ready_def Let_def
        fs_pointer_def filesystem_scheme_def)
  obtain payload where payload: "agentaddr_new rt agent_id (rq_ttl_seconds req) (rq_flags req) (rq_sequence req)
      (pointer_hash128 ?ptr) cs = Inr payload" "p_version payload = version1" "p_ttl_seconds payload \<noteq> 0"
    using hash ttl by (simp add: agentaddr_new_def)
  then obtain "record" where "sign_payload rt payload (cf_private_key cfg) = Inr record"
    using key by (simp add: sign_payload_iff)
  then have rec: "register_record rt (rs_private_key ?s) req agent_id ?ptr = Inr (cs, record)"
    using facts payload(1) by (simp add: register_record_def registration_of_def)
  note commits = register_record_commits(1) [OF rec hash]
  have sq: "p_sequence (payload_of record) = rq_sequence req" using commits by (simp add: record_commits_def)
  have "index_put rt (se_index_put ?env) (w_index w) agent_id record
      = (None, written (se_index_put ?env) (w_index w) (hash128 agent_id) agent_id record)"
    using index_put_newer_ok [OF wf _ record_commits_check_put [OF commits hash]] ready(1) newer sq
    by (simp add: writes_ready_def)
  then obtain w3 where w3: "ii_put (rs_index_store ?s) agent_id record w2 = (None, w3)" "w_env w3 = ?env"
    using w2 by (simp add: registration_of_def server_index_def)
  let ?resp = "make_response req agent_id ?ptr cs record"
  obtain d where d: "audit_payload rt (registration_audit_json req ?resp) = Inr (marshal d)" "plain_json d"
    using audit_payload_plain [OF plain_registration_json] by blast
  let ?input = "\<lparr>in_type = event_agent_registered, in_agent_id = agent_id,
     in_agent_hash = hex_encode (arr_bytes (hash128 agent_id)), in_actor_hash = [],
     in_decision = decision_allowed, in_reason = [], in_json = Some (marshal d)\<rparr>"
  have "input_ok ?input" using d(2) by (auto simp: input_ok_def)
  with observed_append_ok ready(2) w3(2) obtain ev w' where
    app: "ai_append (observed_audit rt) ?input w3 = (Inr ev, w')" by metis
  have "rp_agent_id ?resp = agent_id" by (simp add: make_response_def)
  then have "audit_registration rt ?s req ?resp w3 = (None, w')"
    using app d(1) hash by (simp add: audit_registration_None registration_of_def server_audit_Some)
  then have "register rt ?s req w = (Inr ?resp, w')"
    unfolding register_Inr using valid w1(1) w2(1) rec w3(1) by blast
  then show ?thesis by (simp add: make_response_def)
qed

text \<open>A resolve request made while the registration is current: something is left of the time to
  live counted from when the row was written, the document is valid, and a capability, when one
  is asked for, is granted by a trusted credential.\<close>

definition may_resolve ::
  "runtime \<Rightarrow> local_config \<Rightarrow> register_request \<Rightarrow> string \<Rightarrow> agent_facts \<Rightarrow> gotime
     \<Rightarrow> server_world \<Rightarrow> resolve_request \<Rightarrow> bool" where
  "may_resolve rt cfg rreq agent_id facts written_at w req \<longleftrightarrow>
     reads_ready (w_env w) \<and> audit_ready (se_audit (w_env w))
     \<and> normalize_agent_id rt (rsq_agent_id req) = Inr agent_id
     \<and> instant written_at \<noteq> 0
     \<and> instant (se_now (w_env w)) + nanos_per_second
         \<le> instant written_at + int (unat (rq_ttl_seconds rreq)) * nanos_per_second
     \<and> facts_valid_for rt facts agent_id (rsq_required_capability req) (se_now (w_env w))
     \<and> (rsq_required_capability req \<noteq> [] \<longrightarrow>
          trusted_on rt cfg w facts agent_id (rsq_required_capability req))"

lemma may_resolve_resolves:
  assumes reg: "register rt (registration_of rt cfg) rreq w = (Inr rresp, w1)"
    and wf: "index_wf rt (w_index w)" and lower: "lower_ok (rt_lower rt)"
    and cfg: "config_ok cfg" and key: "keypair_ok rt (cf_private_key cfg)"
    and ready: "index_ready (se_index_put (w_env w))"
    and newer: "newer_than_current (w_index w) (hash128 (rp_agent_id rresp)) (rq_sequence rreq)"
    and facts: "decode_facts rt (rq_facts rreq) = Inr facts"
    and later: "stores_agree w1 w2"
    and may: "may_resolve rt cfg rreq (rp_agent_id rresp) facts (ie_now (se_index_put (w_env w))) w2 req"
  shows "\<exists>resp w3. resolve rt (resolver_of rt cfg) req w2 = (Inr resp, w3)
     \<and> rsp_agent_id resp = rp_agent_id rresp \<and> select_endpoint facts = Some (rsp_endpoint resp)
     \<and> cm_source_sequence (rsp_cache resp) = rq_sequence rreq"
proof -
  obtain agent_id "record" row where pub: "validate_register_request rt rreq = Inr agent_id"
    "published rt (cf_facts_dir cfg) w1 agent_id (rq_facts rreq) record row"
    "ir_ttl_seconds row = rq_ttl_seconds rreq"
    "index_ready (se_index_put (w_env w)) \<longrightarrow> newer_than_current (w_index w) (hash128 agent_id) (rq_sequence rreq)
       \<longrightarrow> ir_updated_at row = ie_now (se_index_put (w_env w))"
    using register_publishes [OF reg wf lower] by blast
  have id: "rp_agent_id rresp = agent_id"
    using reg pub(1) by (auto simp: register_Inr make_response_def)
  have time: "ir_updated_at row = ie_now (se_index_put (w_env w))"
    using pub(4) ready newer id by simp
  have "row_fresh (se_now (w_env w2)) row'"
    if "it_rows (w_index w2) (arr_bytes (hash128 (rp_agent_id rresp))) = Some row'" for row'
    using that pub(2,3) published_agree [OF pub(2) later] may time id
    by (simp add: published_def may_resolve_def row_fresh_def)
  then show ?thesis
    using registered_resolves [OF reg wf lower cfg key later] facts may
    by (simp add: may_resolve_def)
qed

end
