(* ===== verification/Server_Effects.thy ===== *)
theory Server_Effects
  imports Server_Facts
begin

text \<open>
  What the server's operations leave in its stores: the event an append adds, the stores a
  resolution does not touch, how far a registration gets before the index decides, and what a
  revocation does to later resolutions.
\<close>

subsection \<open>The audit log of the server\<close>

lemma observed_append_keeps:
  "w_revocations (snd (ai_append (observed_audit rt) input w)) = w_revocations w"
  "w_env (snd (ai_append (observed_audit rt) input w)) = w_env w"
  by (auto simp: observed_audit_def server_pg_audit_def observe_append_def on_registry_def
      split: prod.splits sum.splits option.splits)

lemma observed_append_cases:
  "(\<exists>e. ai_append (observed_audit rt) input w = (Inl e, w))
   \<or> (\<exists>ev table' w'. ai_append (observed_audit rt) input w = (Inr ev, w')
        \<and> pg_append rt (se_audit (w_env w)) (w_audit w) input = (Inr ev, table') \<and> w_audit w' = table')"
proof (cases "pg_append rt (se_audit (w_env w)) (w_audit w) input")
  case (Pair r table')
  show ?thesis
  proof (cases r)
    case (Inl e)
    with Pair pg_append_Inl have "table' = w_audit w" by blast
    with Pair Inl show ?thesis by (simp add: observed_audit_def server_pg_audit_def observe_append_def)
  next
    case (Inr ev)
    with Pair show ?thesis
      by (simp add: observed_audit_def server_pg_audit_def observe_append_def on_registry_def split: option.split)
  qed
qed

text \<open>The event that a successful append adds at the end of the log.\<close>

definition logged :: "server_world \<Rightarrow> server_world \<Rightarrow> event_input \<Rightarrow> audit_event \<Rightarrow> bool" where
  "logged w w' input ev \<longleftrightarrow>
     at_rows (w_audit w') = at_rows (w_audit w) @ [insert_row (at_next_id (w_audit w)) ev]
     \<and> ev_previous_hash ev = pg_previous_hash (w_audit w)
     \<and> ev_type ev = in_type input \<and> ev_decision ev = in_decision input
     \<and> ev_agent_id ev = in_agent_id input \<and> ev_agent_hash ev = in_agent_hash input
     \<and> ev_reason ev = in_reason input"

lemma observed_append_logged:
  assumes "ai_append (observed_audit rt) input w = (Inr ev, w')"
  shows "logged w w' input ev"
proof -
  obtain table' where t: "pg_append rt (se_audit (w_env w)) (w_audit w) input = (Inr ev, table')" "w_audit w' = table'"
    using observed_append_cases [of rt input w] assms by auto
  note new = pg_append_Inr [OF t(1)]
  show ?thesis
    using new_event_Inr [OF new(1)] new(2) t(2) by (simp add: logged_def)
qed

lemma observed_append_rows:
  "\<exists>new. at_rows (w_audit (snd (ai_append (observed_audit rt) input w))) = at_rows (w_audit w) @ new \<and> length new \<le> 1"
  using observed_append_cases [of rt input w]
  by (auto dest: pg_append_Inr(2))

subsection \<open>Resolution\<close>

text \<open>The only thing \<open>Resolve\<close> does to the world is at most one append.\<close>

lemma resolve_world:
  "snd (resolve rt (resolver_of rt cfg) req w) = w
   \<or> (\<exists>input. snd (resolve rt (resolver_of rt cfg) req w) = snd (ai_append (observed_audit rt) input w))"
  by (auto simp: resolve_def audit_resolve_failure_def audit_resolve_success_def append_event_cases
      resolver_of_def server_audit_Some split: sum.splits prod.splits option.splits) (metis snd_conv)+

lemma resolve_checks_ttl:
  assumes "resolve_checks rt s w now req = Inr (resp, hex)"
  shows "0 \<le> cm_ttl_seconds (rsp_cache resp)"
  using assms l1_freshness_Inr(2)
  by (fastforce simp: resolve_checks_Inr resolve_result_def resolution_def Let_def)

text \<open>When the log accepts events, a resolution that fails is a denial, and the denial is logged.\<close>

lemma resolve_failure_logged:
  assumes "fst (resolve rt (resolver_of rt cfg) req w) = Inl e"
    and ready: "audit_ready (se_audit (w_env w))"
  shows "\<exists>d payload ev. resolve_checks rt (resolver_of rt cfg) w (se_now (w_env w)) req = Inl d \<and> e = dn_error d
     \<and> logged w (snd (resolve rt (resolver_of rt cfg) req w)) (failure_input d payload) ev"
proof -
  let ?s = "resolver_of rt cfg"
  have now: "rv_now ?s w = se_now (w_env w)" and store: "rv_audit_store ?s = Some (observed_audit rt)"
    by (simp_all add: resolver_of_def server_audit_Some)
  show ?thesis
  proof (cases "resolve_checks rt ?s w (se_now (w_env w)) req")
    case (Inr r)
    obtain resp hex where r: "r = (resp, hex)" by (cases r)
    from resolve_audited [OF Inr [unfolded r] ready resolve_checks_ttl [OF Inr [unfolded r]]] assms(1)
    show ?thesis by auto
  next
    case (Inl d)
    obtain doc where doc: "audit_payload rt (resolve_failure_json req (dn_error d)) = Inr (marshal doc)" "plain_json doc"
      using audit_payload_plain [OF plain_failure_json] by blast
    have "dn_event_type d = event_resolve_denied \<or> dn_event_type d = event_trust_denied"
      using resolve_checks_Inl_type [OF Inl] by blast
    then have "input_ok (failure_input d (marshal doc))"
      using doc(2) by (auto simp: input_ok_def failure_input_def)
    from observed_append_ok [OF this ready] obtain ev w' where
      app: "ai_append (observed_audit rt) (failure_input d (marshal doc)) w = (Inr ev, w')" by blast
    have "resolve rt ?s req w = (Inl (dn_error d), w')"
      using resolve_denied [of rt ?s w req d "observed_audit rt" "marshal doc"] Inl doc(1) app by (simp add: now store)
    with observed_append_logged [OF app] Inl assms(1) show ?thesis
      by (intro exI [of _ d] exI [of _ "marshal doc"] exI [of _ ev]) simp
  qed
qed

subsection \<open>Registration\<close>

text \<open>How far a valid request gets when the disk and the pointer table work: the document and its
  pointer are stored before the index sees the record.\<close>

definition staged :: "local_config \<Rightarrow> register_request \<Rightarrow> server_world \<Rightarrow> server_world" where
  "staged cfg req w =
     w\<lparr>w_disk := (w_disk w)(join_path [cf_facts_dir cfg, deterministic_path (rq_facts req)] \<mapsto> rq_facts req),
       w_pointers := (w_pointers w)(hex_encode (arr_bytes (pointer_hash128 (fs_pointer (rq_facts req))))
          \<mapsto> (filesystem_scheme, deterministic_path (rq_facts req)))\<rparr>"

lemma register_staged:
  assumes valid: "validate_register_request rt req = Inr agent_id"
    and lower: "lower_ok (rt_lower rt)" and key: "length (cf_private_key cfg) = ed_private_key_size"
    and ready: "writes_ready (w_env w)"
    and facts: "decode_facts rt (rq_facts req) = Inr facts" "credential_set_hash128 (af_credentials facts) = Inr cs"
  shows "\<exists>record. record_commits rt (cf_private_key cfg) req agent_id (fs_pointer (rq_facts req)) record
     \<and> check_put rt agent_id record = Inr (hash128 agent_id)
     \<and> (\<forall>e ix. index_put rt (se_index_put (w_env w)) (w_index w) agent_id record = (Some e, ix) \<longrightarrow>
          register rt (registration_of rt cfg) req w
            = (Inl (wrap_err ''store agent address record'' e), (staged cfg req w)\<lparr>w_index := ix\<rparr>))"
proof -
  let ?s = "registration_of rt cfg" and ?ptr = "fs_pointer (rq_facts req)"
  let ?w1 = "w\<lparr>w_disk := (w_disk w)(join_path [cf_facts_dir cfg, deterministic_path (rq_facts req)] \<mapsto> rq_facts req)\<rparr>"
  have hash: "agent_id_hash rt agent_id = Inr (hash128 agent_id)"
    using valid agent_id_hash_fixpoint [OF lower] unfolding validate_register_request_Inr by blast
  have ttl: "rq_ttl_seconds req \<noteq> 0" using valid by (simp add: validate_register_request_Inr)
  have w1: "fi_put (rs_facts_store ?s) (rq_facts req) w = (Inr ?ptr, ?w1)"
    using ready by (simp add: registration_of_def server_facts_def fs_put_def writes_ready_def Let_def fs_pointer_def
        del: join_path.simps)
  have w2: "put_pointer ?s ?ptr ?w1 = (None, staged cfg req w)"
    using ready deterministic_path_nonempty [of "rq_facts req"]
    by (simp add: put_pointer_None registration_of_def server_pointers_def pg_put_pointer_def writes_ready_def Let_def
        fs_pointer_def filesystem_scheme_def staged_def)
  obtain payload where payload: "agentaddr_new rt agent_id (rq_ttl_seconds req) (rq_flags req) (rq_sequence req)
      (pointer_hash128 ?ptr) cs = Inr payload" "p_version payload = version1" "p_ttl_seconds payload \<noteq> 0"
    using hash ttl by (simp add: agentaddr_new_def)
  then obtain "record" where "sign_payload rt payload (cf_private_key cfg) = Inr record"
    using key by (simp add: sign_payload_iff)
  then have rec: "register_record rt (rs_private_key ?s) req agent_id ?ptr = Inr (cs, record)"
    using facts payload(1) by (simp add: register_record_def registration_of_def)
  note commits = register_record_commits(1) [OF rec hash]
  have env: "w_env (staged cfg req w) = w_env w" "w_index (staged cfg req w) = w_index w"
    by (simp_all add: staged_def)
  have "register rt ?s req w
      = (Inl (wrap_err ''store agent address record'' e), (staged cfg req w)\<lparr>w_index := ix\<rparr>)"
    if "index_put rt (se_index_put (w_env w)) (w_index w) agent_id record = (Some e, ix)" for e ix
  proof -
    have "ii_put (rs_index_store ?s) agent_id record (staged cfg req w)
        = (Some e, (staged cfg req w)\<lparr>w_index := ix\<rparr>)"
      using that by (simp add: registration_of_def server_index_def env)
    with valid w1 w2 rec show ?thesis by (simp add: register_def)
  qed
  with commits record_commits_check_put [OF commits hash] show ?thesis
    by (auto simp: registration_of_def)
qed

lemma record_commits_unique:
  assumes "record_commits rt key req agent_id pointer a" and "record_commits rt key req agent_id pointer b"
  shows "a = b"
proof -
  have "p_version (payload_of a) = version1" "p_version (payload_of b) = version1"
    using assms decode_record_valid validate_ttl by (auto simp: record_commits_def payload_of_def)
  then have "payload_of a = payload_of b"
    using assms by (auto simp: record_commits_def intro!: payload.equality)
  then have "aa_payload a = aa_payload b" by (rule payload_of_inj)
  with assms show ?thesis by (simp add: record_commits_def)
qed

subsection \<open>Revocation\<close>

text \<open>An update that the service accepts writes its row and no other.\<close>

lemma admin_sets_row:
  assumes "set_revocation_status rt (admin_of rt) req w = (Inr resp, w')"
  shows "w_revocations w' = (w_revocations w)((vq_issuer req, vq_credential_id req) \<mapsto>
      \<lparr>row_status = vq_status req, row_reason = null_string (vq_reason req), row_updated_at = se_now (w_env w)\<rparr>)"
proof -
  obtain w1 payload ev where
    set: "vi_set (server_revocations rt) (vq_issuer req) (vq_credential_id req) (vq_status req) (vq_reason req) w = (None, w1)"
    and app: "ai_append (observed_audit rt)
        \<lparr>in_type = event_revocation_updated, in_agent_id = [], in_agent_hash = [],
         in_actor_hash = [], in_decision = decision_allowed, in_reason = [], in_json = Some payload\<rparr> w1 = (Inr ev, w')"
    using set_revocation_status_Inr(1) [OF assms] by (auto simp: admin_of_def)
  have "w_revocations w' = w_revocations w1"
    using observed_append_keeps(1) app by (metis snd_conv)
  with set show ?thesis
    by (auto simp: server_revocations_def pg_set_status_def split: prod.splits option.splits)
qed

lemma admin_revokes:
  assumes "set_revocation_status rt (admin_of rt) req w = (Inr resp, w')"
  shows "pg_is_revoked None (w_revocations w') (vq_issuer req) (vq_credential_id req)
     = Inr (vq_status req = status_revoked)"
  using set_revocation_status_Inr(2) [OF assms]
  by (simp add: admin_sets_row [OF assms] pg_is_revoked_def pg_get_status_def scan_revocation_def status_update_ok_def
      rv_validate_key_def)

lemma set_revocation_accepted:
  assumes ok: "status_update_ok (vq_issuer req) (vq_credential_id req) (vq_status req)"
    and "se_revocation_set (w_env w) = None" and "audit_ready (se_audit (w_env w))"
  shows "\<exists>resp w'. set_revocation_status rt (admin_of rt) req w = (Inr resp, w')
     \<and> w_revocations w' = snd (pg_set_status rt None (se_now (w_env w)) (w_revocations w)
          (vq_issuer req) (vq_credential_id req) (vq_status req) (vq_reason req))"
proof -
  let ?t = "snd (pg_set_status rt None (se_now (w_env w)) (w_revocations w)
      (vq_issuer req) (vq_credential_id req) (vq_status req) (vq_reason req))"
  have "fst (pg_set_status rt None (se_now (w_env w)) (w_revocations w)
      (vq_issuer req) (vq_credential_id req) (vq_status req) (vq_reason req)) = None"
    using pg.set_accepts ok by blast
  then have set: "vi_set (server_revocations rt) (vq_issuer req) (vq_credential_id req) (vq_status req) (vq_reason req) w
      = (None, w\<lparr>w_revocations := ?t\<rparr>)"
    using assms(2) by (auto simp: server_revocations_def case_prod_unfold)
  obtain d where d: "audit_payload rt (revocation_audit_json req) = Inr (marshal d)" "plain_json d"
    using audit_payload_plain [OF plain_revocation_json] by blast
  let ?input = "\<lparr>in_type = event_revocation_updated, in_agent_id = [], in_agent_hash = [],
      in_actor_hash = [], in_decision = decision_allowed, in_reason = [], in_json = Some (marshal d)\<rparr>"
  have "input_ok ?input" using d(2) by (auto simp: input_ok_def)
  with observed_append_ok assms(3) obtain ev w' where
    app: "ai_append (observed_audit rt) ?input (w\<lparr>w_revocations := ?t\<rparr>) = (Inr ev, w')" by fastforce
  have "w_revocations w' = ?t"
    using observed_append_keeps(1) [of rt ?input "w\<lparr>w_revocations := ?t\<rparr>"] app by simp
  with set d(1) app ok show ?thesis
    by (auto simp: set_revocation_status_def audit_revocation_updated_def append_event_def admin_of_def status_update_ok_def)
qed

lemma pg_is_revoked_no_fault: "pg_is_revoked fault table i c = Inr b \<Longrightarrow> pg_is_revoked None table i c = Inr b"
  by (auto simp: pg_is_revoked_def pg_get_status_def split: option.splits sum.splits if_splits)

text \<open>Who answers for a capability: a trusted credential of the document that was resolved.\<close>

lemma resolved_credential:
  assumes "resolve rt (resolver_of rt cfg) req w = (Inr resp, w')" and "rsq_required_capability req \<noteq> []"
  shows "\<exists>facts c. c \<in> set (af_credentials facts) \<and> select_endpoint facts = Some (rsp_endpoint resp)
     \<and> credential_trusted rt
          \<lparr>tv_issuers = cf_trusted_issuers cfg,
           tv_revocation_checker = Some (\<lambda>i c. pg_is_revoked (se_revocation_get (w_env w)) (w_revocations w) i c)\<rparr>
          c (rsp_agent_id resp) (rsq_required_capability req) (se_now (w_env w))"
proof -
  let ?s = "resolver_of rt cfg"
  obtain agent_id indexed l1 pointer facts_bytes facts ep where
    r: "resolution rt ?s w (se_now (w_env w)) req agent_id indexed l1 pointer facts_bytes facts"
    and ep: "select_endpoint facts = Some ep"
    and resp: "resp = resolve_result (se_now (w_env w)) agent_id ep (resolve_trust (rsq_required_capability req))
                   (payload_of (ix_record indexed)) l1"
    using assms(1) unfolding resolve_Inr resolve_checks_Inr by (auto simp: resolver_of_def)
  have "server_trust rt (cf_trusted_issuers cfg) w (af_credentials facts) agent_id (rsq_required_capability req)
      (se_now (w_env w)) = None"
    using r assms(2) by (auto simp: resolution_def Let_def resolver_of_def)
  with server_trust_iff ep resp show ?thesis
    by (auto simp: trusted_on_def resolve_result_def Let_def)
qed

end
