(* ===== verification/Index_Concurrent.thy ===== *)
theory Index_Concurrent
  imports Index_Store
begin

text \<open>
  Several \<open>Put\<close> calls of \<open>internal/index/postgres.go\<close> on one agent hash at once, at the default
  isolation level of Postgres (READ COMMITTED): each statement sees what is committed when it
  starts, \<open>SELECT ... FOR UPDATE\<close> locks the row it finds until the transaction ends and waits for
  a lock held by another, and finds nothing (and locks nothing) while there is no committed row;
  \<open>INSERT ... ON CONFLICT DO UPDATE\<close> takes the lock of the key and waits in the same way. A step
  of \<open>put_step\<close> is one statement of one transaction. With a committed row the calls are
  serialised and the sequence only grows; the first inserts of an agent are not.
\<close>

datatype txn_pc =
    TxStart
  | TxSame
  | TxChecked
  | TxArchived "index_row option"
  | TxUpserted "index_row option" index_row
  | TxDone "goerr option"

record txn =
  tx_agent_id :: string
  tx_record :: agent_addr120
  tx_now :: gotime
  tx_pc :: txn_pc

record shared =
  sh_hash :: "128 word"
  sh_row :: "index_row option"
  sh_history :: "index_row list"
  sh_lock :: "nat option"
  sh_txns :: "txn list"

definition set_pc :: "shared \<Rightarrow> nat \<Rightarrow> txn_pc \<Rightarrow> txn list" where
  "set_pc s i pc = (sh_txns s)[i := (sh_txns s ! i)\<lparr>tx_pc := pc\<rparr>]"

definition pc_of :: "shared \<Rightarrow> nat \<Rightarrow> txn_pc" where
  "pc_of s i = tx_pc (sh_txns s ! i)"

text \<open>How the transaction goes on once \<open>getCurrentForUpdate\<close> has read a row.\<close>

definition after_select :: "index_row \<Rightarrow> agent_addr120 \<Rightarrow> txn_pc" where
  "after_select row record =
     (case scan_indexed_record (\<lambda>_. 0) row of
        Inl e \<Rightarrow> TxDone (Some (wrap_err ''get current agent address record for update'' e))
      | Inr cur \<Rightarrow>
          (case decide_put (Some cur) record of
             PutStale \<Rightarrow> TxDone (Some (Sentinel (Index IX_ErrStaleSequence)))
           | PutSame \<Rightarrow> TxSame
           | PutConflict \<Rightarrow> TxDone (Some (Sentinel (Index IX_ErrSequenceConflict)))
           | PutWrite \<Rightarrow> TxChecked))"

fun is_done :: "txn_pc \<Rightarrow> bool" where
  "is_done (TxDone _) = True"
| "is_done _ = False"

text \<open>The errors with which \<open>Put\<close> returns when the database fails its next statement: the begin of
  the transaction or the first query, the insert into the history, the upsert, the commit. A
  transaction that only found its own record returns the error of its commit as it is.\<close>

fun txn_errors :: "txn_pc \<Rightarrow> db_error \<Rightarrow> goerr list" where
  "txn_errors TxStart m =
     [wrap_err ''begin postgres index transaction'' (ErrNew m),
      wrap_err ''get current agent address record for update'' (ErrNew m)]"
| "txn_errors TxSame m = [ErrNew m]"
| "txn_errors TxChecked m = [wrap_err ''archive current agent address record'' (ErrNew m)]"
| "txn_errors (TxArchived _) m = [wrap_err ''upsert current agent address record'' (ErrNew m)]"
| "txn_errors (TxUpserted _ _) m = [wrap_err ''commit postgres index transaction'' (ErrNew m)]"
| "txn_errors (TxDone _) m = []"

inductive put_step :: "shared \<Rightarrow> shared \<Rightarrow> bool" where
  select_row: "i < length (sh_txns s) \<Longrightarrow> pc_of s i = TxStart \<Longrightarrow> sh_row s = Some row \<Longrightarrow> sh_lock s = None
    \<Longrightarrow> pc = after_select row (tx_record (sh_txns s ! i))
    \<Longrightarrow> put_step s (s\<lparr>sh_lock := (if is_done pc then None else Some i), sh_txns := set_pc s i pc\<rparr>)"
| select_none: "i < length (sh_txns s) \<Longrightarrow> pc_of s i = TxStart \<Longrightarrow> sh_row s = None
    \<Longrightarrow> put_step s (s\<lparr>sh_txns := set_pc s i TxChecked\<rparr>)"
| commit_same: "i < length (sh_txns s) \<Longrightarrow> pc_of s i = TxSame
    \<Longrightarrow> put_step s (s\<lparr>sh_lock := None, sh_txns := set_pc s i (TxDone None)\<rparr>)"
| archive: "i < length (sh_txns s) \<Longrightarrow> pc_of s i = TxChecked
    \<Longrightarrow> put_step s (s\<lparr>sh_txns := set_pc s i (TxArchived (sh_row s))\<rparr>)"
| upsert: "i < length (sh_txns s) \<Longrightarrow> pc_of s i = TxArchived old \<Longrightarrow> sh_lock s = None \<or> sh_lock s = Some i
    \<Longrightarrow> row = upsert_row (tx_now (sh_txns s ! i)) (sh_row s) (sh_hash s)
                (tx_agent_id (sh_txns s ! i)) (tx_record (sh_txns s ! i))
    \<Longrightarrow> put_step s (s\<lparr>sh_lock := Some i, sh_txns := set_pc s i (TxUpserted old row)\<rparr>)"
| commit: "i < length (sh_txns s) \<Longrightarrow> pc_of s i = TxUpserted old row
    \<Longrightarrow> put_step s (s\<lparr>sh_row := Some row,
          sh_history := sh_history s @ (case old of None \<Rightarrow> [] | Some r \<Rightarrow> [r]),
          sh_lock := None, sh_txns := set_pc s i (TxDone None)\<rparr>)"
| abort: "i < length (sh_txns s) \<Longrightarrow> e \<in> set (txn_errors (pc_of s i) m)
    \<Longrightarrow> put_step s (s\<lparr>sh_lock := (if sh_lock s = Some i then None else sh_lock s),
          sh_txns := set_pc s i (TxDone (Some e))\<rparr>)"

inductive_cases put_stepE: "put_step s s'"

definition put_start ::
  "128 word \<Rightarrow> index_row option \<Rightarrow> (string \<times> agent_addr120 \<times> gotime) list \<Rightarrow> shared" where
  "put_start h row calls =
     \<lparr>sh_hash = h, sh_row = row, sh_history = [], sh_lock = None,
      sh_txns = map (\<lambda>(a, r, now). \<lparr>tx_agent_id = a, tx_record = r, tx_now = now, tx_pc = TxStart\<rparr>) calls\<rparr>"

subsection \<open>With a committed row\<close>

text \<open>The sequences of the history and of the current row grow; whoever is past its check holds
  the lock and has done what its check of the row that is still current asks for.\<close>

definition pc_ok :: "128 word \<Rightarrow> index_row \<Rightarrow> txn \<Rightarrow> bool" where
  "pc_ok h row t =
     (let go = after_select row (tx_record t) in
      case tx_pc t of
        TxStart \<Rightarrow> True
      | TxSame \<Rightarrow> go = TxSame
      | TxChecked \<Rightarrow> go = TxChecked
      | TxArchived old \<Rightarrow> go = TxChecked \<and> old = Some row
      | TxUpserted old new \<Rightarrow> go = TxChecked \<and> old = Some row
          \<and> new = upsert_row (tx_now t) (Some row) h (tx_agent_id t) (tx_record t)
      | TxDone r \<Rightarrow> True)"

definition past_check :: "txn_pc \<Rightarrow> bool" where
  "past_check pc \<longleftrightarrow> pc \<noteq> TxStart \<and> \<not> is_done pc"

definition put_inv :: "shared \<Rightarrow> bool" where
  "put_inv s \<longleftrightarrow>
     (\<exists>row. sh_row s = Some row
        \<and> sorted_wrt (<) (map ir_sequence (sh_history s @ [row]))
        \<and> (\<forall>i < length (sh_txns s).
             (past_check (pc_of s i) \<longrightarrow> sh_lock s = Some i)
             \<and> pc_ok (sh_hash s) row (sh_txns s ! i)))"

lemma pc_of_set [simp]:
  "i < length (sh_txns s) \<Longrightarrow> j < length (sh_txns s) \<Longrightarrow>
   pc_of (s\<lparr>sh_row := r, sh_history := hs, sh_lock := l, sh_txns := set_pc s i pc\<rparr>) j = (if j = i then pc else pc_of s j)"
  "i < length (sh_txns s) \<Longrightarrow> j < length (sh_txns s) \<Longrightarrow>
   pc_of (s\<lparr>sh_lock := l, sh_txns := set_pc s i pc\<rparr>) j = (if j = i then pc else pc_of s j)"
  "i < length (sh_txns s) \<Longrightarrow> j < length (sh_txns s) \<Longrightarrow>
   pc_of (s\<lparr>sh_txns := set_pc s i pc\<rparr>) j = (if j = i then pc else pc_of s j)"
  by (auto simp: pc_of_def set_pc_def)

lemma set_pc_keeps [simp]:
  "length (set_pc s i pc) = length (sh_txns s)"
  "i < length (sh_txns s) \<Longrightarrow> j < length (sh_txns s) \<Longrightarrow> tx_record (set_pc s i pc ! j) = tx_record (sh_txns s ! j)"
  "i < length (sh_txns s) \<Longrightarrow> j < length (sh_txns s) \<Longrightarrow> tx_agent_id (set_pc s i pc ! j) = tx_agent_id (sh_txns s ! j)"
  "i < length (sh_txns s) \<Longrightarrow> j < length (sh_txns s) \<Longrightarrow> tx_now (set_pc s i pc ! j) = tx_now (sh_txns s ! j)"
  "i < length (sh_txns s) \<Longrightarrow> set_pc s i pc ! i = (sh_txns s ! i)\<lparr>tx_pc := pc\<rparr>"
  "i < length (sh_txns s) \<Longrightarrow> j \<noteq> i \<Longrightarrow> set_pc s i pc ! j = sh_txns s ! j"
  by (auto simp: set_pc_def nth_list_update)

lemma is_done_iff: "is_done pc \<longleftrightarrow> (\<exists>r. pc = TxDone r)"
  by (cases pc) auto

lemma txn_errors_not_done [simp]: "e \<in> set (txn_errors pc m) \<Longrightarrow> \<not> is_done pc"
  by (cases pc) auto

lemma after_select_cases:
  "(\<exists>e. after_select row record = TxDone (Some e))
   \<or> after_select row record = TxSame
   \<or> (after_select row record = TxChecked \<and> ir_sequence row < p_sequence (payload_of record))"
  by (auto simp: after_select_def scan_indexed_record_def decide_put_def split: sum.splits if_splits)

lemma pc_ok_after_select: "pc_ok h row (t\<lparr>tx_pc := after_select row (tx_record t)\<rparr>)"
  using after_select_cases [of row "tx_record t"] by (auto simp: pc_ok_def)

lemma pc_ok_idle: "tx_pc t = TxStart \<or> is_done (tx_pc t) \<Longrightarrow> pc_ok h row t"
  by (auto simp: pc_ok_def is_done_iff)

lemma put_inv_update:
  assumes "sh_row s = Some row" and "sorted_wrt (<) (map ir_sequence (sh_history s @ [row]))"
    and old: "\<forall>j < length (sh_txns s). j \<noteq> i \<longrightarrow> (past_check (pc_of s j) \<longrightarrow> lock = Some j)
          \<and> pc_ok (sh_hash s) row (sh_txns s ! j)"
    and i: "i < length (sh_txns s)" "past_check pc \<longrightarrow> lock = Some i"
      "pc_ok (sh_hash s) row ((sh_txns s ! i)\<lparr>tx_pc := pc\<rparr>)"
  shows "put_inv (s\<lparr>sh_lock := lock, sh_txns := set_pc s i pc\<rparr>)"
  unfolding put_inv_def
proof (intro exI [of _ row] conjI allI impI)
  fix j
  assume "j < length (sh_txns (s\<lparr>sh_lock := lock, sh_txns := set_pc s i pc\<rparr>))"
  then have j: "j < length (sh_txns s)" by simp
  show "pc_ok (sh_hash (s\<lparr>sh_lock := lock, sh_txns := set_pc s i pc\<rparr>)) row
      (sh_txns (s\<lparr>sh_lock := lock, sh_txns := set_pc s i pc\<rparr>) ! j)"
    using old i j by (cases "j = i") simp_all
  show "sh_lock (s\<lparr>sh_lock := lock, sh_txns := set_pc s i pc\<rparr>) = Some j"
    if "past_check (pc_of (s\<lparr>sh_lock := lock, sh_txns := set_pc s i pc\<rparr>) j)"
    using that old i j by (cases "j = i") simp_all
qed (use assms in simp_all)

lemma pc_ok_archived:
  "pc_ok h row t \<Longrightarrow> tx_pc t = TxChecked \<Longrightarrow> pc_ok h row (t\<lparr>tx_pc := TxArchived (Some row)\<rparr>)"
  by (simp add: pc_ok_def)

lemma pc_ok_upserted:
  "pc_ok h row t \<Longrightarrow> tx_pc t = TxArchived old \<Longrightarrow>
   pc_ok h row (t\<lparr>tx_pc := TxUpserted old (upsert_row (tx_now t) (Some row) h (tx_agent_id t) (tx_record t))\<rparr>)"
  by (simp add: pc_ok_def)

lemma pc_ok_commit:
  assumes "pc_ok h row t" and "tx_pc t = TxUpserted old new"
  shows "old = Some row" and "new = upsert_row (tx_now t) (Some row) h (tx_agent_id t) (tx_record t)"
    and "after_select row (tx_record t) = TxChecked" and "ir_sequence row < ir_sequence new"
  using assms after_select_cases [of row "tx_record t"] by (auto simp: pc_ok_def)

lemma put_invD:
  assumes "put_inv s" and "sh_row s = Some row"
  shows "sorted_wrt (<) (map ir_sequence (sh_history s @ [row]))"
    and "\<forall>j < length (sh_txns s). past_check (pc_of s j) \<longrightarrow> sh_lock s = Some j"
    and "\<forall>j < length (sh_txns s). pc_ok (sh_hash s) row (sh_txns s ! j)"
  using assms by (auto simp: put_inv_def)

lemma past_check_simps [simp]:
  "\<not> past_check TxStart" "\<not> past_check (TxDone r)" "past_check TxSame" "past_check TxChecked"
  "past_check (TxArchived old)" "past_check (TxUpserted old new)"
  by (simp_all add: past_check_def)

text \<open>Only one transaction is past its check, the holder of the lock.\<close>

lemma put_inv_others:
  assumes "put_inv s" and "i < length (sh_txns s)" and "past_check (pc_of s i)"
    and "j < length (sh_txns s)" and "j \<noteq> i"
  shows "\<not> past_check (pc_of s j)"
  using assms unfolding put_inv_def by (metis option.inject)

lemma pc_ok_not_past: "\<not> past_check (tx_pc t) \<Longrightarrow> pc_ok h row t"
  by (rule pc_ok_idle) (simp add: past_check_def)

lemma put_inv_lock_move:
  assumes "put_inv s" and "sh_row s = Some row" and "i < length (sh_txns s)"
    and "past_check pc \<longrightarrow> lock = Some i" and "pc_ok (sh_hash s) row ((sh_txns s ! i)\<lparr>tx_pc := pc\<rparr>)"
    and "\<forall>j < length (sh_txns s). j \<noteq> i \<longrightarrow> past_check (pc_of s j) \<longrightarrow> lock = Some j"
  shows "put_inv (s\<lparr>sh_lock := lock, sh_txns := set_pc s i pc\<rparr>)"
  using put_inv_update [of s row i lock pc] put_invD [OF assms(1,2)] assms by blast

lemma put_inv_step:
  assumes "put_step s s'" and "put_inv s"
  shows "put_inv s'"
  using assms
proof (induction rule: put_step.induct)
  case (select_row i s row pc)
  have "\<forall>j < length (sh_txns s). \<not> past_check (pc_of s j)"
    using put_invD(2) [OF select_row(6,3)] select_row(4) by simp
  then show ?case
    using select_row pc_ok_after_select [of "sh_hash s" row "sh_txns s ! i"]
    by (intro put_inv_lock_move [of s row]) (auto simp: past_check_def)
next
  case (select_none i s)
  then show ?case by (simp add: put_inv_def)
next
  case (commit_same i s)
  then obtain row where row: "sh_row s = Some row" by (auto simp: put_inv_def)
  with commit_same put_inv_others [of s i] show ?case
    by (intro put_inv_lock_move [of s row]) (simp_all add: pc_ok_idle)
next
  case (archive i s)
  then obtain row where row: "sh_row s = Some row" by (auto simp: put_inv_def)
  note inv = put_invD [OF archive(3) row]
  have "pc_ok (sh_hash s) row ((sh_txns s ! i)\<lparr>tx_pc := TxArchived (Some row)\<rparr>)"
    using inv(3) archive by (intro pc_ok_archived) (simp_all add: pc_of_def)
  then have "put_inv (s\<lparr>sh_lock := sh_lock s, sh_txns := set_pc s i (TxArchived (Some row))\<rparr>)"
    using archive row inv(2) by (intro put_inv_lock_move [of s row]) simp_all
  with row show ?case by simp
next
  case (upsert i s old row)
  then obtain r where r: "sh_row s = Some r" by (auto simp: put_inv_def)
  note inv = put_invD [OF upsert(5) r]
  have "pc_ok (sh_hash s) r ((sh_txns s ! i)\<lparr>tx_pc := TxUpserted old row\<rparr>)"
    unfolding upsert(4) r using inv(3) upsert by (intro pc_ok_upserted) (simp_all add: pc_of_def)
  then show ?case
    using upsert r put_inv_others [of s i] by (intro put_inv_lock_move [of s r]) simp_all
next
  case (commit i s old row)
  then obtain r where r: "sh_row s = Some r" by (auto simp: put_inv_def)
  note inv = put_invD [OF commit(3) r]
  note i = pc_ok_commit [of "sh_hash s" r "sh_txns s ! i" old row]
  have old: "old = Some r" "ir_sequence r < ir_sequence row"
    using i inv(3) commit by (simp_all add: pc_of_def)
  have rest: "\<not> past_check (pc_of s j)" if "j < length (sh_txns s)" "j \<noteq> i" for j
    using put_inv_others [OF commit(3,1)] commit(2) that by simp
  let ?s = "s\<lparr>sh_row := Some row, sh_history := sh_history s @ (case old of None \<Rightarrow> [] | Some r \<Rightarrow> [r]),
      sh_lock := None, sh_txns := set_pc s i (TxDone None)\<rparr>"
  have "(past_check (pc_of ?s j) \<longrightarrow> sh_lock ?s = Some j) \<and> pc_ok (sh_hash ?s) row (sh_txns ?s ! j)"
    if "j < length (sh_txns ?s)" for j
    using that commit(1) rest [of j] by (cases "j = i") (simp_all add: pc_ok_idle pc_ok_not_past pc_of_def)
  moreover have "sorted_wrt (<) (map ir_sequence (sh_history ?s @ [row]))"
    using old inv(1) by (auto simp: sorted_wrt_append intro: less_trans)
  ultimately show ?case unfolding put_inv_def by (intro exI [of _ row]) simp
next
  case (abort i s e m)
  then obtain row where row: "sh_row s = Some row" by (auto simp: put_inv_def)
  with abort put_invD(2) [OF abort(3) row] show ?case
    by (intro put_inv_lock_move [of s row]) (simp_all add: pc_ok_idle)
qed

lemma put_inv_start: "put_inv (put_start h (Some row) calls)"
  by (auto simp: put_inv_def put_start_def pc_of_def intro!: pc_ok_idle split: prod.split)

lemma put_inv_reachable: "put_step\<^sup>*\<^sup>* s s' \<Longrightarrow> put_inv s \<Longrightarrow> put_inv s'"
  by (induction rule: rtranclp_induct) (auto intro: put_inv_step)

lemma serialised_seqs:
  assumes "put_step\<^sup>*\<^sup>* (put_start h (Some row) calls) s"
  shows "\<exists>cur. sh_row s = Some cur \<and> sorted_wrt (<) (map ir_sequence (sh_history s @ [cur]))"
  using put_inv_reachable [OF assms put_inv_start] by (auto simp: put_inv_def)

lemma first_row_kept:
  assumes "put_step s s'" and "put_inv s" and "sh_row s = Some r"
  shows "sh_row s' = Some r \<or> (\<exists>r'. sh_row s' = Some r' \<and> ir_sequence r < ir_sequence r')"
  using assms
proof (induction rule: put_step.induct)
  case (commit i s old row)
  then have "pc_ok (sh_hash s) r (sh_txns s ! i)" by (auto simp: put_inv_def)
  with pc_ok_commit(4) commit(2) show ?case by (simp add: pc_of_def)
qed auto

lemma row_never_older:
  assumes "put_step\<^sup>*\<^sup>* s s'" and "put_inv s" and "sh_row s = Some r"
  shows "\<exists>r'. sh_row s' = Some r' \<and> ir_sequence r \<le> ir_sequence r'"
  using assms
proof (induction rule: rtranclp_induct)
  case (step s1 s2)
  then obtain r1 where r1: "sh_row s1 = Some r1" "ir_sequence r \<le> ir_sequence r1" by auto
  from first_row_kept [OF step(2) put_inv_reachable [OF step(1)] r1(1)] step r1 show ?case
    by (auto intro: order.trans order.strict_implies_order)
qed auto

subsection \<open>Termination and deadlocks\<close>

text \<open>The statements a transaction has left at most.\<close>

fun pc_left :: "txn_pc \<Rightarrow> nat" where
  "pc_left TxStart = 4"
| "pc_left TxSame = 1"
| "pc_left TxChecked = 3"
| "pc_left (TxArchived _) = 2"
| "pc_left (TxUpserted _ _) = 1"
| "pc_left (TxDone _) = 0"

definition steps_left :: "shared \<Rightarrow> nat" where
  "steps_left s = sum_list (map (\<lambda>t. pc_left (tx_pc t)) (sh_txns s))"

text \<open>A transaction that waits for a lock another one holds.\<close>

definition waits :: "shared \<Rightarrow> nat \<Rightarrow> bool" where
  "waits s i \<longleftrightarrow>
     (\<exists>j. sh_lock s = Some j \<and> j \<noteq> i)
     \<and> (case pc_of s i of TxStart \<Rightarrow> sh_row s \<noteq> None | TxArchived _ \<Rightarrow> True | _ \<Rightarrow> False)"

definition lock_inv :: "shared \<Rightarrow> bool" where
  "lock_inv s \<longleftrightarrow> (\<forall>i. sh_lock s = Some i \<longrightarrow> i < length (sh_txns s) \<and> past_check (pc_of s i))"

lemma sum_left_update:
  "i < length ts \<Longrightarrow> pc_left pc < pc_left (tx_pc (ts ! i)) \<Longrightarrow>
   sum_list (map (\<lambda>t. pc_left (tx_pc t)) (ts[i := (ts ! i)\<lparr>tx_pc := pc\<rparr>])) < sum_list (map (\<lambda>t. pc_left (tx_pc t)) ts)"
proof (induction ts arbitrary: i)
  case (Cons t ts)
  then show ?case by (cases i) auto
qed simp

lemma set_pc_left:
  "i < length (sh_txns s) \<Longrightarrow> pc_left pc < pc_left (pc_of s i) \<Longrightarrow>
   sum_list (map (\<lambda>t. pc_left (tx_pc t)) (set_pc s i pc)) < steps_left s"
  by (simp add: set_pc_def steps_left_def pc_of_def sum_left_update)

lemma put_step_left: "put_step s s' \<Longrightarrow> steps_left s' < steps_left s"
proof (induction rule: put_step.induct)
  case (select_row i s row pc)
  then have "pc_left pc < pc_left (pc_of s i)"
    using after_select_cases [of row "tx_record (sh_txns s ! i)"] by (auto simp: is_done_iff)
  with select_row(1) set_pc_left show ?case by (simp add: steps_left_def)
next
  case (abort i s e m)
  then have "pc_left (TxDone (Some e)) < pc_left (pc_of s i)" by (cases "pc_of s i") auto
  with abort(1) set_pc_left show ?case by (simp add: steps_left_def)
qed (use set_pc_left in \<open>simp add: steps_left_def\<close>)+

lemma put_steps_bounded: "(put_step ^^ n) s s' \<Longrightarrow> steps_left s' + n \<le> steps_left s"
proof (induction n arbitrary: s')
  case (Suc n)
  then obtain s1 where "(put_step ^^ n) s s1" "put_step s1 s'" by auto
  with Suc.IH [of s1] put_step_left [of s1 s'] show ?case by simp
qed simp

lemma lock_inv_step: "put_step s s' \<Longrightarrow> lock_inv s \<Longrightarrow> lock_inv s'"
proof (induction rule: put_step.induct)
  case (select_row i s row pc)
  then show ?case
    using after_select_cases [of row "tx_record (sh_txns s ! i)"]
    by (auto simp: lock_inv_def past_check_def split: if_splits)
qed (auto simp: lock_inv_def past_check_def split: if_splits)

lemma lock_inv_reachable: "put_step\<^sup>*\<^sup>* s s' \<Longrightarrow> lock_inv s \<Longrightarrow> lock_inv s'"
  by (induction rule: rtranclp_induct) (auto intro: lock_inv_step)

text \<open>Whoever holds the lock does not wait, so somebody who is not done can go on.\<close>

lemma no_deadlock:
  assumes "lock_inv s" and "i < length (sh_txns s)" and "\<not> is_done (pc_of s i)"
  shows "\<exists>j < length (sh_txns s). \<not> is_done (pc_of s j) \<and> \<not> waits s j"
proof (cases "sh_lock s")
  case None
  with assms(2,3) show ?thesis by (auto simp: waits_def)
next
  case (Some j)
  with assms(1) have "j < length (sh_txns s)" "past_check (pc_of s j)" by (auto simp: lock_inv_def)
  with Some show ?thesis by (auto simp: waits_def past_check_def)
qed

text \<open>Who does not wait can take its next statement.\<close>

lemma not_waiting_steps:
  assumes "i < length (sh_txns s)" and "\<not> is_done (pc_of s i)" and "\<not> waits s i" and "lock_inv s"
  shows "\<exists>s'. put_step s s' \<and> pc_of s' i \<noteq> pc_of s i \<and> (\<forall>e. pc_of s' i = TxDone (Some e) \<longrightarrow> pc_of s i = TxStart)"
proof (cases "pc_of s i")
  case TxStart
  show ?thesis
  proof (cases "sh_row s")
    case None
    from put_step.select_none [OF assms(1) TxStart None] assms(1) TxStart show ?thesis
      by (intro exI conjI) auto
  next
    case (Some row)
    have "sh_lock s = None"
      using assms(3,4) TxStart Some by (cases "sh_lock s") (auto simp: waits_def lock_inv_def past_check_def)
    from put_step.select_row [OF assms(1) TxStart Some this refl] assms(1) TxStart show ?thesis
      using after_select_cases [of row "tx_record (sh_txns s ! i)"] by (intro exI conjI) (auto simp: is_done_iff)
  qed
next
  case TxSame
  from put_step.commit_same [OF assms(1) TxSame] assms(1) TxSame show ?thesis by (intro exI conjI) auto
next
  case TxChecked
  from put_step.archive [OF assms(1) TxChecked] assms(1) TxChecked show ?thesis by (intro exI conjI) auto
next
  case (TxArchived old)
  then have "sh_lock s = None \<or> sh_lock s = Some i" using assms(3) by (cases "sh_lock s") (auto simp: waits_def)
  from put_step.upsert [OF assms(1) TxArchived this refl] assms(1) TxArchived show ?thesis by (intro exI conjI) auto
next
  case (TxUpserted old row)
  from put_step.commit [OF assms(1) TxUpserted] assms(1) TxUpserted show ?thesis by (intro exI conjI) auto
next
  case (TxDone r)
  with assms(2) show ?thesis by simp
qed

lemma steps_left_start: "steps_left (put_start h row calls) = 4 * length calls"
  by (induction calls) (auto simp: steps_left_def put_start_def)

lemma lock_inv_start: "lock_inv (put_start h row calls)"
  by (simp add: lock_inv_def put_start_def)

subsection \<open>The first insert\<close>

text \<open>Two calls for an agent that has no row yet: both see no row, the newer record commits and
  the older one then overwrites it, with nothing in the history.\<close>

lemma pc_of_simps:
  "pc_of (s\<lparr>sh_txns := ts\<rparr>) i = tx_pc (ts ! i)"
  by (simp add: pc_of_def)

lemma race_run:
  assumes "a0 = \<lparr>tx_agent_id = a, tx_record = r1, tx_now = n1, tx_pc = TxStart\<rparr>"
    and "b0 = \<lparr>tx_agent_id = b, tx_record = r2, tx_now = n2, tx_pc = TxStart\<rparr>"
    and s0: "s0 = \<lparr>sh_hash = h, sh_row = None, sh_history = [], sh_lock = None, sh_txns = [a0, b0]\<rparr>"
    and row1: "row1 = upsert_row n1 None h a r1" and row2: "row2 = upsert_row n2 (Some row1) h b r2"
  shows "put_step\<^sup>*\<^sup>* s0
    (s0\<lparr>sh_row := Some row2, sh_txns := [a0\<lparr>tx_pc := TxDone None\<rparr>, b0\<lparr>tx_pc := TxDone None\<rparr>]\<rparr>)"
proof -
  define st where "st = (\<lambda>row lock p q. s0\<lparr>sh_row := row, sh_lock := lock, sh_txns := [a0\<lparr>tx_pc := p\<rparr>, b0\<lparr>tx_pc := q\<rparr>]\<rparr>)"
  note defs = st_def set_pc_def pc_of_def assms
  have "put_step s0 (st None None TxChecked TxStart)"
    using put_step.select_none [of 0 s0] by (simp add: defs)
  moreover have "put_step (st None None TxChecked TxStart) (st None None TxChecked TxChecked)"
    using put_step.select_none [of 1 "st None None TxChecked TxStart"] by (simp add: defs)
  moreover have "put_step (st None None TxChecked TxChecked) (st None None (TxArchived None) TxChecked)"
    using put_step.archive [of 0 "st None None TxChecked TxChecked"] by (simp add: defs)
  moreover have "put_step (st None None (TxArchived None) TxChecked) (st None None (TxArchived None) (TxArchived None))"
    using put_step.archive [of 1 "st None None (TxArchived None) TxChecked"] by (simp add: defs)
  moreover have "put_step (st None None (TxArchived None) (TxArchived None))
      (st None (Some 0) (TxUpserted None row1) (TxArchived None))"
    using put_step.upsert [of 0 "st None None (TxArchived None) (TxArchived None)" None row1] by (simp add: defs)
  moreover have "put_step (st None (Some 0) (TxUpserted None row1) (TxArchived None))
      (st (Some row1) None (TxDone None) (TxArchived None))"
    using put_step.commit [of 0 "st None (Some 0) (TxUpserted None row1) (TxArchived None)" None row1]
    by (simp add: defs)
  moreover have "put_step (st (Some row1) None (TxDone None) (TxArchived None))
      (st (Some row1) (Some 1) (TxDone None) (TxUpserted None row2))"
    using put_step.upsert [of 1 "st (Some row1) None (TxDone None) (TxArchived None)" None row2] by (simp add: defs)
  moreover have "put_step (st (Some row1) (Some 1) (TxDone None) (TxUpserted None row2))
      (st (Some row2) None (TxDone None) (TxDone None))"
    using put_step.commit [of 1 "st (Some row1) (Some 1) (TxDone None) (TxUpserted None row2)" None row2]
    by (simp add: defs)
  ultimately have "put_step\<^sup>*\<^sup>* s0 (st (Some row2) None (TxDone None) (TxDone None))"
    by (meson rtranclp.rtrancl_into_rtrancl rtranclp.rtrancl_refl)
  then show ?thesis by (simp add: st_def s0)
qed

lemma first_insert_race:
  "\<exists>s. put_step\<^sup>*\<^sup>* (put_start h None [(a, r1, n1), (b, r2, n2)]) s
     \<and> pc_of s 0 = TxDone None \<and> pc_of s 1 = TxDone None \<and> sh_history s = []
     \<and> (\<exists>row. sh_row s = Some row \<and> ir_record_bytes row = encode_record r2)"
  by (rule exI, rule conjI, unfold put_start_def, simp, rule race_run [OF refl refl refl refl refl])
     (simp add: pc_of_def)

end
