(* ===== verification/Samples.thy ===== *)
theory Samples
  imports Server_Effects Index_Concurrent
begin

text \<open>
  One concrete instance of everything the properties quantify over: a runtime whose signatures
  always verify and whose JSON decoder reads null, a document, a configuration and a server
  whose stores are empty. The properties' hypotheses are discharged at these values.
\<close>

subsection \<open>The runtime\<close>

definition sample_time :: gotime where
  "sample_time = \<lparr>instant = 63000000000000000000, zone = 0\<rparr>"

definition sample_later :: gotime where
  "sample_later = \<lparr>instant = 63000000001000000000, zone = 0\<rparr>"

definition sample_endpoint :: endpoint where
  "sample_endpoint =
     \<lparr>ep_id = ''e'', ep_type = endpoint_type_static, ep_url = ''https://h'', ep_protocol = ''https'',
      ep_ttl_seconds = 30\<rparr>"

definition sample_credential :: capability_credential where
  "sample_credential =
     \<lparr>cred_id = ''c'', cred_type = agent_capability_credential, cred_issuer = ''i'', cred_subject = ''a'',
      cred_capabilities = Some [''read''], cred_valid_from = \<lparr>instant = 0, zone = 0\<rparr>,
      cred_valid_until = \<lparr>instant = 64000000000000000000, zone = 0\<rparr>, cred_signature = []\<rparr>"

definition sample_facts :: agent_facts where
  "sample_facts =
     \<lparr>af_schema_version = schema_version_v0, af_id = ''a'', af_controller = ''o'',
      af_valid_from = \<lparr>instant = 0, zone = 0\<rparr>,
      af_valid_until = \<lparr>instant = 64000000000000000000, zone = 0\<rparr>,
      af_capabilities = [''read''], af_credentials = [sample_credential],
      af_endpoints = [sample_endpoint]\<rparr>"

definition sample_runtime :: runtime where
  "sample_runtime =
     \<lparr>rt_lower = (\<lambda>r. r), rt_ed_sign = (\<lambda>_ _. 0),
      rt_ed_verify = (\<lambda>_ _ _. True), rt_json_error = (\<lambda>_ _. []),
      rt_printable = (\<lambda>_. True)\<rparr>"

lemma sample_runtime_simps [simp]:
  "rt_lower sample_runtime = (\<lambda>r. r)" "rt_ed_verify sample_runtime k m s = True"
  by (simp_all add: sample_runtime_def)

lemma sample_lower_ok: "lower_ok (\<lambda>r. r)"
  by (auto simp: lower_ok_def rune_lower_def ascii_lower_def is_space_def valid_rune_def)

lemma sample_keypair: "length k = ed_private_key_size \<Longrightarrow> keypair_ok sample_runtime k"
  by (simp add: keypair_ok_def)

lemmas eval_runes = runes_ascii trim_space_def to_lower_def ascii_lower_def is_space_def

lemma char_a: "char_of (97::nat) = CHR ''a''"
  by code_simp

lemma sample_normalize [simp]: "normalize_agent_id sample_runtime ''a'' = Inr ''a''"
  by (simp add: normalize_agent_id_def eval_runes char_a)

lemma sample_normalize_upper [simp]: "normalize_agent_id sample_runtime '' A '' = Inr ''a''"
  by (simp add: normalize_agent_id_def eval_runes char_a)

lemma sample_trim [simp]: "trim_space ''e'' = ''e''" "trim_space ''o'' = ''o''" "trim_space ''c'' = ''c''"
  by (simp_all add: eval_runes)

lemma sample_uri [simp]: "parse_request_uri ''https://h'' = Some (''https'', ''h'')"
  by code_simp

lemma sample_endpoint_valid [simp]: "endpoint_valid sample_endpoint"
  by (simp add: endpoint_valid_def sample_endpoint_def is_supported_endpoint_type_def)

lemma sample_facts_valid [simp]:
  "facts_valid_for sample_runtime sample_facts ''a'' ''read'' sample_time"
  "facts_valid_for sample_runtime sample_facts ''a'' ''read'' sample_later"
  by (simp_all add: facts_valid_for_def sample_facts_def sample_time_def sample_later_def)

lemma sample_times_printable [simp]:
  "time_marshal_error \<lparr>instant = 0, zone = 0\<rparr> = None"
  "time_marshal_error \<lparr>instant = 64000000000000000000, zone = 0\<rparr> = None"
  by code_simp+

lemma sample_set_hash: "\<exists>cs. credential_set_hash128 (af_credentials sample_facts) = Inr cs"
proof -
  have "marshal_credential (canonical_credential sample_credential) =
      Inr (marshal (credential_json (canonical_credential sample_credential)))"
    by (simp add: marshal_credential_def canonical_credential_def sample_credential_def)
  then show ?thesis
    by (simp add: sample_facts_def credential_set_hash128_def)
qed

subsection \<open>The server\<close>

definition sample_env :: server_env where
  "sample_env =
     \<lparr>se_now = sample_time, se_fs = fs_ready, se_pointer_put = None, se_pointer_get = None,
      se_index_put = \<lparr>ie_fault = (\<lambda>_. None), ie_now = sample_time\<rparr>, se_index_get = None,
      se_zone = (\<lambda>_. 0),
      se_audit = \<lparr>ae_random = Inr 0, ae_now = sample_time, ae_fault = (\<lambda>_. None)\<rparr>,
      se_audit_reader = \<lparr>dr_jsonb = (\<lambda>j. j), dr_local = (\<lambda>_. 0), dr_fault = None\<rparr>,
      se_revocation_set = None, se_revocation_get = None, se_random8 = None, se_unix_nano = 0,
      se_elapsed = 0\<rparr>"

definition sample_world :: server_world where
  "sample_world =
     \<lparr>w_disk = Map.empty, w_pointers = Map.empty, w_index = empty_index,
      w_audit = \<lparr>at_rows = [], at_next_id = 0\<rparr>, w_revocations = Map.empty,
      w_registry = new_registry, w_fallback_count = 0, w_env = sample_env\<rparr>"

definition sample_config :: local_config where
  "sample_config =
     \<lparr>cf_addr = '':8080'', cf_mode = mode_production, cf_postgres_dsn = ''postgres'', cf_facts_dir = ''facts'',
      cf_api_token = ''token'', cf_auto_migrate = False, cf_private_key = replicate 64 (CHR ''k''),
      cf_public_key = replicate 32 (CHR ''k''), cf_trusted_issuers = [(''i'', replicate 32 (CHR ''k''))],
      cf_ephemeral_key = False\<rparr>"

definition sample_request :: register_request where
  "sample_request =
     \<lparr>rq_agent_id = '' A '', rq_ttl_seconds = 60, rq_flags = 0, rq_sequence = 1, rq_facts = marshal (facts_json sample_facts)\<rparr>"

definition sample_resolve :: resolve_request where
  "sample_resolve = \<lparr>rsq_agent_id = ''a'', rsq_required_capability = ''read''\<rparr>"

lemma sample_resolve_decoded:
  "decode_single decode_resolve_request (marshal (resolve_request_doc sample_resolve)) = Some sample_resolve"
  using resolve_doc_decoded [of sample_resolve "[]"] by (simp add: sample_resolve_def utf8_def)

lemma sample_register_decoded:
  "decode_single decode_register_request (marshal (register_request_doc sample_request (facts_json sample_facts)))
    = Some sample_request"
  using register_doc_decoded [of sample_request "facts_json sample_facts" "[]", OF _ _ plain_facts]
  by (simp add: sample_request_def utf8_def del: marshal.simps)

lemma sample_config_ok [simp]: "config_ok sample_config"
  by (simp add: config_ok_def sample_config_def ed_private_key_size_def ed_public_def issuers_ok_def
      ed_public_key_size_def eval_runes)

lemma sample_facts_ok [simp]: "facts_ok sample_facts"
proof -
  have "time_ok \<lparr>instant = 0, zone = 0\<rparr>" "time_ok \<lparr>instant = 64000000000000000000, zone = 0\<rparr>"
    by code_simp+
  then show ?thesis
    by (simp add: facts_ok_def sample_facts_def credential_ok_def sample_credential_def endpoint_ok_def
        sample_endpoint_def utf8_def schema_version_v0_def agent_capability_credential_def endpoint_type_static_def)
qed

lemma sample_decoded [simp]: "decode_facts sample_runtime (marshal (facts_json sample_facts)) = Inr sample_facts"
  by (simp add: facts_decoded)

lemma sample_request_facts [simp]: "rq_facts sample_request = marshal (facts_json sample_facts)"
  by (simp add: sample_request_def)

lemma sample_json_valid [simp]: "json_valid (marshal (facts_json sample_facts))"
  by (rule json_valid_marshal [OF plain_facts [of 0]]) (simp add: max_nesting_def)

lemma sample_request_valid [simp]: "validate_register_request sample_runtime sample_request = Inr ''a''"
  by (simp add: validate_register_request_def sample_request_def)

lemma sample_ready [simp]:
  "writes_ready sample_env" "reads_ready sample_env" "index_ready (se_index_put sample_env)"
  by (simp_all add: writes_ready_def reads_ready_def sample_env_def fs_ready_def index_ready_def)

lemma sample_audit_ready [simp]: "audit_ready (se_audit sample_env)"
proof -
  have "time_marshal_error \<lparr>instant = 63000000000000000000, zone = 0\<rparr> = None" by code_simp
  then show ?thesis
    by (simp add: audit_ready_def sample_env_def sample_time_def truncate_micros_def time_utc_def)
qed

lemma sample_world_simps [simp]: "w_env sample_world = sample_env" "w_index sample_world = empty_index"
  "se_now sample_env = sample_time" "se_revocation_set sample_env = None" "w_revocations sample_world = Map.empty"
  by (simp_all add: sample_world_def sample_env_def)

lemma sample_config_keypair [simp]: "keypair_ok sample_runtime (cf_private_key sample_config)"
  by (rule sample_keypair) (simp add: sample_config_def ed_private_key_size_def)

lemma empty_index_rows [simp]: "it_rows empty_index k = None"
  by (simp add: empty_index_def)

lemma b64_decode_Nil [simp]: "b64_decode [] = Some []"
  using b64_decode_encode [of "[]"] by simp

lemma sample_credential_trusted:
  assumes "tv_issuers v = cf_trusted_issuers sample_config" and "not_revoked v sample_credential"
  shows "credential_trusted sample_runtime v sample_credential ''a'' ''read'' sample_time"
  using assms
  by (simp add: credential_trusted_def sample_credential_def issuer_signed_def sample_config_def
      sample_time_def credential_grants_def signing_payload_bytes_def)

lemma sample_not_revoked:
  "t (''i'', ''c'') = None \<Longrightarrow>
   not_revoked \<lparr>tv_issuers = is, tv_revocation_checker = Some (\<lambda>i c. pg_is_revoked None t i c)\<rparr> sample_credential"
  by (simp add: not_revoked_def pg_is_revoked_def pg_get_status_def sample_credential_def rv_validate_key_def)

lemma sample_trusted_on:
  assumes "t (''i'', ''c'') = None"
  shows "trusted_on sample_runtime sample_config (w\<lparr>w_env := sample_env, w_revocations := t\<rparr>)
     sample_facts ''a'' ''read''"
proof -
  have mem: "sample_credential \<in> set (af_credentials sample_facts)" by (simp add: sample_facts_def)
  have fault: "se_revocation_get sample_env = None" by (simp add: sample_env_def)
  have "credential_trusted sample_runtime
      \<lparr>tv_issuers = cf_trusted_issuers sample_config,
       tv_revocation_checker = Some (\<lambda>i c. pg_is_revoked None t i c)\<rparr>
      sample_credential ''a'' ''read'' sample_time"
    by (rule sample_credential_trusted) (simp_all only: trust_verifier.simps sample_not_revoked [of t, OF assms])
  with mem show ?thesis by (auto simp: trusted_on_def fault)
qed

lemma sample_may_resolve:
  "t (''i'', ''c'') = None \<Longrightarrow>
   may_resolve sample_runtime sample_config sample_request ''a'' sample_facts
     (ie_now (se_index_put (w_env sample_world)))
     (w\<lparr>w_env := sample_env, w_revocations := t\<rparr>) sample_resolve"
  by (simp add: may_resolve_def sample_resolve_def sample_trusted_on)
    (simp add: sample_env_def sample_time_def sample_request_def nanos_per_second_def)

subsection \<open>Records and tables\<close>

definition sample_record :: "32 word \<Rightarrow> agent_addr120" where
  "sample_record n =
     \<lparr>aa_payload = arr_of (payload_layout
        \<lparr>p_version = version1, p_flags = 0, p_ttl_seconds = 60, p_sequence = n,
         p_agent_id_hash = hash128 ''a'', p_facts_ptr_hash128 = 0, p_credential_set128 = 0\<rparr>),
      aa_signature = 0\<rparr>"

lemma sample_record_payload [simp]:
  "p_sequence (payload_of (sample_record n)) = n"
  "p_agent_id_hash (payload_of (sample_record n)) = hash128 ''a''"
  "p_ttl_seconds (payload_of (sample_record n)) = 60"
  by (simp_all add: sample_record_def payload_of_def decode_payload_layout)

lemma sample_record_valid: "validate_payload_bytes (aa_payload (sample_record n)) = None"
  by (simp add: sample_record_def validate_layout)

lemma sample_check_put [simp]: "check_put sample_runtime ''a'' (sample_record n) = Inr (hash128 ''a'')"
  by (simp add: check_put_Inr agent_id_hash_def decode_encode_record sample_record_valid)

lemma sample_index_env [simp]: "index_ready (se_index_put sample_env)"
  by (simp add: sample_env_def index_ready_def)

definition sample_table :: "index_table" where
  "sample_table = snd (index_put sample_runtime (se_index_put sample_env) empty_index ''a'' (sample_record 1))"

lemma sample_table_written:
  "index_put sample_runtime (se_index_put sample_env) empty_index ''a'' (sample_record 1) = (None, sample_table)"
proof -
  have "newer_than_current empty_index (hash128 ''a'') (p_sequence (payload_of (sample_record 1)))"
    by (simp add: newer_than_current_def)
  from index_put_newer_ok [OF index_wf_empty sample_index_env sample_check_put this] show ?thesis
    by (simp add: sample_table_def)
qed

lemma sample_table_wf [simp]: "index_wf sample_runtime sample_table"
  unfolding sample_table_def by (rule index_put_wf) simp

lemma sample_table_get:
  "\<exists>ir. index_get None local sample_table (hash128 ''a'') = Inr ir \<and> ix_record ir = sample_record 1"
  using pg_index.get_put [of sample_runtime empty_index "se_index_put sample_env" "''a''" "sample_record 1" local]
    sample_table_written by simp

text \<open>An event input and an empty audit table.\<close>

definition sample_input :: event_input where
  "sample_input =
     \<lparr>in_type = event_agent_registered, in_agent_id = ''a'', in_agent_hash = [], in_actor_hash = [],
      in_decision = decision_allowed, in_reason = [], in_json = Some (marshal JNull)\<rparr>"

definition sample_reader :: db_reader where
  "sample_reader = \<lparr>dr_jsonb = (\<lambda>j. j), dr_local = (\<lambda>_. 0), dr_fault = None\<rparr>"

definition empty_audit :: audit_table where
  "empty_audit = \<lparr>at_rows = [], at_next_id = 0\<rparr>"

lemma sample_input_ok [simp]: "input_ok sample_input"
  by (auto simp: input_ok_def sample_input_def plain_json_def intro!: exI [of _ JNull])

lemma sample_audit_invar [simp]: "table_invar sample_runtime sample_reader empty_audit"
  by (auto simp: table_invar_def table_ok_def empty_audit_def sample_reader_def jsonb_faithful_def
      intro: canonical_json_idem)

lemma sample_chain_ok [simp]: "pg_verify_hash_chain sample_runtime sample_reader empty_audit = None"
  using pg_verify_refines [OF sample_audit_invar] by (simp add: table_events_def empty_audit_def verify_events_def)

lemma sample_chain:
  obtains es where "es \<noteq> []" and "verify_events sample_runtime es = None"
proof -
  have "time_marshal_error (time_utc sample_time) = None"
    using sample_audit_ready by (simp add: audit_ready_def sample_env_def sample_time_def truncate_micros_def time_utc_def)
  then obtain ev where "new_event sample_runtime (Inr 0) [] sample_input sample_time = Inr ev"
    using new_event_ok [OF sample_input_ok] by blast
  then have "snd (memory_append sample_runtime (Inr 0) sample_time [] sample_input) = [ev]"
    by (simp add: memory_append_def)
  with memory_append_valid [of sample_runtime "[]" "Inr 0" sample_time sample_input] that [of "[ev]"]
  show thesis by (simp add: verify_events_def)
qed

subsection \<open>A registration and a resolution\<close>

lemma sample_registered:
  obtains rresp w1 where
    "register sample_runtime (registration_of sample_runtime sample_config) sample_request sample_world = (Inr rresp, w1)"
    and "rp_agent_id rresp = ''a''"
proof -
  have hyps: "lower_ok (rt_lower sample_runtime)" "length (cf_private_key sample_config) = ed_private_key_size"
    "index_wf sample_runtime (w_index sample_world)" "writes_ready (w_env sample_world)"
    "audit_ready (se_audit (w_env sample_world))"
    "newer_than_current (w_index sample_world) (hash128 ''a'') (rq_sequence sample_request)"
    "decode_facts sample_runtime (rq_facts sample_request) = Inr sample_facts"
    using sample_lower_ok sample_config_ok by (simp_all add: config_ok_def newer_than_current_def)
  obtain cs where "credential_set_hash128 (af_credentials sample_facts) = Inr cs"
    using sample_set_hash by blast
  from register_succeeds [OF sample_request_valid hyps(3,1) hyps(2,4,5,7) this hyps(6)] that
  show thesis by blast
qed

abbreviation sample_service :: "server_world resolver_service" where
  "sample_service \<equiv> resolver_of sample_runtime sample_config"

lemma sample_resolved:
  assumes "t (''i'', ''c'') = None"
  obtains w2 resp w3 where "resolve sample_runtime sample_service sample_resolve w2 = (Inr resp, w3)"
    and "rsp_agent_id resp = ''a''" and "w_revocations w2 = t"
proof -
  obtain rresp w1 where reg: "register sample_runtime (registration_of sample_runtime sample_config) sample_request
      sample_world = (Inr rresp, w1)" "rp_agent_id rresp = ''a''"
    by (rule sample_registered)
  let ?w2 = "w1\<lparr>w_env := sample_env, w_revocations := t\<rparr>"
  have hyps: "index_wf sample_runtime (w_index sample_world)" "lower_ok (rt_lower sample_runtime)"
    "newer_than_current (w_index sample_world) (hash128 (rp_agent_id rresp)) (rq_sequence sample_request)"
    "decode_facts sample_runtime (rq_facts sample_request) = Inr sample_facts"
    "index_ready (se_index_put (w_env sample_world))" "stores_agree w1 ?w2"
    using sample_lower_ok by (simp_all add: newer_than_current_def stores_agree_def)
  have may: "may_resolve sample_runtime sample_config sample_request (rp_agent_id rresp) sample_facts
      (ie_now (se_index_put (w_env sample_world))) ?w2 sample_resolve"
    using sample_may_resolve [of t, OF assms] reg(2) by simp
  have revs: "w_revocations ?w2 = t" by simp
  from may_resolve_resolves [OF reg(1) hyps(1,2) sample_config_ok sample_config_keypair
      hyps(5,3,4,6) may] reg(2) that revs show thesis by metis
qed

definition sample_revocation :: set_revocation_request where
  "sample_revocation =
     \<lparr>vq_issuer = ''i'', vq_credential_id = ''x'', vq_status = status_revoked, vq_reason = ''lost''\<rparr>"

lemma sample_revoked:
  obtains rresp w1 where
    "set_revocation_status sample_runtime (admin_of sample_runtime) sample_revocation sample_world = (Inr rresp, w1)"
    and "w_revocations w1 (''i'', ''c'') = None"
proof -
  have ok: "status_update_ok (vq_issuer sample_revocation) (vq_credential_id sample_revocation) (vq_status sample_revocation)"
    "se_revocation_set (w_env sample_world) = None" "audit_ready (se_audit (w_env sample_world))"
    by (simp_all add: sample_revocation_def status_update_ok_def)
  obtain rresp w1 where "set_revocation_status sample_runtime (admin_of sample_runtime) sample_revocation sample_world = (Inr rresp, w1)"
    and "w_revocations w1 = snd (pg_set_status sample_runtime None (se_now (w_env sample_world)) (w_revocations sample_world)
        ''i'' ''x'' status_revoked ''lost'')"
    using set_revocation_accepted [OF ok, of sample_runtime] by (auto simp: sample_revocation_def)
  with that show thesis
    by (simp add: pg_set_status_def rv_validate_key_def rv_validate_status_def)
qed

end
