(* ===== verification/Record_Properties.thy ===== *)
theory Record_Properties
  imports Samples
begin

text \<open>
  What is promised of the address records, the documents and the credentials, each with an
  instance where its hypotheses hold.
\<close>

subsection \<open>Address records\<close>

text \<open>C20: Decoding accepts exactly the encodings of records whose payload has version 1 and a
  non-zero time to live, and gives back the record that was encoded: no two byte sequences
  decode to one record and no byte sequence that is not 120 bytes long decodes at all.\<close>

theorem decode_record_exact:
  "decode_record bs = Inr a \<longleftrightarrow>
     bs = encode_record a \<and> p_version (payload_of a) = version1 \<and> p_ttl_seconds (payload_of a) \<noteq> 0"
proof -
  have "validate_payload_bytes (aa_payload a) = None \<longleftrightarrow>
      p_version (payload_of a) = version1 \<and> p_ttl_seconds (payload_of a) \<noteq> 0"
    by (simp add: validate_ttl payload_of_def)
  then show ?thesis
    using encode_decode_record [of bs a] decode_record_valid [of bs a] decode_encode_record [of a]
    by (auto split: option.splits)
qed

text \<open>C8: What \<open>New\<close> builds and \<open>Sign\<close> signs with a key pair is the record of the request: its
  payload carries the arguments and the hash of the agent id, its 120 bytes decode to it, and it
  verifies under the public half of the key.\<close>

theorem new_sign_verify:
  assumes "keypair_ok rt sk"
    and "agentaddr_new rt agent_id ttl flags sq fp cs = Inr p" and "sign_payload rt p sk = Inr a"
  shows "verify_record rt a (ed_public sk) = None \<and> decode_record (encode_record a) = Inr a
     \<and> length (encode_record a) = 120
     \<and> (\<exists>h. agent_id_hash rt agent_id = Inr h
          \<and> payload_of a = \<lparr>p_version = version1, p_flags = flags, p_ttl_seconds = ttl, p_sequence = sq,
               p_agent_id_hash = h, p_facts_ptr_hash128 = fp, p_credential_set128 = cs\<rparr>)"
  using signed_record_verifies [OF assms(3,1)] signed_record_facts [OF assms(3)] assms(2)
  by (auto simp: agentaddr_new_iff record_size_def payload_size_def signature_size_def)

theorem new_sign_verify_witness:
  "\<exists>p a. agentaddr_new sample_runtime '' A '' 60 0 1 2 3 = Inr p
     \<and> sign_payload sample_runtime p (cf_private_key sample_config) = Inr a
     \<and> verify_record sample_runtime a (ed_public (cf_private_key sample_config)) = None"
proof -
  have key: "length (cf_private_key sample_config) = ed_private_key_size"
    using sample_config_ok by (simp add: config_ok_def)
  obtain p where p: "agentaddr_new sample_runtime '' A '' 60 0 1 2 3 = Inr p"
    by (simp add: agentaddr_new_def agent_id_hash_def)
  then have "p_version p = version1 \<and> p_ttl_seconds p \<noteq> 0" by (auto simp: agentaddr_new_iff)
  with key obtain a where "sign_payload sample_runtime p (cf_private_key sample_config) = Inr a"
    by (auto simp: sign_payload_iff)
  with p new_sign_verify [OF sample_config_keypair p this] show ?thesis by blast
qed

text \<open>C32: A normalised agent id contains no white space and is not empty, normalising it again
  changes nothing, and ids that normalise alike have the same hash.\<close>

theorem normalize_agent_id_idempotent:
  assumes "lower_ok (rt_lower rt)" and "normalize_agent_id rt s = Inr n"
  shows "normalize_agent_id rt n = Inr n \<and> n \<noteq> [] \<and> \<not> list_ex (\<lambda>d. is_space (fst d)) (runes n)
     \<and> agent_id_hash rt s = Inr (hash128 n) \<and> agent_id_hash rt n = agent_id_hash rt s"
  using normalize_fixpoint [OF assms] normalize_InrD [OF assms(2)] assms(2)
  by (auto simp: agent_id_hash_def list_ex_iff)

theorem normalize_agent_id_idempotent_witness:
  "lower_ok (rt_lower sample_runtime) \<and> normalize_agent_id sample_runtime '' A '' = Inr ''a''
   \<and> agent_id_hash sample_runtime ''a'' = agent_id_hash sample_runtime '' A ''"
  using normalize_agent_id_idempotent [of sample_runtime "'' A ''" "''a''"] sample_lower_ok by simp

subsection \<open>Documents and credentials\<close>

text \<open>C12: The document \<open>json.Marshal\<close> prints of an \<open>AgentFacts\<close> value is decoded to that value:
  every field, in every credential and endpoint, with the capabilities that are nil told from
  those that are empty, and every time to the nanosecond with its offset.\<close>

theorem facts_document_roundtrip:
  assumes "facts_ok f"
  shows "decode_facts rt (marshal (facts_json f)) = Inr f"
  using assms by (rule facts_decoded)

theorem facts_document_roundtrip_witness:
  "decode_facts sample_runtime (marshal (facts_json sample_facts)) = Inr sample_facts"
  by (rule facts_document_roundtrip) simp

text \<open>\<open>Validate\<close> accepts a document exactly when it has the supported schema, its id and the
  requested id normalise alike, it has a controller, the moment lies in its validity period, it
  lists the required capability and it has endpoints, all of them valid.\<close>

lemma validate_accepts_exactly:
  "validate_facts rt facts agent capability now = None \<longleftrightarrow> facts_valid_for rt facts agent capability now"
  by (rule validate_facts_iff)

text \<open>The check that the URL of an endpoint has a host looks at \<open>URL.Host\<close>, which keeps the port: a URL
  with a port and no host name passes.\<close>

lemma endpoint_without_hostname:
  "validate_endpoint (sample_endpoint\<lparr>ep_url := ''https://:443/''\<rparr>) = None"
proof -
  have "parse_request_uri ''https://:443/'' = Some (''https'', '':443'')" by code_simp
  then show ?thesis by (simp add: validate_endpoint_def sample_endpoint_def is_supported_endpoint_type_def)
qed



subsection \<open>Trust\<close>

text \<open>C15: \<open>VerifyCapability\<close> succeeds exactly when one of the credentials is of the supported type,
  issued by an allowlisted issuer to the agent, within its validity period, grants the
  capability, carries a valid signature of its issuer and is not revoked.\<close>

theorem verify_capability_exact:
  "verify_capability rt v cs agent capability now = None \<longleftrightarrow>
     (\<exists>c \<in> set cs. credential_trusted rt v c agent capability now)"
  by (rule verify_capability_iff)

text \<open>C26: When for every credential the revocation store either fails or reports it revoked, the
  capability is denied, whatever else the credentials say: the verifier never lets a failed
  revocation check pass.\<close>

theorem revocation_fails_closed:
  assumes "tv_revocation_checker v = Some check"
    and "\<forall>c \<in> set cs. check (cred_issuer c) (cred_id c) \<noteq> Inr False"
  shows "\<exists>e. verify_capability rt v cs agent capability now = Some e \<and> err_is e (Trust TR_ErrDenied)"
proof -
  have "\<not> (\<exists>c \<in> set cs. credential_trusted rt v c agent capability now)"
    using assms by (auto simp: credential_trusted_def not_revoked_def)
  then obtain e where "verify_capability rt v cs agent capability now = Some e"
    by (metis not_Some_eq verify_capability_iff)
  with verify_capability_err_is show ?thesis by blast
qed

theorem revocation_fails_closed_witness:
  "\<exists>e. verify_capability sample_runtime
      \<lparr>tv_issuers = cf_trusted_issuers sample_config,
       tv_revocation_checker = Some (\<lambda>i c. pg_is_revoked (Some ''connection refused'') Map.empty i c)\<rparr>
      [sample_credential] ''a'' ''read'' sample_time = Some e \<and> err_is e (Trust TR_ErrDenied)"
proof (rule revocation_fails_closed)
  show "\<forall>c \<in> set [sample_credential].
      pg_is_revoked (Some ''connection refused'') Map.empty (cred_issuer c) (cred_id c) \<noteq> Inr False"
    by (simp add: pg_is_revoked_def pg_get_status_def sample_credential_def rv_validate_key_def)
qed simp

subsection \<open>Revocation\<close>

text \<open>C33: After any sequence of updates the memory store and the Postgres store answer alike whether
  a credential is revoked: as the last accepted update of that credential says, not revoked when
  there was none, an error for an empty issuer or credential id.\<close>

theorem revocation_stores_agree:
  "pg_is_revoked None (pg_run rt Map.empty us) i c = memory_is_revoked (memory_run rt Map.empty us) i c
   \<and> (i \<noteq> [] \<and> c \<noteq> [] \<longleftrightarrow>
        memory_is_revoked (memory_run rt Map.empty us) i c = Inr (latest_status us i c = Some status_revoked))"
proof -
  have start: "pg_is_revoked None Map.empty i c = memory_is_revoked Map.empty i c"
    "i \<noteq> [] \<and> c \<noteq> [] \<longleftrightarrow> memory_is_revoked Map.empty i c = Inr False"
    "(i = [] \<or> c = []) \<longleftrightarrow> \<not> is_inr (memory_is_revoked Map.empty i c)"
    by (auto simp: pg_is_revoked_def pg_get_status_def memory_is_revoked_def memory_get_status_def
        rv_validate_key_def)
  have none: "latest_status us i c = None" if "i = [] \<or> c = []"
    using that by (induction us) (auto simp: status_update_ok_def)
  show ?thesis
    using start none by (auto simp: is_revoked_runs split: option.splits)
qed

text \<open>A credential whose last accepted update is a revocation is trusted for no agent.\<close>

lemma revoked_never_trusted:
  assumes "latest_status us (cred_issuer c) (cred_id c) = Some status_revoked"
  shows "\<not> credential_trusted rt
      \<lparr>tv_issuers = issuers, tv_revocation_checker = Some (\<lambda>i c. pg_is_revoked None (pg_run rt table us) i c)\<rparr>
      c agent capability now"
  using assms by (simp add: credential_trusted_def not_revoked_def is_revoked_runs)

end
