(* ===== verification/Serial_Runs.thy ===== *)
theory Serial_Runs
  imports Prelude
begin

text \<open>
  Calls that run at once against calls that run one after another. A state machine interleaves the
  statements of several calls; \<open>ended\<close> gives the result of each call that has returned. The locale
  \<open>serialisable\<close> asks that every step either leaves the abstract state as it is and ends no call,
  or ends one call with the result and the effect it has when it runs alone. Then every reachable
  state has the results and the effect of a run of the ended calls one after another.
\<close>

text \<open>\<open>order\<close> names the calls by their position and gives each what the environment does to it.\<close>

fun one_by_one :: "(nat \<Rightarrow> 'e \<Rightarrow> 't \<Rightarrow> 'r \<times> 't) \<Rightarrow> (nat \<times> 'e) list \<Rightarrow> 't \<Rightarrow> (nat \<times> 'r) list \<times> 't" where
  "one_by_one call [] t = ([], t)"
| "one_by_one call ((i, env) # order) t =
     (let (r, t1) = call i env t; (rs, t2) = one_by_one call order t1 in ((i, r) # rs, t2))"

lemma one_by_one_snoc:
  "one_by_one call order t = (rs, t1) \<Longrightarrow> call i env t1 = (r, t2) \<Longrightarrow>
   one_by_one call (order @ [(i, env)]) t = (rs @ [(i, r)], t2)"
  by (induction call order t arbitrary: rs rule: one_by_one.induct) (auto split: prod.splits)

lemma map_of_snoc: "map_of rs i = None \<Longrightarrow> map_of (rs @ [(i, r)]) = (map_of rs)(i \<mapsto> r)"
  by (auto simp: map_add_def fun_eq_iff split: option.split)

locale serialisable =
  fixes step :: "'s \<Rightarrow> 's \<Rightarrow> bool"
    and inv :: "'s \<Rightarrow> bool"
    and calls :: "'s \<Rightarrow> 'c"
    and ended :: "'s \<Rightarrow> nat \<Rightarrow> 'r option"
    and alone :: "'c \<Rightarrow> nat \<Rightarrow> 'e \<Rightarrow> 't \<Rightarrow> 'r \<times> 't"
    and allowed :: "'c \<Rightarrow> nat \<Rightarrow> 'e \<Rightarrow> bool"
    and rel :: "'s \<Rightarrow> 't \<Rightarrow> bool"
  assumes inv_step: "step s s' \<Longrightarrow> inv s \<Longrightarrow> inv s'"
    and calls_step: "step s s' \<Longrightarrow> calls s' = calls s"
    and runs_or_ends: "step s s' \<Longrightarrow> inv s \<Longrightarrow> rel s t \<Longrightarrow>
      (rel s' t \<and> ended s' = ended s)
      \<or> (\<exists>i env r t'. ended s i = None \<and> allowed (calls s) i env \<and> alone (calls s) i env t = (r, t')
           \<and> rel s' t' \<and> ended s' = (ended s)(i \<mapsto> r))"
begin

lemma reachable_inv: "step\<^sup>*\<^sup>* s s' \<Longrightarrow> inv s \<Longrightarrow> inv s' \<and> calls s' = calls s"
  by (induction rule: rtranclp_induct) (auto dest: inv_step calls_step)

definition serial_run :: "'c \<Rightarrow> 't \<Rightarrow> 's \<Rightarrow> bool" where
  "serial_run cs t0 s \<longleftrightarrow>
     (\<exists>order rs t. one_by_one (alone cs) order t0 = (rs, t) \<and> (\<forall>(i, env) \<in> set order. allowed cs i env)
        \<and> distinct (map fst rs) \<and> map_of rs = ended s \<and> rel s t)"

lemma serial_run_step:
  assumes "serial_run (calls s) t0 s" and "step s s'" and "inv s"
  shows "serial_run (calls s) t0 s'"
proof -
  obtain order rs t where run: "one_by_one (alone (calls s)) order t0 = (rs, t)"
    "\<forall>(i, env) \<in> set order. allowed (calls s) i env" "distinct (map fst rs)" "map_of rs = ended s" "rel s t"
    using assms(1) by (auto simp: serial_run_def)
  from runs_or_ends [OF assms(2,3) run(5)] show ?thesis
  proof (elim disjE exE conjE)
    assume "rel s' t" and "ended s' = ended s"
    with run show ?thesis by (auto simp: serial_run_def)
  next
    fix i env r t'
    assume over: "ended s i = None" "allowed (calls s) i env" "alone (calls s) i env t = (r, t')" "rel s' t'"
      "ended s' = (ended s)(i \<mapsto> r)"
    have "map_of rs i = None" using run(4) over(1) by simp
    moreover from this have "i \<notin> fst ` set rs" by (simp add: map_of_eq_None_iff)
    ultimately show ?thesis
      unfolding serial_run_def using run over one_by_one_snoc [OF run(1) over(3)] map_of_snoc [of rs i r]
      by (intro exI [of _ "order @ [(i, env)]"] exI [of _ "rs @ [(i, r)]"] exI [of _ t']) auto
  qed
qed

lemma reachable_serial:
  assumes "step\<^sup>*\<^sup>* s0 s" and "inv s0" and "rel s0 t0" and "ended s0 = Map.empty"
  shows "serial_run (calls s0) t0 s"
  using assms(1)
proof (induction rule: rtranclp_induct)
  case base
  show ?case unfolding serial_run_def using assms(3,4) by (intro exI [of _ "[]"] exI [of _ t0]) auto
next
  case (step s1 s2)
  with reachable_inv [OF step(1) assms(2)] serial_run_step [of s1 t0 s2] show ?case by simp
qed

end

end
