(* ===== verification/Index_Serial.thy ===== *)
theory Index_Serial
  imports Index_Concurrent Serial_Runs
begin

text \<open>
  The interleavings of \<open>Index_Concurrent\<close> against \<open>index_put\<close>, the transaction run alone: with a
  committed row, whatever state the statements of several \<open>Put\<close> calls have reached, the finished
  calls returned what they return one after another in the order in which they ended, and the
  tables hold what they hold then.
\<close>

type_synonym put_call = "string \<times> agent_addr120 \<times> gotime"

definition put_alone ::
  "runtime \<Rightarrow> put_call list \<Rightarrow> nat \<Rightarrow> index_env \<Rightarrow> index_table \<Rightarrow> goerr option \<times> index_table" where
  "put_alone rt calls i env table =
     (let (agent_id, record, now) = calls ! i in index_put rt env table agent_id record)"

definition fault_env :: "index_stage \<Rightarrow> db_error \<Rightarrow> gotime \<Rightarrow> index_env" where
  "fault_env stage m now = \<lparr>ie_fault = (\<lambda>st. if st = stage then Some m else None), ie_now = now\<rparr>"

definition sound_env :: "gotime \<Rightarrow> index_env" where
  "sound_env now = \<lparr>ie_fault = (\<lambda>_. None), ie_now = now\<rparr>"

lemmas env_simps = fault_env_def sound_env_def

subsection \<open>One call alone\<close>

text \<open>What the check of the current row decides is what \<open>index_put\<close> does with it.\<close>

lemma get_current_scan:
  "it_rows table (arr_bytes h) = Some row \<Longrightarrow> get_current None local table h = scan_indexed_record local row"
  by (simp add: get_current_def)

lemma scan_row:
  assumes "index_wf rt table" and "it_rows table (arr_bytes (h :: 128 word)) = Some row"
  shows "\<exists>cur. scan_indexed_record local row = Inr cur"
  using get_current_row [OF assms, of local] assms(2) by (simp add: get_current_scan)

lemma put_refused:
  assumes row: "index_wf rt table" "it_rows table (arr_bytes h) = Some row"
    and "check_put rt a r = Inr h" and "after_select row r = TxDone (Some e)"
  shows "index_put rt (sound_env now) table a r = (Some e, table)"
  using scan_row [OF row, of "\<lambda>_. 0"] get_current_scan [OF row(2)] assms
  by (auto simp: index_put_def env_simps get_current_scan after_select_def split: put_decision.splits)

lemma put_same:
  assumes row: "index_wf rt table" "it_rows table (arr_bytes h) = Some row"
    and "check_put rt a r = Inr h" and "after_select row r = TxSame"
  shows "index_put rt env table a r =
    (case ie_fault env StageIndexBegin of
       Some m \<Rightarrow> (Some (wrap_err ''begin postgres index transaction'' (ErrNew m)), table)
     | None \<Rightarrow>
       (case ie_fault env StageCurrent of
          Some m \<Rightarrow> (Some (wrap_err ''get current agent address record for update'' (ErrNew m)), table)
        | None \<Rightarrow> (map_option ErrNew (ie_fault env StageIndexCommit), table)))"
  using scan_row [OF row, of "\<lambda>_. 0"] get_current_scan [OF row(2)] assms
  by (auto simp: index_put_def after_select_def get_current_def [of "Some _"]
      split: put_decision.splits option.splits)

lemma put_newer:
  assumes row: "index_wf rt table" "it_rows table (arr_bytes h) = Some row"
    and "check_put rt a r = Inr h" and "after_select row r = TxChecked"
    and "ie_fault env StageIndexBegin = None" and "ie_fault env StageCurrent = None"
  shows "index_put rt env table a r = write_record env table h a r"
  using scan_row [OF row, of "\<lambda>_. 0"] get_current_scan [OF row(2)] assms
  by (auto simp: index_put_def after_select_def split: put_decision.splits)

lemma put_failed_early:
  assumes "check_put rt a r = Inr h" and "stage = StageIndexBegin \<or> stage = StageCurrent"
  shows "index_put rt (fault_env stage m now) table a r =
    (Some (wrap_err (if stage = StageIndexBegin then ''begin postgres index transaction''
        else ''get current agent address record for update'') (ErrNew m)), table)"
  using assms by (auto simp: index_put_def env_simps get_current_def)

text \<open>A call that fails where it stands in the interleaving fails alone with the same error.\<close>

lemma aborted_put:
  assumes row: "index_wf rt table" "it_rows table (arr_bytes h) = Some row"
    and check: "check_put rt (tx_agent_id t) (tx_record t) = Inr h" and ok: "pc_ok h row t"
    and e: "e \<in> set (txn_errors (tx_pc t) m)"
  shows "\<exists>env. ie_now env = tx_now t \<and> index_put rt env table (tx_agent_id t) (tx_record t) = (Some e, table)"
proof (cases "tx_pc t")
  case TxStart
  with e have "e = wrap_err ''begin postgres index transaction'' (ErrNew m)
      \<or> e = wrap_err ''get current agent address record for update'' (ErrNew m)" by auto
  then obtain stage where "index_put rt (fault_env stage m (tx_now t)) table (tx_agent_id t) (tx_record t) = (Some e, table)"
    using put_failed_early [OF check, of StageIndexBegin m "tx_now t"]
      put_failed_early [OF check, of StageCurrent m "tx_now t"] by auto
  then show ?thesis by (intro exI conjI) (simp_all add: env_simps)
next
  case TxSame
  with ok have "after_select row (tx_record t) = TxSame" by (simp add: pc_ok_def)
  from put_same [OF row check this] TxSame e show ?thesis
    by (intro exI [of _ "fault_env StageIndexCommit m (tx_now t)"]) (simp add: env_simps)
next
  case TxChecked
  with ok have "after_select row (tx_record t) = TxChecked" by (simp add: pc_ok_def)
  from put_newer [OF row check this, of "fault_env StageArchive m (tx_now t)"] TxChecked e show ?thesis
    by (intro exI [of _ "fault_env StageArchive m (tx_now t)"]) (simp add: env_simps write_record_def)
next
  case (TxArchived old)
  with ok have "after_select row (tx_record t) = TxChecked" by (simp add: pc_ok_def)
  from put_newer [OF row check this, of "fault_env StageUpsert m (tx_now t)"] TxArchived e show ?thesis
    by (intro exI [of _ "fault_env StageUpsert m (tx_now t)"]) (simp add: env_simps write_record_def)
next
  case (TxUpserted old new)
  with ok have "after_select row (tx_record t) = TxChecked" by (simp add: pc_ok_def)
  from put_newer [OF row check this, of "fault_env StageIndexCommit m (tx_now t)"] TxUpserted e show ?thesis
    by (intro exI [of _ "fault_env StageIndexCommit m (tx_now t)"]) (simp add: env_simps write_record_def)
qed (use e in simp)

lemma committed_put:
  assumes row: "index_wf rt table" "it_rows table (arr_bytes h) = Some row"
    and "check_put rt a r = Inr h" and "after_select row r = TxChecked"
  shows "index_put rt (sound_env now) table a r = (None, written (sound_env now) table h a r)"
  using put_newer [OF assms, of "sound_env now"] by (simp add: env_simps write_record_def written_def)

lemma written_history:
  "it_rows table (arr_bytes h) = Some row \<Longrightarrow>
   map hr_row (it_history (written env table h a r)) = map hr_row (it_history table) @ [row]"
  by (simp add: written_def upsert_current_def archive_current_def)

subsection \<open>Several calls\<close>

definition call_of :: "txn \<Rightarrow> put_call" where
  "call_of t = (tx_agent_id t, tx_record t, tx_now t)"

definition on_time :: "put_call list \<Rightarrow> nat \<Rightarrow> index_env \<Rightarrow> bool" where
  "on_time calls i env \<longleftrightarrow> ie_now env = snd (snd (calls ! i))"

definition put_calls :: "shared \<Rightarrow> put_call list" where
  "put_calls s = map call_of (sh_txns s)"

definition put_result :: "shared \<Rightarrow> nat \<Rightarrow> goerr option option" where
  "put_result s i =
     (if i < length (sh_txns s) then (case pc_of s i of TxDone r \<Rightarrow> Some r | _ \<Rightarrow> None) else None)"

text \<open>The calls are for the agent hash of the state; the tables \<open>t\<close> of a run one after another are
  those of the interleaving that started from \<open>table\<close>.\<close>

definition serial_inv :: "runtime \<Rightarrow> shared \<Rightarrow> bool" where
  "serial_inv rt s \<longleftrightarrow>
     put_inv s \<and> (\<forall>t \<in> set (sh_txns s). check_put rt (tx_agent_id t) (tx_record t) = Inr (sh_hash s))"

definition same_tables :: "runtime \<Rightarrow> index_table \<Rightarrow> shared \<Rightarrow> index_table \<Rightarrow> bool" where
  "same_tables rt table s t \<longleftrightarrow>
     index_wf rt t \<and> it_rows t = (it_rows table)(arr_bytes (sh_hash s) := sh_row s)
     \<and> map hr_row (it_history t) = map hr_row (it_history table) @ sh_history s"

lemma call_nth: "i < length (sh_txns s) \<Longrightarrow>
   put_calls s ! i = (tx_agent_id (sh_txns s ! i), tx_record (sh_txns s ! i), tx_now (sh_txns s ! i))"
  by (simp add: put_calls_def call_of_def)

lemma set_pc_calls: "i < length (sh_txns s) \<Longrightarrow> map call_of (set_pc s i pc) = map call_of (sh_txns s)"
  by (rule nth_equalityI) (auto simp: set_pc_def nth_list_update call_of_def)

lemma put_step_calls: "put_step s s' \<Longrightarrow> put_calls s' = put_calls s"
  by (induction rule: put_step.induct) (simp_all add: set_pc_calls put_calls_def)

lemma put_step_hash: "put_step s s' \<Longrightarrow> sh_hash s' = sh_hash s"
  by (induction rule: put_step.induct) simp_all

lemma serial_inv_calls:
  "serial_inv rt s \<longleftrightarrow> put_inv s \<and> (\<forall>(a, r, now) \<in> set (put_calls s). check_put rt a r = Inr (sh_hash s))"
  by (auto simp: serial_inv_def put_calls_def call_of_def)

lemma serial_inv_step: "put_step s s' \<Longrightarrow> serial_inv rt s \<Longrightarrow> serial_inv rt s'"
  by (simp add: serial_inv_calls put_inv_step put_step_calls put_step_hash)

lemma put_result_set:
  assumes "i < length (sh_txns s)"
  shows "put_result (s\<lparr>sh_row := r, sh_history := hs, sh_lock := l, sh_txns := set_pc s i pc\<rparr>) =
    (put_result s)(i := (case pc of TxDone r \<Rightarrow> Some r | _ \<Rightarrow> None))"
  using assms by (auto simp: put_result_def fun_eq_iff)

lemma put_result_running: "\<not> is_done (pc_of s i) \<Longrightarrow> put_result s i = None"
  by (cases "pc_of s i") (auto simp: put_result_def)

text \<open>A step inside a call, and the last step of one.\<close>

definition runs_or_ends :: "runtime \<Rightarrow> index_table \<Rightarrow> shared \<Rightarrow> index_table \<Rightarrow> shared \<Rightarrow> bool" where
  "runs_or_ends rt table s t s' \<longleftrightarrow>
     (same_tables rt table s' t \<and> put_result s' = put_result s)
     \<or> (\<exists>i env r t'. put_result s i = None \<and> on_time (put_calls s) i env
          \<and> put_alone rt (put_calls s) i env t = (r, t')
          \<and> same_tables rt table s' t' \<and> put_result s' = (put_result s)(i \<mapsto> r))"

lemma call_runs:
  assumes "same_tables rt table s t" and "i < length (sh_txns s)" and "\<not> is_done (pc_of s i)" and "\<not> is_done pc"
  shows "runs_or_ends rt table s t (s\<lparr>sh_lock := l, sh_txns := set_pc s i pc\<rparr>)"
proof -
  have "put_result (s\<lparr>sh_lock := l, sh_txns := set_pc s i pc\<rparr>) = put_result s"
    using put_result_set [OF assms(2), where r = "sh_row s" and hs = "sh_history s" and l = l and pc = pc] put_result_running [OF assms(3)] assms(4)
    by (cases pc) (auto simp: fun_upd_idem)
  with assms(1) show ?thesis by (simp add: runs_or_ends_def same_tables_def)
qed

lemma call_ends:
  assumes same: "same_tables rt table s t" and i: "i < length (sh_txns s)" "\<not> is_done (pc_of s i)"
    and put: "index_put rt env t (tx_agent_id (sh_txns s ! i)) (tx_record (sh_txns s ! i)) = (e, t')"
      "ie_now env = tx_now (sh_txns s ! i)"
    and rows: "it_rows t' = (it_rows t)(arr_bytes (sh_hash s) := row)"
    and history: "map hr_row (it_history t') = map hr_row (it_history t) @ hs"
  shows "runs_or_ends rt table s t
    (s\<lparr>sh_row := row, sh_history := sh_history s @ hs, sh_lock := l, sh_txns := set_pc s i (TxDone e)\<rparr>)"
proof -
  have "index_wf rt t'"
    using index_put_wf [of rt t env "tx_agent_id (sh_txns s ! i)" "tx_record (sh_txns s ! i)"] same put
    by (simp add: same_tables_def)
  then have "same_tables rt table
      (s\<lparr>sh_row := row, sh_history := sh_history s @ hs, sh_lock := l, sh_txns := set_pc s i (TxDone e)\<rparr>) t'"
    using same rows history by (simp add: same_tables_def)
  moreover have "put_alone rt (put_calls s) i env t = (e, t')" "on_time (put_calls s) i env"
    using put by (simp_all add: put_alone_def on_time_def call_nth i)
  ultimately show ?thesis
    unfolding runs_or_ends_def using put_result_running [OF i(2)]
    by (intro disjI2 exI [of _ i] exI [of _ env] exI [of _ e] exI [of _ t'])
       (simp add: put_result_set [OF i(1)])
qed

lemma call_ends_unwritten:
  assumes same: "same_tables rt table s t" and i: "i < length (sh_txns s)" "\<not> is_done (pc_of s i)"
    and put: "index_put rt env t (tx_agent_id (sh_txns s ! i)) (tx_record (sh_txns s ! i)) = (e, t)"
      "ie_now env = tx_now (sh_txns s ! i)"
  shows "runs_or_ends rt table s t (s\<lparr>sh_lock := l, sh_txns := set_pc s i (TxDone e)\<rparr>)"
  using call_ends [OF same i put, where row = "sh_row s" and hs = "[]" and l = l] same by (simp add: same_tables_def fun_upd_idem)

lemma put_step_runs_or_ends:
  assumes step: "put_step s s'" and inv: "serial_inv rt s" and same: "same_tables rt table s t"
  shows "runs_or_ends rt table s t s'"
proof -
  have put_inv: "put_inv s" using inv by (simp add: serial_inv_def)
  then obtain row where row: "sh_row s = Some row" by (auto simp: put_inv_def)
  have cur: "index_wf rt t" "it_rows t (arr_bytes (sh_hash s)) = Some row"
    using same row by (auto simp: same_tables_def)
  have check: "check_put rt (tx_agent_id (sh_txns s ! i)) (tx_record (sh_txns s ! i)) = Inr (sh_hash s)"
    if "i < length (sh_txns s)" for i
    using inv that by (simp add: serial_inv_def)
  have ok: "pc_ok (sh_hash s) row (sh_txns s ! i)" if "i < length (sh_txns s)" for i
    using put_invD(3) [OF put_inv row] that by simp
  note unwritten = call_ends_unwritten [OF same]
  show ?thesis using step
  proof (cases rule: put_step.cases)
    case (select_row i row' pc)
    show ?thesis
    proof (cases "is_done pc")
      case True
      then obtain e where e: "pc = TxDone (Some e)" and "after_select row (tx_record (sh_txns s ! i)) = TxDone (Some e)"
        using after_select_cases [of row "tx_record (sh_txns s ! i)"] select_row row by auto
      from put_refused [OF cur check this(2)] select_row(2) show ?thesis
        unfolding select_row(1) e using select_row(3)
        by (intro unwritten [of i "sound_env (tx_now (sh_txns s ! i))"]) (simp_all add: env_simps)
    next
      case False
      with select_row same show ?thesis by (simp add: call_runs)
    qed
  next
    case (select_none i)
    with row show ?thesis by simp
  next
    case (commit_same i)
    then have "after_select row (tx_record (sh_txns s ! i)) = TxSame"
      using ok [of i] by (simp add: pc_ok_def pc_of_def)
    from put_same [OF cur check this] commit_same(2) show ?thesis
      unfolding commit_same(1) using commit_same(3)
      by (intro unwritten [of i "sound_env (tx_now (sh_txns s ! i))"]) (simp_all add: env_simps)
  next
    case (archive i)
    have "runs_or_ends rt table s t (s\<lparr>sh_lock := sh_lock s, sh_txns := set_pc s i (TxArchived (sh_row s))\<rparr>)"
      using same archive by (intro call_runs) simp_all
    then show ?thesis using archive(1) by simp
  next
    case (upsert i old row')
    with same show ?thesis by (simp add: call_runs)
  next
    case (commit i old new)
    note c = pc_ok_commit [OF ok [OF commit(2)] commit(3) [unfolded pc_of_def]]
    let ?env = "sound_env (tx_now (sh_txns s ! i))"
    note put = committed_put [OF cur check [OF commit(2)] c(3), of "tx_now (sh_txns s ! i)"]
    have "ie_now ?env = tx_now (sh_txns s ! i)" by (simp add: env_simps)
    from call_ends [OF same commit(2) _ put this, where row = "Some new" and hs = "[row]" and l = None] c(1,2) commit(3) show ?thesis
      unfolding commit(1) by (simp add: written_rows written_history [OF cur(2)] cur(2) env_simps)
  next
    case (abort i e m)
    obtain env where "ie_now env = tx_now (sh_txns s ! i)"
      "index_put rt env t (tx_agent_id (sh_txns s ! i)) (tx_record (sh_txns s ! i)) = (Some e, t)"
      using aborted_put [OF cur check ok] abort(2,3) by (metis pc_of_def)
    with abort(2,3) show ?thesis unfolding abort(1) by (intro unwritten [of i env]) simp_all
  qed
qed

interpretation puts: serialisable put_step "serial_inv rt" put_calls put_result "put_alone rt" on_time
  "same_tables rt table"
  by unfold_locales
    (use serial_inv_step put_step_calls put_step_runs_or_ends [unfolded runs_or_ends_def] in blast)+

lemma put_start_calls: "put_calls (put_start h row calls) = calls" "sh_hash (put_start h row calls) = h"
  by (simp_all add: put_calls_def put_start_def call_of_def map_idI split: prod.split)

lemma put_start_results: "put_result (put_start h row calls) = Map.empty"
  by (auto simp: put_result_def put_start_def pc_of_def fun_eq_iff split: prod.split)

lemma puts_serialised:
  assumes wf: "index_wf rt table" and row: "it_rows table (arr_bytes h) = Some row"
    and calls: "\<forall>(a, r, now) \<in> set calls. check_put rt a r = Inr h"
    and steps: "put_step\<^sup>*\<^sup>* (put_start h (Some row) calls) s"
  shows "puts.serial_run rt table calls table s" and "sh_hash s = h"
proof -
  let ?s = "put_start h (Some row) calls"
  have inv: "serial_inv rt ?s"
    using calls by (simp add: serial_inv_calls put_inv_start put_start_calls)
  have "same_tables rt table ?s table"
    using wf row by (simp add: same_tables_def put_start_def fun_upd_idem)
  from puts.reachable_serial [OF steps inv this put_start_results]
  show "puts.serial_run rt table calls table s" by (simp add: put_start_calls)
  show "sh_hash s = h"
    using steps by (induction rule: rtranclp_induct) (simp_all add: put_start_calls put_step_hash)
qed

end
