(* ===== verification/Audit_Concurrent.thy ===== *)
theory Audit_Concurrent
  imports Audit_Stores Serial_Runs
begin

text \<open>
  Several \<open>Append\<close> calls of \<open>internal/audit/postgres.go\<close> at once. \<open>LOCK TABLE ... IN EXCLUSIVE MODE\<close>
  waits while another transaction holds that lock, each later statement sees what is committed
  when it starts, and the end of the transaction releases the lock. A step of \<open>append_txn_step\<close> is
  one statement of one transaction, or the building of the event between two of them. The id of a
  row comes from a sequence, which a rollback does not set back. The calls are serialised: the
  chain cannot fork.
\<close>

datatype append_pc =
    ApStart
  | ApLocked
  | ApRead string
  | ApBuilt audit_event
  | ApInserted audit_event nat
  | ApDone "goerr + audit_event"

record append_txn =
  ap_input :: event_input
  ap_random :: "os_error + 128 word"
  ap_now :: gotime
  ap_pc :: append_pc

record append_state =
  as_table :: audit_table
  as_lock :: "nat option"
  as_txns :: "append_txn list"

definition append_pc_of :: "append_state \<Rightarrow> nat \<Rightarrow> append_pc" where
  "append_pc_of s i = ap_pc (as_txns s ! i)"

definition append_set :: "append_state \<Rightarrow> nat \<Rightarrow> append_pc \<Rightarrow> append_txn list" where
  "append_set s i pc = (as_txns s)[i := (as_txns s ! i)\<lparr>ap_pc := pc\<rparr>]"

text \<open>\<open>NewEvent\<close> with the previous hash that was read.\<close>

definition event_of :: "runtime \<Rightarrow> append_txn \<Rightarrow> string \<Rightarrow> goerr + audit_event" where
  "event_of rt t previous_hash =
     new_event rt (ap_random t) previous_hash (ap_input t) (truncate_micros (time_utc (ap_now t)))"

fun append_errors :: "append_pc \<Rightarrow> db_error \<Rightarrow> goerr list" where
  "append_errors ApStart m =
     [wrap_err ''begin postgres audit transaction'' (ErrNew m), wrap_err ''lock postgres audit events'' (ErrNew m)]"
| "append_errors ApLocked m = [wrap_err ''get previous audit event hash'' (ErrNew m)]"
| "append_errors (ApRead _) m = []"
| "append_errors (ApBuilt _) m = [wrap_err ''insert audit event'' (ErrNew m)]"
| "append_errors (ApInserted _ _) m = [wrap_err ''commit postgres audit transaction'' (ErrNew m)]"
| "append_errors (ApDone _) m = []"

definition free_lock :: "append_state \<Rightarrow> nat \<Rightarrow> nat option" where
  "free_lock s i = (if as_lock s = Some i then None else as_lock s)"

inductive append_txn_step :: "runtime \<Rightarrow> append_state \<Rightarrow> append_state \<Rightarrow> bool" for rt where
  take_lock: "i < length (as_txns s) \<Longrightarrow> append_pc_of s i = ApStart \<Longrightarrow> as_lock s = None
    \<Longrightarrow> append_txn_step rt s (s\<lparr>as_lock := Some i, as_txns := append_set s i ApLocked\<rparr>)"
| read_previous: "i < length (as_txns s) \<Longrightarrow> append_pc_of s i = ApLocked
    \<Longrightarrow> append_txn_step rt s (s\<lparr>as_txns := append_set s i (ApRead (pg_previous_hash (as_table s)))\<rparr>)"
| build_event: "i < length (as_txns s) \<Longrightarrow> append_pc_of s i = ApRead previous_hash
    \<Longrightarrow> event_of rt (as_txns s ! i) previous_hash = Inr event
    \<Longrightarrow> append_txn_step rt s (s\<lparr>as_txns := append_set s i (ApBuilt event)\<rparr>)"
| refuse_event: "i < length (as_txns s) \<Longrightarrow> append_pc_of s i = ApRead previous_hash
    \<Longrightarrow> event_of rt (as_txns s ! i) previous_hash = Inl e
    \<Longrightarrow> append_txn_step rt s (s\<lparr>as_lock := free_lock s i, as_txns := append_set s i (ApDone (Inl e))\<rparr>)"
| insert_event: "i < length (as_txns s) \<Longrightarrow> append_pc_of s i = ApBuilt event
    \<Longrightarrow> append_txn_step rt s
      (s\<lparr>as_table := (as_table s)\<lparr>at_next_id := Suc (at_next_id (as_table s))\<rparr>,
         as_txns := append_set s i (ApInserted event (at_next_id (as_table s)))\<rparr>)"
| commit_event: "i < length (as_txns s) \<Longrightarrow> append_pc_of s i = ApInserted event n
    \<Longrightarrow> append_txn_step rt s
      (s\<lparr>as_table := (as_table s)\<lparr>at_rows := at_rows (as_table s) @ [insert_row n event]\<rparr>,
         as_lock := free_lock s i, as_txns := append_set s i (ApDone (Inr event))\<rparr>)"
| append_fails: "i < length (as_txns s) \<Longrightarrow> e \<in> set (append_errors (append_pc_of s i) m)
    \<Longrightarrow> append_txn_step rt s (s\<lparr>as_lock := free_lock s i, as_txns := append_set s i (ApDone (Inl e))\<rparr>)"

definition append_start :: "audit_table \<Rightarrow> (event_input \<times> (os_error + 128 word) \<times> gotime) list \<Rightarrow> append_state" where
  "append_start table calls =
     \<lparr>as_table = table, as_lock = None,
      as_txns = map (\<lambda>(input, random, now).
        \<lparr>ap_input = input, ap_random = random, ap_now = now, ap_pc = ApStart\<rparr>) calls\<rparr>"

subsection \<open>Who holds the lock\<close>

fun holds_lock :: "append_pc \<Rightarrow> bool" where
  "holds_lock ApStart = False"
| "holds_lock (ApDone _) = False"
| "holds_lock _ = True"

fun append_done :: "append_pc \<Rightarrow> bool" where
  "append_done (ApDone _) = True"
| "append_done _ = False"

text \<open>The holder has read the hash of the last committed row, and a row it has inserted will have the
  largest id.\<close>

definition append_pc_ok :: "runtime \<Rightarrow> audit_table \<Rightarrow> append_txn \<Rightarrow> bool" where
  "append_pc_ok rt table t =
     (case ap_pc t of
        ApStart \<Rightarrow> True
      | ApLocked \<Rightarrow> True
      | ApRead previous_hash \<Rightarrow> previous_hash = pg_previous_hash table
      | ApBuilt event \<Rightarrow> event_of rt t (pg_previous_hash table) = Inr event
      | ApInserted event n \<Rightarrow> event_of rt t (pg_previous_hash table) = Inr event \<and> n < at_next_id table
          \<and> (\<forall>row \<in> set (at_rows table). ar_id row < n)
      | ApDone r \<Rightarrow> True)"

definition append_inv :: "runtime \<Rightarrow> append_state \<Rightarrow> bool" where
  "append_inv rt s \<longleftrightarrow>
     table_ok (as_table s)
     \<and> (\<forall>i < length (as_txns s). (holds_lock (append_pc_of s i) \<longrightarrow> as_lock s = Some i)
          \<and> append_pc_ok rt (as_table s) (as_txns s ! i))"

lemma append_set_simps [simp]:
  "length (append_set s i pc) = length (as_txns s)"
  "i < length (as_txns s) \<Longrightarrow> append_set s i pc ! i = (as_txns s ! i)\<lparr>ap_pc := pc\<rparr>"
  "j \<noteq> i \<Longrightarrow> append_set s i pc ! j = as_txns s ! j"
  by (simp_all add: append_set_def)

lemma append_pc_of_simps [simp]:
  "append_pc_of (s\<lparr>as_txns := ts\<rparr>) j = ap_pc (ts ! j)"
  "append_pc_of (s\<lparr>as_lock := l, as_txns := ts\<rparr>) j = ap_pc (ts ! j)"
  "append_pc_of (s\<lparr>as_table := tb, as_txns := ts\<rparr>) j = ap_pc (ts ! j)"
  "append_pc_of (s\<lparr>as_table := tb, as_lock := l, as_txns := ts\<rparr>) j = ap_pc (ts ! j)"
  by (simp_all add: append_pc_of_def)

lemma append_pc_ok_idle: "\<not> holds_lock (ap_pc t) \<Longrightarrow> append_pc_ok rt table t"
  by (cases "ap_pc t") (simp_all add: append_pc_ok_def)

lemma append_inv_others:
  assumes "append_inv rt s" and "i < length (as_txns s)" and "holds_lock (append_pc_of s i)"
    and "j < length (as_txns s)" and "j \<noteq> i"
  shows "\<not> holds_lock (append_pc_of s j)"
  using assms unfolding append_inv_def by (metis option.inject)

text \<open>What keeps the invariant: the table stays in order, the moved transaction fits it, and the others
  do not hold the lock, or the table and the lock are as before.\<close>

lemma append_inv_move:
  assumes inv: "append_inv rt s" and i: "i < length (as_txns s)" and "table_ok table"
    and "holds_lock pc \<longrightarrow> lock = Some i" and "append_pc_ok rt table ((as_txns s ! i)\<lparr>ap_pc := pc\<rparr>)"
    and others: "\<forall>j < length (as_txns s). j \<noteq> i \<longrightarrow> holds_lock (append_pc_of s j) \<longrightarrow> lock = Some j \<and> table = as_table s"
  shows "append_inv rt (s\<lparr>as_table := table, as_lock := lock, as_txns := append_set s i pc\<rparr>)"
proof -
  have "(holds_lock (ap_pc (append_set s i pc ! j)) \<longrightarrow> lock = Some j) \<and> append_pc_ok rt table (append_set s i pc ! j)"
    if j: "j < length (as_txns s)" for j
  proof (cases "j = i")
    case False
    with inv j others show ?thesis
      by (cases "holds_lock (append_pc_of s j)") (auto simp: append_inv_def append_pc_of_def append_pc_ok_idle)
  qed (use assms in simp)
  with assms(3) show ?thesis by (simp add: append_inv_def)
qed

lemma append_inv_release:
  assumes inv: "append_inv rt s" and i: "i < length (as_txns s)" and "table_ok table"
    and "table = as_table s \<or> holds_lock (append_pc_of s i)"
  shows "append_inv rt (s\<lparr>as_table := table, as_lock := free_lock s i, as_txns := append_set s i (ApDone r)\<rparr>)"
proof (rule append_inv_move [OF inv i assms(3)])
  show "\<forall>j < length (as_txns s). j \<noteq> i \<longrightarrow> holds_lock (append_pc_of s j) \<longrightarrow>
      free_lock s i = Some j \<and> table = as_table s"
  proof (intro allI impI)
    fix j
    assume j: "j < length (as_txns s)" "j \<noteq> i" "holds_lock (append_pc_of s j)"
    then have "as_lock s = Some j" using inv by (simp add: append_inv_def)
    moreover have "\<not> holds_lock (append_pc_of s i)" using append_inv_others [OF inv j(1,3) i] j(2) by simp
    ultimately show "free_lock s i = Some j \<and> table = as_table s" using j(2) assms(4) by (simp add: free_lock_def)
  qed
qed (simp_all add: append_pc_ok_def)

lemma append_inv_step:
  assumes "append_txn_step rt s s'" and inv: "append_inv rt s"
  shows "append_inv rt s'"
  using assms(1)
proof (cases rule: append_txn_step.cases)
  case (take_lock i)
  have "\<forall>j < length (as_txns s). \<not> holds_lock (append_pc_of s j)" using inv take_lock(4) by (auto simp: append_inv_def)
  then have "append_inv rt (s\<lparr>as_table := as_table s, as_lock := Some i, as_txns := append_set s i ApLocked\<rparr>)"
    using take_lock inv by (intro append_inv_move) (auto simp: append_pc_ok_def append_inv_def)
  with take_lock(1) show ?thesis by simp
next
  case (read_previous i)
  have "append_inv rt (s\<lparr>as_table := as_table s, as_lock := as_lock s,
      as_txns := append_set s i (ApRead (pg_previous_hash (as_table s)))\<rparr>)"
    using read_previous inv by (intro append_inv_move) (auto simp: append_pc_ok_def append_inv_def)
  with read_previous(1) show ?thesis by simp
next
  case (build_event i previous_hash event)
  have "append_pc_ok rt (as_table s) (as_txns s ! i)" using inv build_event(2) by (simp add: append_inv_def)
  then have "previous_hash = pg_previous_hash (as_table s)"
    using build_event(3) by (simp add: append_pc_ok_def append_pc_of_def)
  then have "append_inv rt (s\<lparr>as_table := as_table s, as_lock := as_lock s, as_txns := append_set s i (ApBuilt event)\<rparr>)"
    using build_event inv by (intro append_inv_move) (auto simp: append_pc_ok_def append_inv_def event_of_def)
  with build_event(1) show ?thesis by simp
next
  case (refuse_event i previous_hash e)
  have "table_ok (as_table s)" using inv by (simp add: append_inv_def)
  from append_inv_release [OF inv refuse_event(2) this, of "Inl e"] refuse_event(1) show ?thesis by simp
next
  case (insert_event i event)
  have ok: "append_pc_ok rt (as_table s) (as_txns s ! i)" "table_ok (as_table s)" "as_lock s = Some i"
    using inv insert_event(2,3) by (auto simp: append_inv_def)
  let ?t = "(as_table s)\<lparr>at_next_id := Suc (at_next_id (as_table s))\<rparr>"
  have "pg_previous_hash ?t = pg_previous_hash (as_table s)" by (simp add: pg_previous_hash_def rows_by_id_def)
  moreover have "table_ok ?t" using ok(2) by (auto simp: table_ok_def less_Suc_eq)
  ultimately have "append_inv rt (s\<lparr>as_table := ?t, as_lock := as_lock s,
      as_txns := append_set s i (ApInserted event (at_next_id (as_table s)))\<rparr>)"
    using insert_event inv ok append_inv_others [OF inv insert_event(2)]
    by (intro append_inv_move) (auto simp: append_pc_ok_def append_pc_of_def event_of_def table_ok_def)
  with insert_event(1) show ?thesis by simp
next
  case (commit_event i event n)
  have ok: "append_pc_ok rt (as_table s) (as_txns s ! i)" "table_ok (as_table s)"
    using inv commit_event(2) by (auto simp: append_inv_def)
  then have "table_ok ((as_table s)\<lparr>at_rows := at_rows (as_table s) @ [insert_row n event]\<rparr>)"
    using commit_event(3) by (auto simp: append_pc_ok_def append_pc_of_def table_ok_def sorted_wrt_append insert_row_def)
  from append_inv_release [OF inv commit_event(2) this, of "Inr event"] commit_event(1,3) show ?thesis by simp
next
  case (append_fails i e m)
  have "table_ok (as_table s)" using inv by (simp add: append_inv_def)
  from append_inv_release [OF inv append_fails(2) this, of "Inl e"] append_fails(1) show ?thesis by simp
qed

subsection \<open>One after another\<close>

type_synonym append_call = "event_input \<times> (os_error + 128 word) \<times> gotime"

definition append_calls :: "append_state \<Rightarrow> append_call list" where
  "append_calls s = map (\<lambda>t. (ap_input t, ap_random t, ap_now t)) (as_txns s)"

definition append_result :: "append_state \<Rightarrow> nat \<Rightarrow> (goerr + audit_event) option" where
  "append_result s i =
     (if i < length (as_txns s) then (case append_pc_of s i of ApDone r \<Rightarrow> Some r | _ \<Rightarrow> None) else None)"

definition append_alone ::
  "runtime \<Rightarrow> append_call list \<Rightarrow> nat \<Rightarrow> append_env \<Rightarrow> audit_table \<Rightarrow> (goerr + audit_event) \<times> audit_table" where
  "append_alone rt calls i env table = pg_append rt env table (fst (calls ! i))"

definition same_draw :: "append_call list \<Rightarrow> nat \<Rightarrow> append_env \<Rightarrow> bool" where
  "same_draw calls i env \<longleftrightarrow> (ae_random env, ae_now env) = snd (calls ! i)"

definition same_log :: "append_state \<Rightarrow> audit_table \<Rightarrow> bool" where
  "same_log s table \<longleftrightarrow> table_ok table \<and> table_events table = table_events (as_table s)"

definition append_fault :: "append_txn \<Rightarrow> append_stage \<Rightarrow> db_error option \<Rightarrow> append_env" where
  "append_fault t stage m =
     \<lparr>ae_random = ap_random t, ae_now = ap_now t, ae_fault = (\<lambda>st. if st = stage then m else None)\<rparr>"

lemma append_step_calls: "append_txn_step rt s s' \<Longrightarrow> append_calls s' = append_calls s"
  by (induction rule: append_txn_step.induct)
     (auto simp: append_calls_def append_set_def nth_list_update intro!: nth_equalityI)

lemma append_result_set:
  assumes "i < length (as_txns s)"
  shows "append_result (s\<lparr>as_table := tb, as_lock := l, as_txns := append_set s i pc\<rparr>) =
    (append_result s)(i := (case pc of ApDone r \<Rightarrow> Some r | _ \<Rightarrow> None))"
  using assms by (auto simp: append_result_def append_pc_of_def append_set_def fun_eq_iff)

lemma append_result_running: "\<not> append_done (append_pc_of s i) \<Longrightarrow> append_result s i = None"
  by (cases "append_pc_of s i") (auto simp: append_result_def)

lemma append_errors_not_done: "e \<in> set (append_errors pc m) \<Longrightarrow> \<not> append_done pc"
  by (cases pc) auto

text \<open>What the transaction does alone, in terms of the hash the log ends in.\<close>

lemma append_alone_fails:
  assumes "append_pc_ok rt table t" and "e \<in> set (append_errors (ap_pc t) m)"
    and "pg_previous_hash table' = pg_previous_hash table"
  shows "\<exists>stage. pg_append rt (append_fault t stage (Some m)) table' (ap_input t) = (Inl e, table')"
proof (cases "ap_pc t")
  case ApStart
  with assms(2) consider "e = wrap_err ''begin postgres audit transaction'' (ErrNew m)"
    | "e = wrap_err ''lock postgres audit events'' (ErrNew m)" by auto
  then show ?thesis
  proof cases
    case 1
    then show ?thesis by (intro exI [of _ StageBegin]) (simp add: pg_append_def append_fault_def)
  next
    case 2
    then show ?thesis by (intro exI [of _ StageLock]) (simp add: pg_append_def append_fault_def)
  qed
next
  case ApLocked
  with assms show ?thesis by (intro exI [of _ StagePrevious]) (simp add: pg_append_def append_fault_def)
next
  case (ApBuilt event)
  with assms show ?thesis
    by (intro exI [of _ StageInsert]) (simp add: pg_append_def append_fault_def append_pc_ok_def event_of_def)
next
  case (ApInserted event n)
  with assms show ?thesis
    by (intro exI [of _ StageCommit]) (simp add: pg_append_def append_fault_def append_pc_ok_def event_of_def)
qed (use assms in simp_all)

lemma append_alone_event:
  assumes "pg_previous_hash table' = pg_previous_hash table"
  shows "event_of rt t (pg_previous_hash table) = Inl e \<Longrightarrow>
      pg_append rt (append_fault t stage None) table' (ap_input t) = (Inl e, table')"
    and "event_of rt t (pg_previous_hash table) = Inr event \<Longrightarrow>
      pg_append rt (append_fault t stage None) table' (ap_input t) =
        (Inr event, \<lparr>at_rows = at_rows table' @ [insert_row (at_next_id table') event], at_next_id = Suc (at_next_id table')\<rparr>)"
  using assms by (simp_all add: pg_append_def append_fault_def event_of_def)

definition append_progress :: "runtime \<Rightarrow> append_state \<Rightarrow> audit_table \<Rightarrow> append_state \<Rightarrow> bool" where
  "append_progress rt s table s' \<longleftrightarrow>
     (same_log s' table \<and> append_result s' = append_result s)
     \<or> (\<exists>i env r table'. append_result s i = None \<and> same_draw (append_calls s) i env
          \<and> append_alone rt (append_calls s) i env table = (r, table')
          \<and> same_log s' table' \<and> append_result s' = (append_result s)(i \<mapsto> r))"

lemma append_runs:
  assumes "same_log s table" and i: "i < length (as_txns s)" "\<not> append_done (append_pc_of s i)"
    and "\<not> append_done pc" and "at_rows tb = at_rows (as_table s)"
  shows "append_progress rt s table (s\<lparr>as_table := tb, as_lock := l, as_txns := append_set s i pc\<rparr>)"
proof -
  have "append_result (s\<lparr>as_table := tb, as_lock := l, as_txns := append_set s i pc\<rparr>) = append_result s"
    using append_result_set [OF i(1), where tb = tb and l = l and pc = pc] append_result_running [OF i(2)] assms(4)
    by (cases pc) (auto simp: fun_upd_idem)
  with assms show ?thesis by (simp add: append_progress_def same_log_def table_events_def)
qed

lemma append_ends:
  assumes i: "i < length (as_txns s)" "\<not> append_done (append_pc_of s i)"
    and "pg_append rt (append_fault (as_txns s ! i) stage m) table (ap_input (as_txns s ! i)) = (r, table')"
    and "table_ok table'" and "table_events table' = table_events tb"
  shows "append_progress rt s table (s\<lparr>as_table := tb, as_lock := l, as_txns := append_set s i (ApDone r)\<rparr>)"
proof -
  have "append_calls s ! i = (ap_input (as_txns s ! i), ap_random (as_txns s ! i), ap_now (as_txns s ! i))"
    using i(1) by (simp add: append_calls_def)
  then have "append_alone rt (append_calls s) i (append_fault (as_txns s ! i) stage m) table = (r, table')"
    "same_draw (append_calls s) i (append_fault (as_txns s ! i) stage m)"
    using assms(3) by (simp_all add: append_alone_def same_draw_def append_fault_def)
  then show ?thesis
    unfolding append_progress_def using append_result_running [OF i(2)] assms(4,5)
    by (intro disjI2 exI [of _ i] exI [of _ "append_fault (as_txns s ! i) stage m"] exI [of _ r] exI [of _ table'])
       (simp add: append_result_set [OF i(1)] same_log_def)
qed

lemma append_step_progress:
  assumes "append_txn_step rt s s'" and inv: "append_inv rt s" and same: "same_log s table"
  shows "append_progress rt s table s'"
proof -
  have prev: "pg_previous_hash table = pg_previous_hash (as_table s)"
    using same inv by (simp add: same_log_def append_inv_def pg_previous_hash_events)
  have ok: "append_pc_ok rt (as_table s) (as_txns s ! i)" if "i < length (as_txns s)" for i
    using inv that by (simp add: append_inv_def)
  have table: "table_ok table" "table_events table = table_events (as_table s)" using same by (simp_all add: same_log_def)
  show ?thesis using assms(1)
  proof (cases rule: append_txn_step.cases)
    case (take_lock i)
    with append_runs [OF same take_lock(2), where tb = "as_table s"] show ?thesis by simp
  next
    case (read_previous i)
    with append_runs [OF same read_previous(2), where tb = "as_table s" and l = "as_lock s"] show ?thesis by simp
  next
    case (build_event i previous_hash event)
    with append_runs [OF same build_event(2), where tb = "as_table s" and l = "as_lock s"] show ?thesis by simp
  next
    case (refuse_event i previous_hash e)
    then have "event_of rt (as_txns s ! i) (pg_previous_hash (as_table s)) = Inl e"
      using ok [of i] by (simp add: append_pc_ok_def append_pc_of_def)
    from append_ends [OF refuse_event(2) _ append_alone_event(1) [OF prev this] table] refuse_event(1,3) show ?thesis by simp
  next
    case (insert_event i event)
    with append_runs [OF same insert_event(2), where l = "as_lock s"
        and tb = "(as_table s)\<lparr>at_next_id := Suc (at_next_id (as_table s))\<rparr>"] show ?thesis by simp
  next
    case (commit_event i event n)
    then have "event_of rt (as_txns s ! i) (pg_previous_hash (as_table s)) = Inr event"
      using ok [of i] by (simp add: append_pc_ok_def append_pc_of_def)
    from append_ends [OF commit_event(2) _ append_alone_event(2) [OF prev this] table_ok_insert [OF table(1)]]
      commit_event(1,3) table(2)
    show ?thesis by (simp add: table_events_def)
  next
    case (append_fails i e m)
    then obtain stage where "pg_append rt (append_fault (as_txns s ! i) stage (Some m)) table (ap_input (as_txns s ! i)) = (Inl e, table)"
      using append_alone_fails [OF ok [OF append_fails(2)] _ prev, of e m] append_fails(3)
      unfolding append_pc_of_def by blast
    from append_ends [OF append_fails(2) append_errors_not_done [OF append_fails(3)] this table] append_fails(1)
    show ?thesis by simp
  qed
qed

interpretation appends: serialisable "append_txn_step rt" "append_inv rt" append_calls append_result
  "append_alone rt" same_draw same_log
  by unfold_locales
    (use append_inv_step append_step_calls append_step_progress [unfolded append_progress_def] in blast)+

lemma appends_serialised:
  assumes "table_ok table" and "(append_txn_step rt)\<^sup>*\<^sup>* (append_start table calls) s"
  shows "appends.serial_run rt calls table s" and "append_inv rt s"
proof -
  let ?s = "append_start table calls"
  have start: "as_table ?s = table" "as_lock ?s = None" "\<forall>i < length (as_txns ?s). append_pc_of ?s i = ApStart"
    "append_calls ?s = calls"
    by (auto simp: append_start_def append_pc_of_def append_calls_def map_idI split: prod.split)
  then have inv: "append_inv rt ?s"
    using assms(1) by (auto simp: append_inv_def append_pc_of_def intro!: append_pc_ok_idle)
  have "same_log ?s table" "append_result ?s = Map.empty"
    using assms(1) start by (auto simp: same_log_def append_result_def)
  from appends.reachable_serial [OF assms(2) inv this] show "appends.serial_run rt calls table s" by (simp add: start)
  show "append_inv rt s" using appends.reachable_inv [OF assms(2) inv] by simp
qed

subsection \<open>The chain does not fork\<close>

definition chain_inv :: "runtime \<Rightarrow> db_reader \<Rightarrow> append_state \<Rightarrow> bool" where
  "chain_inv rt reader s \<longleftrightarrow>
     append_inv rt s \<and> table_invar rt reader (as_table s) \<and> verify_events rt (table_events (as_table s)) = None
     \<and> (\<forall>(input, draw) \<in> set (append_calls s). input_ok input)"

lemma table_invar_cong:
  "table_invar rt reader table \<Longrightarrow> table_ok table' \<Longrightarrow> at_rows table' = at_rows table \<Longrightarrow> table_invar rt reader table'"
  by (simp add: table_invar_def)

lemma chain_commit:
  assumes inv: "chain_inv rt reader s" and i: "i < length (as_txns s)" "append_pc_of s i = ApInserted event n"
    and "table_ok ((as_table s)\<lparr>at_rows := at_rows (as_table s) @ [insert_row n event]\<rparr>)"
  shows "table_invar rt reader ((as_table s)\<lparr>at_rows := at_rows (as_table s) @ [insert_row n event]\<rparr>)"
    and "verify_events rt (table_events (as_table s) @ [event]) = None"
proof -
  have "append_pc_ok rt (as_table s) (as_txns s ! i)" using inv i(1) by (simp add: chain_inv_def append_inv_def)
  then have ev: "event_of rt (as_txns s ! i) (pg_previous_hash (as_table s)) = Inr event"
    using i(2) by (simp add: append_pc_ok_def append_pc_of_def)
  have "input_ok (ap_input (as_txns s ! i))" using inv i(1) by (auto simp: chain_inv_def append_calls_def)
  from new_event_document [OF ev [unfolded event_of_def] this] inv assms(4)
  show "table_invar rt reader ((as_table s)\<lparr>at_rows := at_rows (as_table s) @ [insert_row n event]\<rparr>)"
    by (auto simp: chain_inv_def table_invar_def row_nulls_ok_def insert_row_def)
  have "pg_previous_hash (as_table s) = last_hash (table_events (as_table s))"
    using inv by (simp add: chain_inv_def append_inv_def pg_previous_hash_events)
  with ev inv show "verify_events rt (table_events (as_table s) @ [event]) = None"
    by (auto simp: chain_inv_def verify_events_snoc event_of_def dest: new_event_Inr(1,2))
qed

lemma chain_inv_step:
  assumes "append_txn_step rt s s'" and inv: "chain_inv rt reader s"
  shows "chain_inv rt reader s'"
proof -
  have kept: "append_inv rt s'" "\<forall>(input, draw) \<in> set (append_calls s'). input_ok input"
    using append_inv_step [OF assms(1)] append_step_calls [OF assms(1)] inv by (simp_all add: chain_inv_def)
  then have ok: "table_ok (as_table s')" by (simp add: append_inv_def)
  show ?thesis using assms(1)
  proof (cases rule: append_txn_step.cases)
    case (commit_event i event n)
    with chain_commit [OF inv commit_event(2,3)] ok kept show ?thesis by (simp add: chain_inv_def table_events_def)
  qed (use kept inv ok in \<open>auto simp: chain_inv_def table_events_def intro: table_invar_cong\<close>)
qed

lemma chain_kept:
  assumes "table_invar rt reader table" and "verify_events rt (table_events table) = None"
    and "\<forall>(input, draw) \<in> set calls. input_ok input"
    and "(append_txn_step rt)\<^sup>*\<^sup>* (append_start table calls) s"
  shows "chain_inv rt reader s"
  using assms(4)
proof (induction rule: rtranclp_induct)
  case base
  have "append_inv rt (append_start table calls)"
    using appends_serialised(2) [of table rt calls "append_start table calls"] assms(1) by (simp add: table_invar_def)
  moreover have "append_calls (append_start table calls) = calls"
    by (simp add: append_calls_def append_start_def map_idI split: prod.split)
  ultimately show ?case using assms by (simp add: chain_inv_def append_start_def)
qed (rule chain_inv_step)

end
