(* ===== verification/Store_Properties.thy ===== *)
theory Store_Properties
  imports Samples Index_Serial Audit_Concurrent
begin

text \<open>
  What is promised of the audit log, the index and the facts stores, each with an instance where
  its hypotheses hold.
\<close>

subsection \<open>The audit log\<close>



text \<open>C11: What \<open>CanonicalJSON\<close> returns is one valid JSON value with nothing after it and is its own
  canonical form, for every input it accepts: an event that is read back hashes as it was hashed
  when it was logged.\<close>

theorem canonical_json_stable:
  assumes "canonical_json rt data = Inr c"
  shows "canonical_json rt c = Inr c \<and> json_valid c \<and> (\<exists>v. json_decode c = DecodeValue v [] \<and> marshal v = c)"
proof -
  obtain v where v: "c = marshal (sort_keys v)" "clean_at max_nesting v"
    by (rule canonical_json_value [OF assms])
  note clean = sort_keys_clean [OF v(2)]
  then show ?thesis
    using canonical_json_idem [OF assms] json_decode_printed [OF clean] v(1) json_valid_printed [OF clean] by blast
qed

theorem canonical_json_stable_witness:
  "canonical_json sample_runtime ''[2,{}]'' = Inr ''[2,{}]''"
proof -
  have "canonical_json sample_runtime '' [2 , { } ] '' = Inr ''[2,{}]''"
    by code_simp
  from canonical_json_stable [OF this] show ?thesis by simp
qed



lemma pg_append_atomic:
  "case pg_append rt env table input of
     (Inl e, table') \<Rightarrow> table' = table
   | (Inr ev, table') \<Rightarrow>
       at_rows table' = at_rows table @ [insert_row (at_next_id table) ev]
       \<and> at_next_id table' = Suc (at_next_id table)
       \<and> ev_previous_hash ev = pg_previous_hash table
       \<and> hash_event rt (pg_previous_hash table) ev = Inr (ev_hash ev)
       \<and> ev_type ev = in_type input \<and> ev_decision ev = in_decision input \<and> ev_reason ev = in_reason input"
proof (cases "pg_append rt env table input")
  case (Pair r table')
  then show ?thesis
    using pg_append_Inl [of rt env table input _ table'] pg_append_Inr [of rt env table input _ table']
    by (cases r) (auto dest: new_event_Inr)
qed

text \<open>C17: \<open>Append\<close> is serialisable and the chain does not fork. However the statements of concurrent
  \<open>Append\<close> transactions interleave and fail, the calls that have ended returned what they return
  when they are run one after another, each with its own event id and time, in some order and with
  some failures of the database; the log holds the events of that run, and when it verified before
  it still does.\<close>

theorem concurrent_appends_serialise:
  assumes "table_invar rt reader table" and "pg_verify_hash_chain rt reader table = None"
    and "\<forall>(input, draw) \<in> set calls. input_ok input"
    and "(append_txn_step rt)\<^sup>*\<^sup>* (append_start table calls) s"
  shows "pg_verify_hash_chain rt reader (as_table s) = None
     \<and> (\<exists>order rs t. one_by_one (append_alone rt calls) order table = (rs, t)
          \<and> (\<forall>(i, env) \<in> set order. same_draw calls i env)
          \<and> distinct (map fst rs) \<and> map_of rs = append_result s
          \<and> table_events t = table_events (as_table s))"
proof -
  have "chain_inv rt reader s"
    using chain_kept [OF assms(1) _ assms(3,4)] assms(1,2) by (simp add: pg_verify_refines)
  then have "pg_verify_hash_chain rt reader (as_table s) = None" by (simp add: chain_inv_def pg_verify_refines)
  moreover have "appends.serial_run rt calls table s"
    using appends_serialised(1) [OF _ assms(4)] assms(1) by (simp add: table_invar_def)
  ultimately show ?thesis by (auto simp: appends.serial_run_def same_log_def)
qed

theorem concurrent_appends_serialise_witness:
  "\<exists>s. (append_txn_step sample_runtime)\<^sup>*\<^sup>*
         (append_start empty_audit [(sample_input, Inr 0, sample_time), (sample_input, Inr 1, sample_time)]) s
     \<and> append_result s 1 = Some (Inl (wrap_err ''lock postgres audit events'' (ErrNew ''down'')))
     \<and> pg_verify_hash_chain sample_runtime sample_reader (as_table s) = None"
proof -
  let ?calls = "[(sample_input, Inr 0, sample_time), (sample_input, Inr 1, sample_time)]"
  let ?e = "wrap_err ''lock postgres audit events'' (ErrNew ''down'')"
  let ?s = "append_start empty_audit ?calls"
  have "\<exists>s. append_txn_step sample_runtime ?s s \<and> append_result s 1 = Some (Inl ?e)"
    by (rule exI, rule conjI, rule append_txn_step.append_fails [of 1 _ ?e "''down''"])
       (simp_all add: append_result_def append_start_def append_pc_of_def append_set_def)
  then obtain s where s: "(append_txn_step sample_runtime)\<^sup>*\<^sup>* ?s s" "append_result s 1 = Some (Inl ?e)" by blast
  have "table_invar sample_runtime sample_reader empty_audit"
    "pg_verify_hash_chain sample_runtime sample_reader empty_audit = None"
    "\<forall>(input, draw) \<in> set ?calls. input_ok input" by simp_all
  from concurrent_appends_serialise [OF this s(1)] s show ?thesis by blast
qed

text \<open>C24: The Postgres query and the memory query agree: on a table whose documents the database
  gives back faithfully, both reject the same queries with the same error and otherwise return
  the same page of the same events.\<close>

theorem pg_query_equals_memory:
  assumes "table_invar rt reader table"
  shows "map_sum id utc_result (pg_query rt reader table query)
     = map_sum id utc_result (memory_query rt (table_events table) query)"
  by (rule pg_query_refines [OF assms])

theorem pg_query_equals_memory_witness:
  "map_sum id utc_result (pg_query sample_runtime sample_reader empty_audit
       \<lparr>q_agent_id = ''a'', q_event_type = [], q_decision = [], q_limit = 0, q_offset = 0\<rparr>)
   = map_sum id utc_result (memory_query sample_runtime (table_events empty_audit)
       \<lparr>q_agent_id = ''a'', q_event_type = [], q_decision = [], q_limit = 0, q_offset = 0\<rparr>)"
  by (rule pg_query_equals_memory) simp

text \<open>A page returned by the Postgres query is a contiguous part, at most \<open>limit\<close> long with
  \<open>limit\<close> between 1 and 500, of the matching events in the order they were appended, and its
  count is the number of its items.\<close>

lemma pg_query_bounded_page:
  assumes "table_invar rt reader table" and "pg_query rt reader table query = Inr r"
  shows "0 < lr_limit r \<and> lr_limit r \<le> max_list_limit \<and> lr_count r = int (length (lr_items r))
     \<and> int (length (lr_items r)) \<le> lr_limit r
     \<and> (\<exists>q. normalize_query rt query = Inr q \<and> map utc_event (lr_items r) =
          map utc_event (take (nat (lr_limit r)) (drop (nat (lr_offset r)) (filter (query_matches q) (table_events table)))))"
proof -
  obtain m where m: "memory_query rt (table_events table) query = Inr m" "utc_result m = utc_result r"
    using pg_query_refines [OF assms(1), of query] assms(2)
    by (cases "memory_query rt (table_events table) query") auto
  then obtain q where q: "normalize_query rt query = Inr q"
    by (auto simp: memory_query_def split: sum.splits)
  have fields: "lr_limit r = lr_limit m" "lr_offset r = lr_offset m" "lr_count r = lr_count m"
    "map utc_event (lr_items r) = map utc_event (lr_items m)"
    using arg_cong [OF m(2), of lr_limit] arg_cong [OF m(2), of lr_offset] arg_cong [OF m(2), of lr_count]
      arg_cong [OF m(2), of lr_items] by (simp_all add: utc_result_def)
  then have len: "length (lr_items r) = length (lr_items m)" by (metis length_map)
  have page: "m = \<lparr>lr_items = take (nat (q_limit q)) (drop (nat (q_offset q)) (filter (query_matches q) (table_events table))),
      lr_items_nil = False, lr_limit = q_limit q, lr_offset = q_offset q,
      lr_count = int (length (take (nat (q_limit q)) (drop (nat (q_offset q)) (filter (query_matches q) (table_events table)))))\<rparr>"
    using memory_query_page [OF q, of "table_events table"] m(1) by (simp add: Let_def)
  have "int (min n (nat (q_limit q))) \<le> q_limit q" if "0 < q_limit q" for n
    using that by (auto simp: min_def)
  with normalize_query_bounds [OF q] q show ?thesis
    unfolding fields len by (simp add: page)
qed

text \<open>For the empty agent id the two stores differ: the memory store lists the events without an agent,
  Postgres compares their NULL column with the empty string and lists nothing.\<close>

lemma list_by_empty_agent:
  assumes "table_invar rt reader table"
  shows "pg_list_by_agent rt reader table [] = Inr []"
    and "memory_list_by_agent (table_events table) [] = filter (\<lambda>e. ev_agent_id e = []) (table_events table)"
proof -
  have "filter (\<lambda>row. ar_agent_id row = Some []) (at_rows table) = []" "table_ok table" "dr_fault reader = None"
    using assms by (auto simp: table_invar_def row_nulls_ok_def filter_empty_conv)
  then show "pg_list_by_agent rt reader table [] = Inr []" by (simp add: pg_list_by_agent_def rows_by_id_ok)
qed (simp add: memory_list_by_agent_def)

subsection \<open>The index\<close>

text \<open>C7: \<open>Put\<close> refines the abstract map from agent hashes to records: a record with a newer
  sequence replaces the current one, the same record again is accepted and changes nothing, an
  older sequence is \<open>ErrStaleSequence\<close>, another record of the same sequence \<open>ErrSequenceConflict\<close>.\<close>

theorem index_put_refines_map:
  assumes "index_wf rt table" and "index_ready env" and "check_put rt agent_id record = Inr h"
  shows "fst (index_put rt env table agent_id record)
           = map_option (\<lambda>e. Sentinel (Index e)) (fst (spec_put (abs_index table) record))
     \<and> abs_index (snd (index_put rt env table agent_id record)) = snd (spec_put (abs_index table) record)"
  by (rule index_put_refines_spec [OF assms])

theorem index_put_refines_map_witness:
  "fst (index_put sample_runtime (se_index_put sample_env) sample_table ''a'' (sample_record 0))
     = map_option (\<lambda>e. Sentinel (Index e)) (fst (spec_put (abs_index sample_table) (sample_record 0)))
   \<and> abs_index (snd (index_put sample_runtime (se_index_put sample_env) sample_table ''a'' (sample_record 0)))
     = snd (spec_put (abs_index sample_table) (sample_record 0))"
  by (rule index_put_refines_map) simp_all

text \<open>Every call of \<open>Put\<close>, whatever it is given and whichever statement fails, keeps the tables
  well formed - each row's columns agree with its 120 bytes, each agent's sequences grow from
  history to current row - and a call that returns an error has changed nothing.\<close>

lemma index_put_invariant:
  assumes "index_wf rt table"
  shows "index_wf rt (snd (index_put rt env table agent_id record))
     \<and> (fst (index_put rt env table agent_id record) = None
        \<or> snd (index_put rt env table agent_id record) = table)"
  using index_put_wf [OF assms, of env agent_id "record"] index_put_error [OF _ assms, of env agent_id "record"]
  by (cases "fst (index_put rt env table agent_id record)") auto

text \<open>Over any sequence of \<open>Put\<close> calls an agent that has a record keeps one, and that record
  only ever changes to one with a higher sequence.\<close>

lemma index_sequences_grow:
  assumes "index_wf rt table" and "index_get None local table h = Inr old"
  shows "\<exists>new. index_get None local (foldl (\<lambda>t (env, a, r). snd (index_put rt env t a r)) table ops) h = Inr new
     \<and> (ix_sequence old < ix_sequence new \<or> ix_record new = ix_record old)"
  using pg_index.run_newer [OF assms, of ops] by (simp add: pg_index.run_index_def)



text \<open>C16: \<open>Put\<close> is serialisable. However the statements of concurrent \<open>Put\<close> transactions for one agent
  interleave and fail, once the agent has a committed row the calls that have ended returned what
  they return when they are run one after another, each in one piece, in some order and with some
  failures of the database, and the two tables hold what they hold after that run. So the rows the
  agent has had and the current row keep strictly growing sequences.\<close>

theorem concurrent_puts_serialise:
  assumes "index_wf rt table" and "it_rows table (arr_bytes h) = Some row"
    and "\<forall>(agent_id, record, now) \<in> set calls. check_put rt agent_id record = Inr h"
    and "put_step\<^sup>*\<^sup>* (put_start h (Some row) calls) s"
  shows "\<exists>order rs t. one_by_one (put_alone rt calls) order table = (rs, t)
     \<and> (\<forall>(i, env) \<in> set order. on_time calls i env)
     \<and> distinct (map fst rs) \<and> map_of rs = put_result s
     \<and> it_rows t = (it_rows table)(arr_bytes h := sh_row s)
     \<and> map hr_row (it_history t) = map hr_row (it_history table) @ sh_history s
     \<and> (\<exists>cur. sh_row s = Some cur \<and> sorted_wrt (<) (map ir_sequence (sh_history s @ [cur])))"
  using puts_serialised [OF assms] serialised_seqs [OF assms(4)]
  by (auto simp: puts.serial_run_def same_tables_def)

theorem concurrent_puts_serialise_witness:
  "\<exists>s row order rs t. it_rows sample_table (arr_bytes (hash128 ''a'')) = Some row
     \<and> put_step\<^sup>*\<^sup>* (put_start (hash128 ''a'') (Some row)
          [(''a'', sample_record 2, sample_time), (''a'', sample_record 1, sample_time)]) s
     \<and> one_by_one (put_alone sample_runtime
          [(''a'', sample_record 2, sample_time), (''a'', sample_record 1, sample_time)]) order sample_table = (rs, t)
     \<and> map_of rs 1 = Some (Some (wrap_err ''begin postgres index transaction'' (ErrNew ''down'')))"
proof -
  let ?calls = "[(''a'', sample_record 2, sample_time), (''a'', sample_record 1, sample_time)]"
  let ?e = "wrap_err ''begin postgres index transaction'' (ErrNew ''down'')"
  obtain row where row: "it_rows sample_table (arr_bytes (hash128 ''a'')) = Some row"
    using sample_table_get index_get_InrD(1) [OF sample_table_wf] by blast
  have calls: "\<forall>(a, r, now) \<in> set ?calls. check_put sample_runtime a r = Inr (hash128 ''a'')" by simp
  let ?s = "put_start (hash128 ''a'') (Some row) ?calls"
  have "\<exists>s. put_step ?s s \<and> put_result s 1 = Some (Some ?e)"
    by (rule exI, rule conjI, rule put_step.abort [of 1 _ ?e "''down''"])
       (simp_all add: put_result_def put_start_def pc_of_def set_pc_def)
  then obtain s where s: "put_step\<^sup>*\<^sup>* ?s s" "put_result s 1 = Some (Some ?e)" by blast
  from concurrent_puts_serialise [OF sample_table_wf row calls s(1)] obtain order rs t where
    "one_by_one (put_alone sample_runtime ?calls) order sample_table = (rs, t)" "map_of rs 1 = Some (Some ?e)"
    using s(2) by auto
  with row s(1) show ?thesis by blast
qed

text \<open>C18: Concurrent \<open>Put\<close> calls come to an end: n calls execute at most 4n statements in all, whatever
  the interleaving, and there is no deadlock. While a call is unfinished, some unfinished call does
  not wait for a lock and can execute its next statement, which fails only where the check of the
  sequence refuses the record.\<close>

theorem concurrent_puts_terminate:
  assumes "put_step\<^sup>*\<^sup>* (put_start h row calls) s"
  shows "(\<forall>n s'. (put_step ^^ n) s s' \<longrightarrow> n \<le> 4 * length calls)
     \<and> (\<forall>i < length (sh_txns s). \<not> is_done (pc_of s i) \<longrightarrow>
          (\<exists>j < length (sh_txns s). \<exists>s'. \<not> is_done (pc_of s j) \<and> put_step s s' \<and> pc_of s' j \<noteq> pc_of s j
             \<and> (\<forall>e. pc_of s' j = TxDone (Some e) \<longrightarrow> pc_of s j = TxStart)))"
proof (intro conjI allI impI)
  obtain k where "(put_step ^^ k) (put_start h row calls) s"
    using assms rtranclp_imp_relpowp by metis
  from put_steps_bounded [OF this] have left: "steps_left s \<le> 4 * length calls"
    by (simp add: steps_left_start)
  show "n \<le> 4 * length calls" if "(put_step ^^ n) s s'" for n s'
    using put_steps_bounded [OF that] left by simp
  have inv: "lock_inv s" by (rule lock_inv_reachable [OF assms lock_inv_start])
  show "\<exists>j < length (sh_txns s). \<exists>s'. \<not> is_done (pc_of s j) \<and> put_step s s' \<and> pc_of s' j \<noteq> pc_of s j
      \<and> (\<forall>e. pc_of s' j = TxDone (Some e) \<longrightarrow> pc_of s j = TxStart)"
    if "i < length (sh_txns s)" "\<not> is_done (pc_of s i)" for i
    using no_deadlock [OF inv that] not_waiting_steps [OF _ _ _ inv] by metis
qed

theorem concurrent_puts_terminate_witness:
  "\<exists>j s'. j < 2 \<and> put_step (put_start 0 None
       [(''a'', sample_record 1, sample_time), (''a'', sample_record 2, sample_time)]) s' \<and> pc_of s' j \<noteq> TxStart"
proof -
  let ?s = "put_start 0 None [(''a'', sample_record 1, sample_time), (''a'', sample_record 2, sample_time)]"
  have s: "length (sh_txns ?s) = 2" "pc_of ?s 0 = TxStart" "pc_of ?s 1 = TxStart"
    by (simp_all add: put_start_def pc_of_def)
  then have "0 < length (sh_txns ?s)" "\<not> is_done (pc_of ?s 0)" by simp_all
  with concurrent_puts_terminate [OF rtranclp.rtrancl_refl [of put_step ?s]] obtain j s' where
    j: "j < 2" "put_step ?s s'" "pc_of s' j \<noteq> pc_of ?s j"
    unfolding s(1) by blast
  moreover have "pc_of ?s j = TxStart" using j(1) s(2,3) by (cases j) (auto simp: less_Suc_eq numeral_2_eq_2)
  ultimately show ?thesis by auto
qed

text \<open>C38: Without a committed row there is nothing to lock: two \<open>Put\<close> transactions for a new agent
  can both see no row, both succeed, and the one that commits last stays, whatever the two
  sequences are; nothing of the other is archived.\<close>

theorem concurrent_first_puts_race:
  "\<exists>s. put_step\<^sup>*\<^sup>* (put_start h None [(a, newer, n1), (b, older, n2)]) s
     \<and> pc_of s 0 = TxDone None \<and> pc_of s 1 = TxDone None \<and> sh_history s = []
     \<and> (\<exists>row. sh_row s = Some row \<and> ir_record_bytes row = encode_record older)"
  by (rule first_insert_race)

subsection \<open>The facts stores\<close>

text \<open>C25: A stored path that \<open>Get\<close> accepts names a file strictly below the root: it cleans to the
  elements of the root followed by at least one more, none of them empty, a dot or two dots.\<close>

theorem facts_path_below_root:
  assumes "root \<noteq> []" and "clean_relative_path path = Inr q"
  shows "\<exists>es. es \<noteq> [] \<and> list_all normal_elem es
     \<and> join_path [root, q] = clean_path (root @ CHR ''/'' # q)
     \<and> clean_elems (root @ CHR ''/'' # q) = clean_elems root @ es"
proof -
  obtain es where "es \<noteq> []" "list_all normal_elem es" "clean_elems (root @ CHR ''/'' # q) = clean_elems root @ es"
    "join_path [root, q] = clean_path (root @ CHR ''/'' # q)"
    by (rule get_path_below_root [OF assms])
  then show ?thesis by blast
qed

theorem facts_path_below_root_witness:
  "\<exists>es. es \<noteq> [] \<and> list_all normal_elem es
     \<and> clean_elems (''root'' @ CHR ''/'' # deterministic_path ''{}'') = clean_elems ''root'' @ es"
proof -
  have "(''root'' :: string) \<noteq> []" by simp
  from facts_path_below_root [OF this clean_deterministic_path] show ?thesis by blast
qed

text \<open>The filesystem store is content addressed: the pointer \<open>Put\<close> returns depends only on the
  SHA-256 of the document, reading it back gives the document, and storing a document with
  another digest, whether that succeeds or fails half way, does not disturb it.\<close>

lemma facts_content_addressed:
  assumes "fst (fs_put root env disk d) = Inr p"
  shows "fs_get rt root fs_ready (snd (fs_put root env disk d)) p = Inr d
     \<and> p = fs_pointer d
     \<and> (\<forall>e env'. sha256 e \<noteq> sha256 d \<longrightarrow>
          fs_get rt root fs_ready (snd (fs_put root env' (snd (fs_put root env disk d)) e)) p = Inr d)"
  using fs.get_put [OF assms] fs_put_Inr [OF assms] fs.get_put_other fs_pointer_inj by metis

end
