(* ===== verification/Service_Properties.thy ===== *)
theory Service_Properties
  imports Samples
begin

text \<open>
  What is promised of registration, resolution and administration on the server's stores, each
  with an instance where its hypotheses hold.
\<close>

subsection \<open>Resolution\<close>


text \<open>C23: The cache time of an answer is positive, at most the time to live of the endpoint, and ends
  no later than the record does: the answer never outlives the registration it came from.\<close>

theorem resolve_cache_bounds:
  assumes "resolve rt s req w = (Inr resp, w')"
  shows "0 < cm_ttl_seconds (rsp_cache resp)
     \<and> cm_ttl_seconds (rsp_cache resp) \<le> int (unat (ep_ttl_seconds (rsp_endpoint resp)))
     \<and> instant (cm_expires_at (rsp_cache resp))
         = instant (rv_now s w) + cm_ttl_seconds (rsp_cache resp) * nanos_per_second
     \<and> (\<exists>h indexed. agent_id_hash rt (rsp_agent_id resp) = Inr h \<and> ii_get (rv_index_store s) h w = Inr indexed
          \<and> instant (cm_expires_at (rsp_cache resp)) \<le> instant (record_time indexed)
              + int (unat (p_ttl_seconds (payload_of (ix_record indexed)))) * nanos_per_second)"
proof -
  obtain agent_id indexed l1 pointer facts_bytes facts ep where
    r: "resolution rt s w (rv_now s w) req agent_id indexed l1 pointer facts_bytes facts"
    and ep: "select_endpoint facts = Some ep"
    and resp: "resp = resolve_result (rv_now s w) agent_id ep (resolve_trust (rsq_required_capability req))
                   (payload_of (ix_record indexed)) l1"
    using assms unfolding resolve_Inr resolve_checks_Inr by blast
  have fresh: "l1_freshness indexed (payload_of (ix_record indexed)) (rv_now s w) = Inr l1"
    and valid: "facts_valid_for rt facts agent_id (rsq_required_capability req) (rv_now s w)"
    and hash: "agent_id_hash rt agent_id = Inr (p_agent_id_hash (payload_of (ix_record indexed)))"
    and get: "ii_get (rv_index_store s) (p_agent_id_hash (payload_of (ix_record indexed))) w = Inr indexed"
    using r by (simp_all add: resolution_def Let_def)
  have "0 < ep_ttl_seconds ep"
    using valid select_endpoint_mem [OF ep] by (auto simp: facts_valid_for_def list_all_iff endpoint_valid_def)
  note cache = resolve_result_cache [OF refl l1_freshness_Inr(2) [OF fresh] this, folded resp]
  have "cm_ttl_seconds (rsp_cache resp) * nanos_per_second \<le> l1 * nanos_per_second"
    using cache(2) [of "rv_now s w" agent_id "resolve_trust (rsq_required_capability req)" "payload_of (ix_record indexed)"]
    by (simp add: resp nanos_per_second_def)
  moreover have "rsp_endpoint resp = ep" "rsp_agent_id resp = agent_id" by (simp_all add: resp resolve_result_def Let_def)
  ultimately show ?thesis
    using cache [of "rv_now s w" agent_id "resolve_trust (rsq_required_capability req)" "payload_of (ix_record indexed)"]
      l1_freshness_Inr(3) [OF fresh] hash get
    by (auto simp: resp intro!: exI [of _ indexed])
qed

theorem resolve_cache_bounds_witness:
  "\<exists>w resp w'. resolve sample_runtime sample_service sample_resolve w = (Inr resp, w')
     \<and> 0 < cm_ttl_seconds (rsp_cache resp)"
proof -
  obtain w resp w' where r: "resolve sample_runtime sample_service sample_resolve w = (Inr resp, w')"
    by (rule sample_resolved [of Map.empty]) simp_all
  with resolve_cache_bounds [OF r] show ?thesis by blast
qed



text \<open>A record is served exactly while at least one whole second of its time to live is left,
  counted from its last update, or its creation when there is no update time; the admin view
  never calls a record expired that would still be served.\<close>

lemma freshness_boundary:
  "((\<exists>l1. l1_freshness r (payload_of (ix_record r)) now = Inr l1) \<longleftrightarrow>
      \<not> time_is_zero (record_time r)
      \<and> instant now + nanos_per_second
          \<le> instant (record_time r) + int (unat (p_ttl_seconds (payload_of (ix_record r)))) * nanos_per_second)
   \<and> \<not> (agr_expired (agent_view now a h r) \<and> is_inr (l1_freshness r (payload_of (ix_record r)) now))"
proof -
  let ?p = "payload_of (ix_record r)"
  have iff: "(\<exists>l1. l1_freshness r ?p now = Inr l1) \<longleftrightarrow> \<not> time_is_zero (record_time r)
      \<and> instant now + nanos_per_second \<le> instant (record_time r) + int (unat (p_ttl_seconds ?p)) * nanos_per_second"
    using l1_freshness_Inr(1) l1_freshness_fresh [of r now ?p] l1_freshness_expired [of r ?p now]
    by (metis Inl_Inr_False not_less)
  have "agr_expired (agent_view now a h r) \<Longrightarrow>
      instant (record_time r) + int (unat (p_ttl_seconds ?p)) * nanos_per_second \<le> instant now"
    by (simp add: agent_view_def Let_def agent_expires_def time_after_def not_less record_time_def)
  with iff show ?thesis
    by (auto simp: is_inr_iff nanos_per_second_def)
qed

text \<open>C27: When the log accepts events, every resolution that fails is logged: the last event is then a
  denial whose reason is the text of the error the caller gets, of type \<open>trust.denied\<close> only when
  a capability was asked for and trust was what failed.\<close>

theorem resolve_failures_logged:
  assumes "fst (resolve rt (resolver_of rt cfg) req w) = Inl e"
    and "audit_ready (se_audit (w_env w))"
  shows "\<exists>ev. at_rows (w_audit (snd (resolve rt (resolver_of rt cfg) req w)))
         = at_rows (w_audit w) @ [insert_row (at_next_id (w_audit w)) ev]
     \<and> ev_previous_hash ev = pg_previous_hash (w_audit w)
     \<and> ev_decision ev = decision_denied \<and> ev_reason ev = err_msg e
     \<and> (ev_type ev = event_resolve_denied
          \<or> ev_type ev = event_trust_denied \<and> rsq_required_capability req \<noteq> []
            \<and> err_is e (Resolver RS_ErrTrustDenied))"
proof -
  obtain d payload ev where d: "resolve_checks rt (resolver_of rt cfg) w (se_now (w_env w)) req = Inl d" "e = dn_error d"
    and log: "logged w (snd (resolve rt (resolver_of rt cfg) req w)) (failure_input d payload) ev"
    using resolve_failure_logged [OF assms] by blast
  with resolve_checks_Inl_type [OF d(1)] show ?thesis
    by (intro exI [of _ ev]) (auto simp: logged_def failure_input_def)
qed

theorem resolve_failures_logged_witness:
  "\<exists>e ev. fst (resolve sample_runtime sample_service sample_resolve sample_world) = Inl e
     \<and> at_rows (w_audit (snd (resolve sample_runtime sample_service sample_resolve sample_world)))
         = at_rows (w_audit sample_world) @ [insert_row (at_next_id (w_audit sample_world)) ev]
     \<and> ev_decision ev = decision_denied"
proof -
  have "\<not> is_inr (fst (resolve sample_runtime sample_service sample_resolve sample_world))"
  proof
    assume "is_inr (fst (resolve sample_runtime sample_service sample_resolve sample_world))"
    then obtain resp w' where "resolve sample_runtime sample_service sample_resolve sample_world = (Inr resp, w')"
      by (auto simp: is_inr_iff) (metis prod.collapse)
    then show False
      unfolding resolve_Inr resolve_checks_Inr
      by (auto simp: resolution_def Let_def resolver_of_def server_index_def index_get_absent sample_env_def)
  qed
  then obtain e where e: "fst (resolve sample_runtime sample_service sample_resolve sample_world) = Inl e"
    by (cases "fst (resolve sample_runtime sample_service sample_resolve sample_world)") auto
  have "audit_ready (se_audit (w_env sample_world))" by simp
  from resolve_failures_logged [OF e this] e show ?thesis by blast
qed

text \<open>\<open>Resolve\<close> writes nothing but the audit log, and there at most one event, whatever it
  answers and whatever fails.\<close>

lemma resolve_read_only:
  "stores_agree w (snd (resolve rt (resolver_of rt cfg) req w))
   \<and> w_revocations (snd (resolve rt (resolver_of rt cfg) req w)) = w_revocations w
   \<and> (\<exists>new. at_rows (w_audit (snd (resolve rt (resolver_of rt cfg) req w))) = at_rows (w_audit w) @ new
        \<and> length new \<le> 1)"
proof -
  have "stores_agree w w" by (simp add: stores_agree_def)
  with resolve_world [of rt cfg req w] observed_append_agree observed_append_keeps(1) observed_append_rows
  show ?thesis by fastforce
qed

subsection \<open>Registration\<close>



text \<open>C40: A registration with a sequence below the current one is refused as stale and leaves the index
  and the audit log as they were, but its document and its pointer have been stored already and
  stay.\<close>

theorem stale_registration_keeps_document:
  assumes "validate_register_request rt req = Inr agent_id"
    and "index_wf rt (w_index w)" and "lower_ok (rt_lower rt)"
    and "length (cf_private_key cfg) = ed_private_key_size" and "writes_ready (w_env w)"
    and "decode_facts rt (rq_facts req) = Inr facts"
    and "credential_set_hash128 (af_credentials facts) = Inr cs"
    and "abs_index (w_index w) (hash128 agent_id) = Some cur"
    and "rq_sequence req < p_sequence (payload_of cur)"
  shows "\<exists>e w'. register rt (registration_of rt cfg) req w = (Inl e, w') \<and> err_is e (Index IX_ErrStaleSequence)
     \<and> w_index w' = w_index w \<and> w_audit w' = w_audit w
     \<and> w_disk w' (join_path [cf_facts_dir cfg, deterministic_path (rq_facts req)]) = Some (rq_facts req)
     \<and> w_pointers w' (hex_encode (arr_bytes (pointer_hash128 (fs_pointer (rq_facts req)))))
         = Some (filesystem_scheme, deterministic_path (rq_facts req))"
proof -
  obtain "record" where rec: "record_commits rt (cf_private_key cfg) req agent_id (fs_pointer (rq_facts req)) record"
    "check_put rt agent_id record = Inr (hash128 agent_id)"
    "\<And>e ix. index_put rt (se_index_put (w_env w)) (w_index w) agent_id record = (Some e, ix) \<Longrightarrow>
       register rt (registration_of rt cfg) req w
         = (Inl (wrap_err ''store agent address record'' e), (staged cfg req w)\<lparr>w_index := ix\<rparr>)"
    using register_staged [OF assms(1,3-7)] by blast
  have "index_ready (se_index_put (w_env w))" using assms(5) by (simp add: writes_ready_def)
  from index_put_refines_spec [OF assms(2) this rec(2)]
  have put: "fst (index_put rt (se_index_put (w_env w)) (w_index w) agent_id record)
      = Some (Sentinel (Index IX_ErrStaleSequence))"
    using rec(1) assms(8,9) by (simp add: spec_put_def record_commits_def)
  then obtain ix where ix: "index_put rt (se_index_put (w_env w)) (w_index w) agent_id record
      = (Some (Sentinel (Index IX_ErrStaleSequence)), ix)" by (metis prod.collapse)
  have "ix = w_index w" using index_put_error [OF put assms(2)] ix by simp
  with rec(3) [OF ix] show ?thesis
    by (simp add: staged_def wrap_err_def)
qed

theorem stale_registration_keeps_document_witness:
  "\<exists>e w'. register sample_runtime (registration_of sample_runtime sample_config)
       (sample_request\<lparr>rq_sequence := 0\<rparr>) (sample_world\<lparr>w_index := sample_table\<rparr>) = (Inl e, w')
     \<and> err_is e (Index IX_ErrStaleSequence)
     \<and> w_disk w' (join_path [cf_facts_dir sample_config, deterministic_path (rq_facts sample_request)])
         = Some (rq_facts sample_request)"
proof -
  let ?req = "sample_request\<lparr>rq_sequence := 0\<rparr>" and ?w = "sample_world\<lparr>w_index := sample_table\<rparr>"
  obtain cs where cs: "credential_set_hash128 (af_credentials sample_facts) = Inr cs"
    using sample_set_hash by blast
  have cur: "abs_index (w_index ?w) (hash128 ''a'') = Some (sample_record 1)"
    using sample_table_get [of "\<lambda>_. 0"] by (auto simp: abs_index_def)
  have hyps: "validate_register_request sample_runtime ?req = Inr ''a''" "index_wf sample_runtime (w_index ?w)"
    "lower_ok (rt_lower sample_runtime)" "length (cf_private_key sample_config) = ed_private_key_size"
    "writes_ready (w_env ?w)" "decode_facts sample_runtime (rq_facts ?req) = Inr sample_facts"
    "rq_sequence ?req < p_sequence (payload_of (sample_record 1))"
    using sample_lower_ok sample_config_ok
    by (simp_all add: config_ok_def validate_register_request_Inr sample_request_def)
  have "rq_facts ?req = rq_facts sample_request" by (simp add: sample_request_def)
  with stale_registration_keeps_document [OF hyps(1-6) cs cur hyps(7)] show ?thesis by metis
qed

subsection \<open>Revocation\<close>



end
