(* ===== verification/Server_Kept.thy ===== *)
theory Server_Kept
  imports Server_Effects
begin

text \<open>
  What every request keeps. The handlers of \<open>internal/api\<close> reach the world through a few operations
  of the services: an append to the audit log, a registration, the update of a revocation, and the
  counter of the request ids. The locale \<open>kept_by_requests\<close> asks of a relation that each of these
  keeps it; then every route keeps it, and \<open>kept_by_server\<close> adds the registry, which the middleware
  writes, and gives the relation for the whole handler of \<open>newLocalHandler\<close>. \<open>serve\<close> answers a
  list of requests, each in the environment it meets.
\<close>

definition handler_within :: "('w \<Rightarrow> 'w \<Rightarrow> bool) \<Rightarrow> 'w handler \<Rightarrow> bool" where
  "handler_within keeps h \<longleftrightarrow> (\<forall>req w. keeps w (snd (h req w)))"

lemma handler_withinD: "handler_within keeps h \<Longrightarrow> keeps w (snd (h req w))"
  by (simp add: handler_within_def)

lemma find_route_within:
  assumes "\<forall>r \<in> set routes. handler_within keeps (snd (snd r))" and "find_route routes segs = Some (pat, vs, h)"
  shows "handler_within keeps h"
  using assms by (induction routes segs rule: find_route.induct) (auto split: option.splits)

lemma ensure_request_id_world:
  "snd (snd (ensure_request_id server_ids req w)) = w
   \<or> (\<exists>n. snd (snd (ensure_request_id server_ids req w)) = w\<lparr>w_fallback_count := n\<rparr>)"
  by (auto simp: ensure_request_id_def new_request_id_def server_ids_def split: option.splits)

text \<open>What \<open>Register\<close> keeps, from what each of its steps keeps in the world the step before left.\<close>

lemma register_keeps:
  assumes refl: "\<And>w. keeps w w" and trans: "\<And>a b c. keeps a b \<Longrightarrow> keeps b c \<Longrightarrow> keeps a c"
    and facts: "keeps w (snd (fi_put (rs_facts_store s) (rq_facts req) w))"
    and pointer: "\<And>p w1. fi_put (rs_facts_store s) (rq_facts req) w = (Inr p, w1) \<Longrightarrow> keeps w1 (snd (put_pointer s p w1))"
    and index: "\<And>p w1 w2 a cs record. fi_put (rs_facts_store s) (rq_facts req) w = (Inr p, w1) \<Longrightarrow>
      put_pointer s p w1 = (None, w2) \<Longrightarrow> validate_register_request rt req = Inr a \<Longrightarrow>
      register_record rt (rs_private_key s) req a p = Inr (cs, record) \<Longrightarrow>
      keeps w2 (snd (ii_put (rs_index_store s) a record w2))"
    and audit: "\<And>resp w3. keeps w3 (snd (audit_registration rt s req resp w3))"
  shows "keeps w (snd (register rt s req w))"
proof -
  obtain r1 w1 where put: "fi_put (rs_facts_store s) (rq_facts req) w = (r1, w1)" by fastforce
  have k1: "keeps w w1" using facts put by simp
  have k2: "keeps w w2" if "r1 = Inr p" "put_pointer s p w1 = (r2, w2)" for p r2 w2
    using trans [OF k1 pointer [of p w1]] put that by simp
  have k3: "keeps w w3" if "r1 = Inr p" "put_pointer s p w1 = (None, w2)" "validate_register_request rt req = Inr a"
    "register_record rt (rs_private_key s) req a p = Inr (cs, record)" "ii_put (rs_index_store s) a record w2 = (r3, w3)"
    for p w2 a cs "record" r3 w3
    using trans [OF k2 [OF that(1,2)] index [OF _ that(2-4)]] put that(1,5) by simp
  have k4: "keeps w w4" if "keeps w w3" "audit_registration rt s req resp w3 = (r4, w4)" for resp w3 r4 w4
    using trans [OF that(1) audit] that(2) by (metis snd_conv)
  show ?thesis
    using put by (auto simp: register_def Let_def refl k1 split: sum.split option.split prod.split
        intro: k2 k3 k4 [OF k3])
qed

lemma audit_registration_keeps:
  assumes "\<And>w. keeps w w" and "\<And>input w. keeps w (snd (ai_append (observed_audit rt) input w))"
  shows "keeps w (snd (audit_registration rt (registration_of rt cfg) req resp w))"
proof -
  have "keeps w w'" if "ai_append (observed_audit rt) input w = (r, w')" for input r w'
    using assms(2) [of w input] that by simp
  then show ?thesis
    by (auto simp: audit_registration_def registration_of_def server_audit_Some append_event_def assms(1)
        split: sum.split prod.split)
qed

locale kept_by_requests =
  fixes rt :: runtime and cfg :: local_config and keeps :: "server_world \<Rightarrow> server_world \<Rightarrow> bool"
  assumes keeps_refl: "keeps w w"
    and keeps_trans: "keeps a b \<Longrightarrow> keeps b c \<Longrightarrow> keeps a c"
    and keeps_count: "keeps w (w\<lparr>w_fallback_count := n\<rparr>)"
    and keeps_append: "keeps w (snd (ai_append (observed_audit rt) input w))"
    and keeps_register: "keeps w (snd (register rt (registration_of rt cfg) req w))"
    and keeps_revocation: "keeps w (snd (vi_set (server_revocations rt) issuer credential st reason w))"
begin

lemma keeps_resolve: "keeps w (snd (resolve rt (resolver_of rt cfg) req w))"
  using resolve_world [of rt cfg req w] keeps_refl keeps_append by auto

lemma keeps_append_event: "keeps w (snd (append_event (observed_audit rt) context_text input w))"
  using keeps_append [of w input] by (auto simp: append_event_def split: prod.splits sum.splits)

lemma keeps_set_revocation: "keeps w (snd (set_revocation_status rt (admin_of rt) req w))"
proof -
  obtain r1 w1 where w1: "vi_set (server_revocations rt) (vq_issuer req) (vq_credential_id req) (vq_status req)
      (vq_reason req) w = (r1, w1)" by fastforce
  have k1: "keeps w w1"
    using keeps_revocation [of w "vq_issuer req" "vq_credential_id req" "vq_status req" "vq_reason req"] w1 by simp
  have "keeps w (snd (audit_revocation_updated rt (observed_audit rt) req w1))"
    using keeps_trans [OF k1 keeps_append_event] k1
    by (simp add: audit_revocation_updated_def split: sum.split)
  with w1 k1 show ?thesis
    by (auto simp: set_revocation_status_def admin_of_def keeps_refl split: prod.split option.split)
qed

lemma keeps_ids: "keeps w (snd (snd (ensure_request_id server_ids req w)))"
  using ensure_request_id_world [of req w] keeps_refl keeps_count by auto

lemma with_method_within:
  assumes "handler_within keeps inner"
  shows "handler_within keeps (with_method server_ids m inner)"
proof -
  have "keeps w (snd (with_method server_ids m inner req w))" for req w
  proof -
    obtain ops req' w1 where e: "ensure_request_id server_ids req w = (ops, req', w1)" by (metis prod.exhaust)
    then have "keeps w w1" using keeps_ids [of w req] by simp
    with keeps_trans [OF this handler_withinD [OF assms]] e show ?thesis
      by (simp add: with_method_def case_prod_unfold)
  qed
  then show ?thesis by (simp add: handler_within_def)
qed

lemma with_bearer_auth_within:
  assumes "handler_within keeps inner"
  shows "handler_within keeps (with_bearer_auth server_ids inner token)"
proof -
  have "keeps w (snd (with_bearer_auth server_ids inner token req w))" for req w
  proof -
    obtain ops req' w1 where e: "ensure_request_id server_ids req w = (ops, req', w1)" by (metis prod.exhaust)
    then have "keeps w w1" using keeps_ids [of w req] by simp
    with keeps_trans [OF this handler_withinD [OF assms]] e handler_withinD [OF assms] show ?thesis
      by (simp add: with_bearer_auth_def case_prod_unfold)
  qed
  then show ?thesis by (simp add: handler_within_def)
qed

lemma write_handlers_within:
  "handler_within keeps (register_agent_handler server_ids (register rt (registration_of rt cfg)))"
  "handler_within keeps (resolve_agent_handler server_ids (resolve rt (resolver_of rt cfg)))"
  "handler_within keeps (admin_set_revocation_status_handler server_ids (admin_methods rt (admin_of rt)))"
proof -
  have r: "keeps w w'" if "register rt (registration_of rt cfg) req w = (x, w')" for w req x w'
    using keeps_register [of w req] that by simp
  have q: "keeps w w'" if "resolve rt (resolver_of rt cfg) req w = (x, w')" for w req x w'
    using keeps_resolve [of w req] that by simp
  have v: "keeps w w'" if "set_revocation_status rt (admin_of rt) req w = (x, w')" for w req x w'
    using keeps_set_revocation [of w req] that by simp
  show "handler_within keeps (register_agent_handler server_ids (register rt (registration_of rt cfg)))"
    "handler_within keeps (resolve_agent_handler server_ids (resolve rt (resolver_of rt cfg)))"
    "handler_within keeps (admin_set_revocation_status_handler server_ids (admin_methods rt (admin_of rt)))"
    unfolding register_agent_handler_def resolve_agent_handler_def admin_set_revocation_status_handler_def
    by (intro with_method_within; auto simp: handler_within_def admin_methods_def keeps_refl
        split: option.split sum.split prod.split intro: r q v)+
qed

lemma read_handlers_within:
  "handler_within keeps (admin_get_agent_handler server_ids service)"
  "handler_within keeps (admin_list_audit_handler rt server_ids service)"
  "handler_within keeps (admin_list_audit_by_agent_handler rt server_ids service)"
  "handler_within keeps (admin_get_revocation_status_handler server_ids service)"
  unfolding admin_get_agent_handler_def admin_list_audit_handler_def admin_list_audit_by_agent_handler_def
    admin_get_revocation_status_handler_def
  by (intro with_method_within; simp add: handler_within_def keeps_refl split: sum.split)+

lemma plain_handlers_within:
  "handler_within keeps healthz_handler" "handler_within keeps readyz_handler"
  "handler_within keeps (metrics_handler registry_of)"
  by (simp_all add: handler_within_def healthz_handler_def readyz_handler_def metrics_handler_def keeps_refl)

lemma mux_within: "handler_within keeps (mux (server_routes rt cfg))"
proof -
  have "\<forall>r \<in> set (server_routes rt cfg). handler_within keeps (snd (snd r))"
    by (simp add: server_routes_def local_routes_def add_routes_def Let_def
        with_bearer_auth_within write_handlers_within read_handlers_within plain_handlers_within)
  note within = find_route_within [OF this]
  have "keeps w (snd (mux (server_routes rt cfg) req w))" for req w
  proof (cases "find_route (server_routes rt cfg) (hq_segments req)")
    case None
    then show ?thesis by (simp add: mux_def keeps_refl)
  next
    case (Some found)
    obtain pat vs h where f: "found = (pat, vs, h)" by (cases found) auto
    have "mux (server_routes rt cfg) req w = h (req\<lparr>hq_path_value := path_value vs\<rparr>) w"
      using Some f by (simp add: mux_def)
    with handler_withinD [OF within [OF Some [unfolded f]]] show ?thesis by simp
  qed
  then show ?thesis by (simp add: handler_within_def)
qed

lemma keeps_mux: "keeps w (snd (mux (server_routes rt cfg) req w))"
  by (rule handler_withinD [OF mux_within])

end

locale kept_by_server = kept_by_requests +
  assumes keeps_registry: "keeps w (w\<lparr>w_registry := r\<rparr>)"
begin

lemma keeps_on_registry: "keeps w (on_registry f w)"
  using keeps_registry keeps_refl by (simp add: on_registry_def split: option.split)

lemma keeps_server: "keeps w (snd (server_handler rt cfg req w))"
proof -
  obtain ops req' w1 where e: "ensure_request_id server_ids req w = (ops, req', w1)" by (metis prod.exhaust)
  then have k1: "keeps w w1" using keeps_ids [of w req] by simp
  obtain ops2 w2 where m: "mux (server_routes rt cfg) req' w1 = (ops2, w2)" by fastforce
  then have "keeps w w2" using keeps_trans [OF k1 keeps_mux [of w1 req']] by simp
  from keeps_trans [OF this keeps_on_registry] show ?thesis
    by (simp add: server_handler_def with_request_id_def e middleware_def m Let_def)
qed

end

fun serve ::
  "runtime \<Rightarrow> local_config \<Rightarrow> (server_env \<times> http_request) list \<Rightarrow> server_world \<Rightarrow> http_op list list \<times> server_world" where
  "serve rt cfg [] w = ([], w)"
| "serve rt cfg ((env, req) # reqs) w =
     (let (ops, w1) = server_handler rt cfg req (w\<lparr>w_env := env\<rparr>);
          (rest, w2) = serve rt cfg reqs w1
      in (ops # rest, w2))"

lemma serve_induct_world:
  assumes "P w"
    and "\<And>env req w. (env, req) \<in> set reqs \<Longrightarrow> P w \<Longrightarrow> P (snd (server_handler rt cfg req (w\<lparr>w_env := env\<rparr>)))"
  shows "P (snd (serve rt cfg reqs w))"
  using assms
proof (induction rt cfg reqs w rule: serve.induct)
  case (2 rt cfg env req reqs w)
  obtain ops w1 where h: "server_handler rt cfg req (w\<lparr>w_env := env\<rparr>) = (ops, w1)" by fastforce
  then have "P w1" using 2(2,3) by (metis list.set_intros(1) snd_conv)
  with 2(1) [OF h [symmetric] _ this] 2(3) h show ?case by (simp add: case_prod_unfold Let_def)
qed simp

end
