(* ===== verification/Schema.thy ===== *)
theory Schema
  imports Index_Store Audit_Stores Revocation_Store "HOL-Library.Sublist"
begin

text \<open>
  The constraints that the migrations (\<open>migrations/*.sql\<close>) put on the tables, as predicates of the
  tables of the stores: the CHECK constraints, the keys, and the trigger that refuses updates and
  deletes of audit events. Keys that index a map are unique by its type. The lemmas show that the
  well-formedness of the stores implies them, so no statement of the server runs into one.
\<close>

definition address_columns_ok :: "index_row \<Rightarrow> bool" where
  "address_columns_ok row \<longleftrightarrow>
     length (ir_agent_hash row) = 16 \<and> length (ir_record_bytes row) = 120
     \<and> 0 \<le> uint (ir_sequence row) \<and> 0 < uint (ir_ttl_seconds row)"

text \<open>\<open>agent_addr_records\<close>: a row is stored under its \<open>agent_hash\<close>.\<close>

definition agent_addr_records_ok :: "index_table \<Rightarrow> bool" where
  "agent_addr_records_ok table \<longleftrightarrow>
     (\<forall>(h :: 128 word) row. it_rows table (arr_bytes h) = Some row \<longrightarrow>
        ir_agent_hash row = arr_bytes h \<and> address_columns_ok row)"

definition agent_addr_history_ok :: "index_table \<Rightarrow> bool" where
  "agent_addr_history_ok table \<longleftrightarrow>
     distinct (map hr_id (it_history table)) \<and> (\<forall>hr \<in> set (it_history table). address_columns_ok (hr_row hr))"

text \<open>\<open>audit_events\<close> without its \<open>event_id\<close>, whose uniqueness rests on random numbers.\<close>

definition audit_events_ok :: "audit_table \<Rightarrow> bool" where
  "audit_events_ok table \<longleftrightarrow> distinct (map ar_id (at_rows table))"

definition credential_revocations_ok :: "revocation_table \<Rightarrow> bool" where
  "credential_revocations_ok table \<longleftrightarrow>
     (\<forall>key row. table key = Some row \<longrightarrow> row_status row \<in> {''active'', ''revoked''})"

text \<open>The trigger: the rows that are there stay, as they are.\<close>

definition audit_events_append_only :: "audit_table \<Rightarrow> audit_table \<Rightarrow> bool" where
  "audit_events_append_only table table' \<longleftrightarrow> prefix (at_rows table) (at_rows table')"

lemma address_columns_row_ok: "row_ok rt row \<Longrightarrow> address_columns_ok row"
proof -
  assume "row_ok rt row"
  then obtain h :: "128 word" and a where row: "ir_agent_hash row = arr_bytes h" "ir_record_bytes row = encode_record a"
    "decode_record (encode_record a) = Inr a" "ir_ttl_seconds row = p_ttl_seconds (payload_of a)"
    by (auto simp: row_ok_def)
  then have "p_ttl_seconds (payload_of a) \<noteq> 0"
    using decode_record_valid validate_ttl by (auto simp: payload_of_def)
  then have "0 < uint (p_ttl_seconds (payload_of a))" by (simp add: word_neq_0_conv word_less_def)
  with row show ?thesis by (simp add: address_columns_ok_def record_size_def payload_size_def signature_size_def)
qed

lemma index_wf_schema:
  assumes "index_wf rt table"
  shows "agent_addr_records_ok table" and "agent_addr_history_ok table"
  using assms address_columns_row_ok [of rt] strict_sorted_imp_sorted strict_sorted_iff [of "map hr_id (it_history table)"]
  by (auto simp: index_wf_def agent_addr_records_ok_def agent_addr_history_ok_def)

lemma table_ok_schema: "table_ok table \<Longrightarrow> audit_events_ok table"
  using strict_sorted_iff [of "map ar_id (at_rows table)"] by (simp add: table_ok_def audit_events_ok_def)

end
