(* ===== verification/Server_Invariants.thy ===== *)
theory Server_Invariants
  imports Server_Kept Schema
begin

text \<open>
  The invariant of the server's stores taken together. \<open>server_wf\<close> says that the index is well
  formed, that the chain of the audit log verifies, that a stored pointer leads to a document stored
  under its content address, that every record, current or archived, was signed by this server for a
  valid request whose pointer is stored, and that a revocation is active or revoked. Every request
  keeps it while the disk does not fail in the middle of a write, and adds to the logs and tables
  without taking anything away (\<open>grows\<close>). The last section is what such a failure does.
\<close>

subsection \<open>The invariant\<close>

definition facts_file :: "local_config \<Rightarrow> bytes \<Rightarrow> string" where
  "facts_file cfg d = join_path [cf_facts_dir cfg, deterministic_path d]"

definition pointer_key :: "bytes \<Rightarrow> string" where
  "pointer_key d = hex_encode (arr_bytes (pointer_hash128 (fs_pointer d)))"

definition pointers_backed :: "local_config \<Rightarrow> disk \<Rightarrow> pointer_table \<Rightarrow> bool" where
  "pointers_backed cfg disk pointers \<longleftrightarrow>
     (\<forall>k v. pointers k = Some v \<longrightarrow>
        (\<exists>d. k = pointer_key d \<and> v = (filesystem_scheme, deterministic_path d) \<and> disk (facts_file cfg d) = Some d))"

definition row_backed :: "runtime \<Rightarrow> local_config \<Rightarrow> pointer_table \<Rightarrow> index_row \<Rightarrow> bool" where
  "row_backed rt cfg pointers row \<longleftrightarrow>
     (\<exists>req a. ir_record_bytes row = encode_record a
        \<and> record_commits rt (cf_private_key cfg) req (ir_agent_id row) (fs_pointer (rq_facts req)) a
        \<and> pointers (pointer_key (rq_facts req)) \<noteq> None)"

definition rows_backed :: "runtime \<Rightarrow> local_config \<Rightarrow> pointer_table \<Rightarrow> index_table \<Rightarrow> bool" where
  "rows_backed rt cfg pointers table \<longleftrightarrow>
     (\<forall>(h :: 128 word) row. it_rows table (arr_bytes h) = Some row \<longrightarrow> row_backed rt cfg pointers row)
     \<and> (\<forall>hr \<in> set (it_history table). row_backed rt cfg pointers (hr_row hr))"

definition audit_sound :: "runtime \<Rightarrow> audit_table \<Rightarrow> bool" where
  "audit_sound rt table \<longleftrightarrow> table_ok table \<and> verify_events rt (table_events table) = None"

definition statuses_ok :: "revocation_table \<Rightarrow> bool" where
  "statuses_ok table \<longleftrightarrow>
     (\<forall>i c row. table (i, c) = Some row \<longrightarrow> status_update_ok i c (row_status row))"

definition server_wf :: "runtime \<Rightarrow> local_config \<Rightarrow> server_world \<Rightarrow> bool" where
  "server_wf rt cfg w \<longleftrightarrow>
     index_wf rt (w_index w) \<and> audit_sound rt (w_audit w)
     \<and> pointers_backed cfg (w_disk w) (w_pointers w) \<and> rows_backed rt cfg (w_pointers w) (w_index w)
     \<and> statuses_ok (w_revocations w)"

text \<open>The constraints of the migrations on all the tables.\<close>

definition schema_ok :: "server_world \<Rightarrow> bool" where
  "schema_ok w \<longleftrightarrow>
     agent_addr_records_ok (w_index w) \<and> agent_addr_history_ok (w_index w) \<and> audit_events_ok (w_audit w)
     \<and> credential_revocations_ok (w_revocations w)"

lemma server_wf_schema: "server_wf rt cfg w \<Longrightarrow> schema_ok w"
  using index_wf_schema [of rt "w_index w"] table_ok_schema [of "w_audit w"]
  by (auto simp: server_wf_def schema_ok_def audit_sound_def statuses_ok_def credential_revocations_ok_def
      status_update_ok_def status_active_def status_revoked_def)

text \<open>What is logged, archived or stored stays: a current record is only replaced by a newer one, the sequences of an agent and the events are only
  added at the end, and no key disappears.\<close>

definition rows_newer :: "index_table \<Rightarrow> index_table \<Rightarrow> bool" where
  "rows_newer table table' \<longleftrightarrow>
     (\<forall>(h :: 128 word) row. it_rows table (arr_bytes h) = Some row \<longrightarrow>
        (\<exists>row'. it_rows table' (arr_bytes h) = Some row' \<and> (row' = row \<or> ir_sequence row < ir_sequence row')))"

lemma rows_newer_refl [simp]: "rows_newer table table"
  by (simp add: rows_newer_def)

lemma rows_newer_trans: "rows_newer a b \<Longrightarrow> rows_newer b c \<Longrightarrow> rows_newer a c"
  unfolding rows_newer_def by (fast intro: order.strict_trans)

lemma rows_newer_written:
  assumes "\<forall>row. it_rows table (arr_bytes h) = Some row \<longrightarrow> ir_sequence row < p_sequence (payload_of record)"
  shows "rows_newer table (written env table h agent_id record)"
  using assms by (auto simp: rows_newer_def written_rows upsert_row_def)

definition grows :: "server_world \<Rightarrow> server_world \<Rightarrow> bool" where
  "grows w w' \<longleftrightarrow>
     rows_newer (w_index w) (w_index w') \<and> (\<forall>h. prefix (all_seqs (w_index w) h) (all_seqs (w_index w') h))
     \<and> prefix (it_history (w_index w)) (it_history (w_index w'))
     \<and> audit_events_append_only (w_audit w) (w_audit w')
     \<and> dom (w_disk w) \<subseteq> dom (w_disk w') \<and> dom (w_pointers w) \<subseteq> dom (w_pointers w')
     \<and> dom (w_revocations w) \<subseteq> dom (w_revocations w')"

lemma grows_refl [simp]: "grows w w"
  by (simp add: grows_def audit_events_append_only_def)

lemma grows_trans:
  assumes "grows a b" and "grows b c"
  shows "grows a c"
proof -
  have "prefix (all_seqs (w_index a) h) (all_seqs (w_index c) h)" for h
    using assms prefix_order.trans unfolding grows_def by metis
  with assms show ?thesis
    using rows_newer_trans [of "w_index a" "w_index b" "w_index c"]
      prefix_order.trans [of "it_history (w_index a)" "it_history (w_index b)" "it_history (w_index c)"]
      prefix_order.trans [of "at_rows (w_audit a)" "at_rows (w_audit b)" "at_rows (w_audit c)"]
    by (simp add: grows_def audit_events_append_only_def) (meson subset_trans)
qed

lemma grows_env [simp]: "grows (w\<lparr>w_env := e\<rparr>) w' = grows w w'"
  by (simp add: grows_def)

lemma server_wf_env [simp]: "server_wf rt cfg (w\<lparr>w_env := e\<rparr>) = server_wf rt cfg w"
  by (simp add: server_wf_def)

subsection \<open>One step of a store\<close>

text \<open>The disk never stops in the middle of a write.\<close>

definition writes_whole :: "server_env \<Rightarrow> bool" where
  "writes_whole env \<longleftrightarrow> fs_write (se_fs env) = None"

definition evolves :: "runtime \<Rightarrow> local_config \<Rightarrow> server_world \<Rightarrow> server_world \<Rightarrow> bool" where
  "evolves rt cfg w w' \<longleftrightarrow>
     w_env w' = w_env w
     \<and> (lower_ok (rt_lower rt) \<longrightarrow> writes_whole (w_env w) \<longrightarrow> server_wf rt cfg w \<longrightarrow>
          server_wf rt cfg w' \<and> grows w w')"

lemma evolves_refl [simp]: "evolves rt cfg w w"
  by (simp add: evolves_def)

lemma evolves_trans: "evolves rt cfg a b \<Longrightarrow> evolves rt cfg b c \<Longrightarrow> evolves rt cfg a c"
  unfolding evolves_def by (metis grows_trans)

lemma evolves_same_stores: "same_stores w w' \<Longrightarrow> evolves rt cfg w w'"
  by (simp add: evolves_def same_stores_def server_wf_def grows_def audit_events_append_only_def)

lemma pointer_key_eq: "pointer_key d = pointer_key e \<longleftrightarrow> pointer_hash128 (fs_pointer d) = pointer_hash128 (fs_pointer e)"
  by (simp add: pointer_key_def hash_key_inj)

text \<open>A document at a path replaces one with the same content address.\<close>

lemma facts_file_inj: "facts_file cfg d = facts_file cfg e \<longleftrightarrow> fs_pointer d = fs_pointer e"
  by (simp add: facts_file_def full_path_inj fs_pointer_inj del: join_path.simps)

lemma pointers_backed_put:
  assumes "pointers_backed cfg disk pointers"
  shows "pointers_backed cfg (disk(facts_file cfg d \<mapsto> d)) pointers"
proof -
  have "\<exists>e. k = pointer_key e \<and> v = (filesystem_scheme, deterministic_path e)
      \<and> (disk(facts_file cfg d \<mapsto> d)) (facts_file cfg e) = Some e" if "pointers k = Some v" for k v
  proof -
    obtain e where e: "k = pointer_key e" "v = (filesystem_scheme, deterministic_path e)"
      "disk (facts_file cfg e) = Some e"
      using assms \<open>pointers k = Some v\<close> unfolding pointers_backed_def by blast
    show ?thesis
    proof (cases "facts_file cfg e = facts_file cfg d")
      case True
      then have "fs_pointer e = fs_pointer d" by (simp only: facts_file_inj)
      with e have "k = pointer_key d" "v = (filesystem_scheme, deterministic_path d)"
        by (simp_all add: pointer_key_def fs_pointer_def)
      then show ?thesis by auto
    next
      case False
      with e show ?thesis by auto
    qed
  qed
  then show ?thesis by (simp add: pointers_backed_def)
qed

lemma fs_put_whole:
  "fs_write env = None \<Longrightarrow> snd (fs_put root env disk d) = disk
     \<or> snd (fs_put root env disk d) = disk(join_path [root, deterministic_path d] \<mapsto> d)"
  by (auto simp: fs_put_def Let_def simp del: join_path.simps split: option.splits)

lemma facts_put_evolves: "evolves rt cfg w (snd (fi_put (rs_facts_store (registration_of rt cfg)) d w))"
proof -
  obtain r disk where p: "fs_put (cf_facts_dir cfg) (se_fs (w_env w)) (w_disk w) d = (r, disk)" by fastforce
  have w': "snd (fi_put (rs_facts_store (registration_of rt cfg)) d w) = w\<lparr>w_disk := disk\<rparr>"
    using p by (simp add: registration_of_def server_facts_def)
  have "disk = w_disk w \<or> disk = (w_disk w)(facts_file cfg d \<mapsto> d)" if "writes_whole (w_env w)"
    using fs_put_whole [of "se_fs (w_env w)" "cf_facts_dir cfg" "w_disk w" d] that p
    by (simp add: writes_whole_def facts_file_def)
  then show ?thesis
    using pointers_backed_put [of cfg "w_disk w" "w_pointers w" d]
    by (auto simp: w' evolves_def server_wf_def grows_def audit_events_append_only_def)
qed

lemma row_backed_more:
  "row_backed rt cfg pointers row \<Longrightarrow> dom pointers \<subseteq> dom pointers' \<Longrightarrow> row_backed rt cfg pointers' row"
  unfolding row_backed_def by blast

lemma rows_backed_more:
  "rows_backed rt cfg pointers table \<Longrightarrow> dom pointers \<subseteq> dom pointers' \<Longrightarrow> rows_backed rt cfg pointers' table"
  unfolding rows_backed_def using row_backed_more by blast

lemma pointer_put_evolves:
  assumes "w_disk w (facts_file cfg d) = Some d"
  shows "evolves rt cfg w (snd (put_pointer (registration_of rt cfg) (fs_pointer d) w))"
proof -
  have "snd (put_pointer (registration_of rt cfg) (fs_pointer d) w) = w
      \<or> snd (put_pointer (registration_of rt cfg) (fs_pointer d) w)
         = w\<lparr>w_pointers := (w_pointers w)(pointer_key d \<mapsto> (filesystem_scheme, deterministic_path d))\<rparr>"
    by (auto simp: put_pointer_def registration_of_def server_pointers_def pg_put_pointer_def Let_def pointer_key_def
        fs_pointer_def split: option.splits)
  moreover have "pointers_backed cfg (w_disk w) ((w_pointers w)(pointer_key d \<mapsto> (filesystem_scheme, deterministic_path d)))"
    if "pointers_backed cfg (w_disk w) (w_pointers w)"
    using that assms by (auto simp: pointers_backed_def)
  moreover have "rows_backed rt cfg ((w_pointers w)(pointer_key d \<mapsto> v)) (w_index w)"
    if "rows_backed rt cfg (w_pointers w) (w_index w)" for v
    by (rule rows_backed_more [OF that]) auto
  ultimately show ?thesis by (auto simp: evolves_def server_wf_def grows_def audit_events_append_only_def)
qed

lemma written_backed:
  assumes wf: "index_wf rt table" and rows: "rows_backed rt cfg pointers table"
    and "row_backed rt cfg pointers (upsert_row (ie_now env) (it_rows table (arr_bytes h)) h agent_id record)"
  shows "rows_backed rt cfg pointers (written env table h agent_id record)"
proof -
  have "it_history (written env table h agent_id record) = it_history table
      \<or> (\<exists>hr row. it_history (written env table h agent_id record) = it_history table @ [hr]
           \<and> it_rows table (arr_bytes h) = Some row \<and> hr_row hr = row)"
    by (auto simp: written_def upsert_current_def archive_current_def split: option.split)
  with assms show ?thesis
    unfolding rows_backed_def by (auto simp: written_rows split: if_splits)
qed

lemma index_put_evolves:
  assumes commits: "lower_ok (rt_lower rt) \<Longrightarrow>
      record_commits rt (cf_private_key cfg) req agent_id (fs_pointer (rq_facts req)) record"
    and key: "w_pointers w (pointer_key (rq_facts req)) \<noteq> None"
  shows "evolves rt cfg w (snd (ii_put (rs_index_store (registration_of rt cfg)) agent_id record w))"
proof -
  obtain r table where p: "index_put rt (se_index_put (w_env w)) (w_index w) agent_id record = (r, table)" by fastforce
  have w': "snd (ii_put (rs_index_store (registration_of rt cfg)) agent_id record w) = w\<lparr>w_index := table\<rparr>"
    using p by (simp add: registration_of_def server_index_def)
  have new: "row_backed rt cfg (w_pointers w) (upsert_row now old h agent_id record)"
    if "lower_ok (rt_lower rt)" for now old h
    using commits [OF that] key by (auto simp: row_backed_def upsert_row_def)
  have "server_wf rt cfg (w\<lparr>w_index := table\<rparr>) \<and> grows w (w\<lparr>w_index := table\<rparr>)"
    if lower: "lower_ok (rt_lower rt)" and wf: "server_wf rt cfg w"
  proof -
    have ix: "index_wf rt (w_index w)" "rows_backed rt cfg (w_pointers w) (w_index w)"
      using wf by (simp_all add: server_wf_def)
    have "table = w_index w
        \<or> (\<exists>h. table = written (se_index_put (w_env w)) (w_index w) h agent_id record \<and> rows_newer (w_index w) table)"
      using index_put_cases [OF ix(1), of "se_index_put (w_env w)" agent_id "record"] p rows_newer_written [of "w_index w"]
      by (auto simp: Let_def)
    moreover have "index_wf rt table"
      using index_put_wf [OF ix(1), of "se_index_put (w_env w)" agent_id "record"] p by simp
    ultimately show ?thesis
      using wf written_backed [OF ix new [OF lower]] written_all_seqs [OF ix(1)]
      by (auto simp: server_wf_def grows_def audit_events_append_only_def written_def upsert_current_def archive_current_def split: option.split)
  qed
  then show ?thesis by (simp add: w' evolves_def)
qed

lemma append_evolves: "evolves rt cfg w (snd (ai_append (observed_audit rt) input w))"
proof -
  let ?w' = "snd (ai_append (observed_audit rt) input w)"
  have same: "stores_agree w ?w'" "w_revocations ?w' = w_revocations w" "w_env ?w' = w_env w"
    by (rule observed_append_agree observed_append_keeps)+
  have "audit_sound rt (w_audit ?w') \<and> audit_events_append_only (w_audit w) (w_audit ?w')"
    if "audit_sound rt (w_audit w)"
    using observed_append_cases [of rt input w]
  proof (elim disjE exE conjE)
    fix ev table' w'
    assume app: "ai_append (observed_audit rt) input w = (Inr ev, w')"
      and pg: "pg_append rt (se_audit (w_env w)) (w_audit w) input = (Inr ev, table')" and w': "w_audit w' = table'"
    note new = pg_append_Inr [OF pg]
    have "verify_events rt (table_events (w_audit w) @ [ev]) = None"
      using that new_event_Inr(1,2) [OF new(1)]
      by (auto simp: audit_sound_def verify_events_snoc pg_previous_hash_events)
    with that table_ok_insert [of "w_audit w" ev] new(2) w' app show ?thesis
      by (simp add: audit_sound_def table_events_def audit_events_append_only_def)
  qed (use that in \<open>simp add: audit_events_append_only_def\<close>)
  with same show ?thesis
    by (auto simp: evolves_def server_wf_def grows_def stores_agree_def)
qed

lemma revocation_set_evolves:
  "evolves rt cfg w (snd (vi_set (server_revocations rt) issuer credential st reason w))"
proof -
  obtain r table where p: "pg_set_status rt (se_revocation_set (w_env w)) (se_now (w_env w)) (w_revocations w)
      issuer credential st reason = (r, table)" by fastforce
  have "table = w_revocations w \<or> (\<exists>row. table = (w_revocations w)((issuer, credential) \<mapsto> row)
      \<and> status_update_ok issuer credential (row_status row))"
    using p by (auto simp: pg_set_status_def status_update_ok_def rv_validate_key_def rv_validate_status_def
        split: option.splits if_splits)
  then have "statuses_ok table \<and> dom (w_revocations w) \<subseteq> dom table" if "statuses_ok (w_revocations w)"
    using that by (auto simp: statuses_ok_def split: if_splits)
  with p show ?thesis by (auto simp: server_revocations_def evolves_def server_wf_def grows_def audit_events_append_only_def)
qed

subsection \<open>A registration\<close>

lemma facts_put_stored:
  assumes "fi_put (rs_facts_store (registration_of rt cfg)) d w = (Inr p, w1)"
  shows "p = fs_pointer d \<and> w_disk w1 (facts_file cfg d) = Some d"
  using assms fs_put_Inr [of "cf_facts_dir cfg" "se_fs (w_env w)" "w_disk w" d p]
  by (auto simp: registration_of_def server_facts_def facts_file_def split: prod.splits)

lemma pointer_put_stored:
  "put_pointer (registration_of rt cfg) (fs_pointer d) w = (None, w') \<Longrightarrow> w_pointers w' (pointer_key d) \<noteq> None"
  by (auto simp: put_pointer_None registration_of_def server_pointers_def pg_put_pointer_def Let_def
      pointer_key_def split: if_splits option.splits prod.splits)

lemma register_evolves: "evolves rt cfg w (snd (register rt (registration_of rt cfg) req w))"
proof (rule register_keeps [of "evolves rt cfg"])
  fix p w1
  assume put: "fi_put (rs_facts_store (registration_of rt cfg)) (rq_facts req) w = (Inr p, w1)"
  note stored = facts_put_stored [OF put]
  show "evolves rt cfg w1 (snd (put_pointer (registration_of rt cfg) p w1))"
    using stored by (simp add: pointer_put_evolves)
  fix w2 a cs "record"
  assume "put_pointer (registration_of rt cfg) p w1 = (None, w2)"
    and valid: "validate_register_request rt req = Inr a"
    and rec: "register_record rt (rs_private_key (registration_of rt cfg)) req a p = Inr (cs, record)"
  with stored have "w_pointers w2 (pointer_key (rq_facts req)) \<noteq> None" by (simp add: pointer_put_stored)
  moreover have "record_commits rt (cf_private_key cfg) req a (fs_pointer (rq_facts req)) record"
    if "lower_ok (rt_lower rt)"
    using register_record_commits(1) [OF rec agent_id_hash_fixpoint [OF that]] valid stored
    by (auto simp: validate_register_request_Inr registration_of_def)
  ultimately show "evolves rt cfg w2 (snd (ii_put (rs_index_store (registration_of rt cfg)) a record w2))"
    by (intro index_put_evolves)
qed (auto intro: evolves_trans facts_put_evolves audit_registration_keeps append_evolves)

subsection \<open>Whole requests\<close>

interpretation stores: kept_by_server rt cfg "evolves rt cfg"
  by unfold_locales
    (simp_all add: append_evolves register_evolves revocation_set_evolves evolves_same_stores same_stores_def,
      rule evolves_trans)

lemma serve_evolves:
  assumes "server_wf rt cfg w" and "lower_ok (rt_lower rt)" and "\<forall>(env, req) \<in> set reqs. writes_whole env"
  shows "server_wf rt cfg (snd (serve rt cfg reqs w)) \<and> grows w (snd (serve rt cfg reqs w))"
proof (rule serve_induct_world [of "\<lambda>w'. server_wf rt cfg w' \<and> grows w w'"])
  fix env req w1
  assume "(env, req) \<in> set reqs" and w1: "server_wf rt cfg w1 \<and> grows w w1"
  then have "writes_whole (w_env (w1\<lparr>w_env := env\<rparr>))" using assms(3) by auto
  then have "server_wf rt cfg (snd (server_handler rt cfg req (w1\<lparr>w_env := env\<rparr>)))
      \<and> grows (w1\<lparr>w_env := env\<rparr>) (snd (server_handler rt cfg req (w1\<lparr>w_env := env\<rparr>)))"
    using stores.keeps_server [of rt cfg "w1\<lparr>w_env := env\<rparr>" req] w1 assms(2) by (simp add: evolves_def)
  with w1 grows_trans show "server_wf rt cfg (snd (server_handler rt cfg req (w1\<lparr>w_env := env\<rparr>)))
      \<and> grows w (snd (server_handler rt cfg req (w1\<lparr>w_env := env\<rparr>)))" by auto
qed (use assms(1) in simp)

text \<open>The document of an indexed agent: its pointer is stored, the document is on the disk, and the
  record was signed for a request whose document has the pointer hash of the one found.\<close>

lemma indexed_document:
  assumes wf: "server_wf rt cfg w" and get: "index_get None local (w_index w) h = Inr ir"
  shows "\<exists>d req. pg_resolve_pointer None (w_pointers w) (p_facts_ptr_hash128 (payload_of (ix_record ir))) = Inr (fs_pointer d)
     \<and> fs_get rt (cf_facts_dir cfg) fs_ready (w_disk w) (fs_pointer d) = Inr d
     \<and> record_commits rt (cf_private_key cfg) req (ix_agent_id ir) (fs_pointer (rq_facts req)) (ix_record ir)
     \<and> pointer_hash128 (fs_pointer d) = pointer_hash128 (fs_pointer (rq_facts req))"
proof -
  have ix: "index_wf rt (w_index w)" "rows_backed rt cfg (w_pointers w) (w_index w)"
    "pointers_backed cfg (w_disk w) (w_pointers w)"
    using wf by (simp_all add: server_wf_def)
  obtain row where row: "it_rows (w_index w) (arr_bytes h) = Some row" "ir_record_bytes row = encode_record (ix_record ir)"
    using index_get_InrD(1) [OF ix(1) get] by blast
  have id: "ir_agent_id row = ix_agent_id ir"
    using index_get_wf [OF ix(1) row(1), of local] get by auto
  obtain req where req: "record_commits rt (cf_private_key cfg) req (ix_agent_id ir) (fs_pointer (rq_facts req)) (ix_record ir)"
    "w_pointers w (pointer_key (rq_facts req)) \<noteq> None"
  proof -
    have "row_backed rt cfg (w_pointers w) row" using ix(2) row(1) unfolding rows_backed_def by blast
    with that row(2) id show thesis unfolding row_backed_def by auto
  qed
  then obtain d where d: "pointer_key (rq_facts req) = pointer_key d"
    "w_pointers w (pointer_key (rq_facts req)) = Some (filesystem_scheme, deterministic_path d)"
    "w_disk w (facts_file cfg d) = Some d"
    using ix(3) unfolding pointers_backed_def by blast
  have hash: "p_facts_ptr_hash128 (payload_of (ix_record ir)) = pointer_hash128 (fs_pointer (rq_facts req))"
    using req(1) by (simp add: record_commits_def)
  have "pg_resolve_pointer None (w_pointers w) (p_facts_ptr_hash128 (payload_of (ix_record ir))) = Inr (fs_pointer d)"
    using d(2) by (simp add: hash pg_resolve_pointer_def pointer_key_def [symmetric] fs_pointer_def [of d])
  moreover have "fs_get rt (cf_facts_dir cfg) fs_ready (w_disk w) (fs_pointer d) = Inr d"
    using d(3) by (simp add: fs_get_pointer facts_file_def del: join_path.simps)
  ultimately show ?thesis
    using req(1) d(1) by (intro exI [of _ d] exI [of _ req]) (simp add: pointer_key_eq)
qed

text \<open>What a registration has published stays so under any requests, until a newer record of the agent
  replaces it. The one way out is another document with the same pointer hash.\<close>

lemma published_stays:
  assumes pub: "published rt (cf_facts_dir cfg) w agent_id d record row"
    and wf: "server_wf rt cfg w'" and grows: "grows w w'"
    and current: "\<And>row'. it_rows (w_index w') (arr_bytes (hash128 agent_id)) = Some row' \<Longrightarrow> \<not> ir_sequence row < ir_sequence row'"
  shows "published rt (cf_facts_dir cfg) w' agent_id d record row
     \<or> (\<exists>e. e \<noteq> d \<and> pointer_hash128 (fs_pointer e) = pointer_hash128 (fs_pointer d) \<and> w_disk w' (facts_file cfg e) = Some e)"
proof -
  have row: "it_rows (w_index w') (arr_bytes (hash128 agent_id)) = Some row"
  proof -
    have "it_rows (w_index w) (arr_bytes (hash128 agent_id)) = Some row" using pub by (simp add: published_def)
    then obtain row' where "it_rows (w_index w') (arr_bytes (hash128 agent_id)) = Some row'"
      "row' = row \<or> ir_sequence row < ir_sequence row'"
      using grows unfolding grows_def rows_newer_def by blast
    with current show ?thesis by auto
  qed
  have "pointer_key d \<in> dom (w_pointers w)" using pub by (auto simp: published_def pointer_key_def)
  then obtain v where v: "w_pointers w' (pointer_key d) = Some v" using grows by (auto simp: grows_def)
  then obtain e where e: "pointer_key d = pointer_key e" "v = (filesystem_scheme, deterministic_path e)"
    "w_disk w' (facts_file cfg e) = Some e"
    using wf unfolding server_wf_def pointers_backed_def by blast
  show ?thesis
  proof (cases "e = d")
    case True
    with e v row pub wf show ?thesis by (simp add: published_def server_wf_def pointer_key_def facts_file_def)
  next
    case False
    with e show ?thesis by (metis pointer_key_eq)
  qed
qed

subsection \<open>A write that fails\<close>

text \<open>\<open>os.WriteFile\<close> opens the file for writing before it writes: when the write fails, what the path
  held is gone.\<close>

lemma register_write_fails:
  assumes "validate_register_request rt req = Inr agent_id"
    and "fs_ctx (se_fs (w_env w)) = None" and "fs_mkdir (se_fs (w_env w)) = None"
    and "fs_write (se_fs (w_env w)) = Some (e, left)"
  shows "register rt (registration_of rt cfg) req w =
     (Inl (wrap_err ''store agent facts'' (wrap_err ''write facts file'' (ErrNew e))),
      w\<lparr>w_disk := (w_disk w)(facts_file cfg (rq_facts req) := left)\<rparr>)"
  using assms
  by (simp add: register_def registration_of_def server_facts_def fs_put_def facts_file_def Let_def del: join_path.simps)

lemma decode_facts_empty: "decode_facts rt [] = Inl (rt_json_error rt ''AgentFacts'' [])"
  by code_simp

lemma lost_document_unresolved:
  assumes pub: "published rt (cf_facts_dir cfg) w agent_id d record row"
    and ptr: "p_facts_ptr_hash128 (payload_of record) = pointer_hash128 (fs_pointer d)"
    and hash: "agent_id_hash rt agent_id = Inr (hash128 agent_id)"
    and later: "w_index w' = w_index w" "w_pointers w' = w_pointers w"
    and lost: "w_disk w' (facts_file cfg d) = Some left" "\<And>facts. decode_facts rt left \<noteq> Inr facts"
    and agent: "normalize_agent_id rt (rsq_agent_id q) = Inr agent_id"
  shows "\<exists>e. fst (resolve rt (resolver_of rt cfg) q w') = Inl e"
proof (rule ccontr)
  assume "\<not> ?thesis"
  then obtain resp w'' where "resolve rt (resolver_of rt cfg) q w' = (Inr resp, w'')"
    by (metis prod.collapse sum.exhaust_sel sum.collapse)
  then obtain a ir l1 p bytes facts where
    res: "resolution rt (resolver_of rt cfg) w' (se_now (w_env w')) q a ir l1 p bytes facts"
    unfolding resolve_Inr resolve_checks_Inr by (auto simp: resolver_of_def)
  have parts: "normalize_agent_id rt (rsq_agent_id q) = Inr a"
    "agent_id_hash rt a = Inr (p_agent_id_hash (payload_of (ix_record ir)))"
    "ii_get (server_index rt) (p_agent_id_hash (payload_of (ix_record ir))) w' = Inr ir"
    "pi_resolve server_pointers (p_facts_ptr_hash128 (payload_of (ix_record ir))) w' = Inr p"
    "fi_get (server_facts rt (cf_facts_dir cfg)) p w' = Inr bytes" "decode_facts rt bytes = Inr facts"
    using res by (simp_all add: resolution_def Let_def resolver_of_def)
  have a: "p_agent_id_hash (payload_of (ix_record ir)) = hash128 agent_id"
    using parts(1,2) agent hash by simp
  have "index_get None (se_zone (w_env w')) (w_index w) (hash128 agent_id) = Inr ir"
    using parts(3) a later(1) by (simp add: server_index_def index_get_def split: option.splits)
  from index_get_InrD(1) [OF _ this] pub have "ix_record ir = record"
    by (auto simp: published_def)
  then have p: "p = fs_pointer d"
    using parts(4) later(2) pub ptr
    by (simp add: server_pointers_def pg_resolve_pointer_def published_def fs_pointer_def split: option.splits)
  have "bytes = left"
    using parts(5) lost(1) unfolding p
    by (simp add: server_facts_def fs_get_def fs_pointer_def clean_deterministic_path facts_file_def
        del: join_path.simps split: option.splits)
  with lost(2) parts(6) show False by simp
qed

end
