(* ===== verification/Server_Http.thy ===== *)
theory Server_Http
  imports Server_Invariants
begin

text \<open>
  Whole requests: the request id every response carries, and what an authorised request to the
  registration and resolution routes gets. \<open>keeps_id\<close> says of a list of writer calls that the
  only request id they set is the given one.
\<close>

subsection \<open>Request ids\<close>

definition keeps_id :: "string \<Rightarrow> http_op list \<Rightarrow> bool" where
  "keeps_id i ops \<longleftrightarrow> (\<forall>v. SetHeader request_id_header v \<in> set ops \<longrightarrow> v = i)"

lemma keeps_id_simps [simp]:
  "keeps_id i []" "keeps_id i (xs @ ys) \<longleftrightarrow> keeps_id i xs \<and> keeps_id i ys"
  "keeps_id i (SetHeader request_id_header v # ops) \<longleftrightarrow> v = i \<and> keeps_id i ops"
  "keeps_id i (WriteHeader n # ops) \<longleftrightarrow> keeps_id i ops" "keeps_id i (WriteBody b # ops) \<longleftrightarrow> keeps_id i ops"
  by (auto simp: keeps_id_def)

lemma keeps_id_other [simp]: "k \<noteq> request_id_header \<Longrightarrow> keeps_id i (SetHeader k v # ops) \<longleftrightarrow> keeps_id i ops"
  by (auto simp: keeps_id_def)

lemma keeps_id_errors [simp]:
  "keeps_id i (encode_json v)" "keeps_id i (write_json_error n c m)" "keeps_id i (write_json v)"
  "keeps_id i (method_not_allowed m)" "keeps_id i internal_error"
  by (simp_all add: encode_json_def write_json_error_def write_json_def json_type_def method_not_allowed_def
      internal_error_def request_id_header_def split: sum.split)

lemma keeps_id_answers [simp]:
  "keeps_id i (register_error_ops e)" "keeps_id i (resolve_error_ops e)" "keeps_id i (admin_error_ops e)"
  "keeps_id i (answer f r)"
  by (simp_all add: register_error_ops_def resolve_error_ops_def admin_error_ops_def answer_def split: sum.split)

definition handler_keeps :: "'w handler \<Rightarrow> bool" where
  "handler_keeps h \<longleftrightarrow> (\<forall>req w. hq_context_id req \<noteq> [] \<longrightarrow> keeps_id (hq_context_id req) (fst (h req w)))"

lemma handler_keepsD: "handler_keeps h \<Longrightarrow> hq_context_id req \<noteq> [] \<Longrightarrow> keeps_id (hq_context_id req) (fst (h req w))"
  by (simp add: handler_keeps_def)

lemma with_method_keeps: "handler_keeps inner \<Longrightarrow> handler_keeps (with_method ids m inner)"
  by (simp add: handler_keeps_def with_method_ctx)

lemma with_bearer_auth_keeps: "handler_keeps inner \<Longrightarrow> handler_keeps (with_bearer_auth ids inner token)"
  by (auto simp: handler_keeps_def with_bearer_auth_def ensure_request_id_again split: prod.splits)
    (metis fst_conv)

lemma handlers_keep [intro]:
  "handler_keeps (register_agent_handler ids register_service)"
  "handler_keeps (resolve_agent_handler ids resolve_service)"
  "handler_keeps (admin_get_agent_handler ids service)"
  "handler_keeps (admin_list_audit_handler rt ids service)"
  "handler_keeps (admin_list_audit_by_agent_handler rt ids service)"
  "handler_keeps (admin_get_revocation_status_handler ids service)"
  "handler_keeps (admin_set_revocation_status_handler ids service)"
  unfolding register_agent_handler_def resolve_agent_handler_def admin_get_agent_handler_def
    admin_list_audit_handler_def admin_list_audit_by_agent_handler_def admin_get_revocation_status_handler_def
    admin_set_revocation_status_handler_def
  by (intro with_method_keeps;
      simp add: handler_keeps_def json_type_def request_id_header_def split: option.split sum.split prod.split)+

lemma plain_handlers_keep [intro]:
  "handler_keeps healthz_handler" "handler_keeps readyz_handler" "handler_keeps (metrics_handler registry_of)"
  by (simp_all add: handler_keeps_def healthz_handler_def readyz_handler_def metrics_handler_def write_status_def
        json_type_def method_not_allowed_def request_id_header_def split: option.split sum.split prod.split)

lemma find_route_keeps:
  assumes "\<forall>r \<in> set routes. handler_keeps (snd (snd r))" and "find_route routes segs = Some (pat, vs, h)"
  shows "handler_keeps h"
  using assms by (induction routes segs rule: find_route.induct) (auto split: option.splits)

lemma server_mux_keeps: "handler_keeps (mux (server_routes rt cfg))"
proof -
  have routes: "\<forall>r \<in> set (server_routes rt cfg). handler_keeps (snd (snd r))"
    by (auto simp: server_routes_def local_routes_def add_routes_def Let_def intro: with_bearer_auth_keeps)
  have none: "keeps_id i not_found_ops" for i by (simp add: not_found_ops_def request_id_header_def)
  have "keeps_id (hq_context_id req) (fst (h (req\<lparr>hq_path_value := path_value vs\<rparr>) w))"
    if "find_route (server_routes rt cfg) (hq_segments req) = Some (pat, vs, h)" "hq_context_id req \<noteq> []"
    for req w pat vs h
    using find_route_keeps [OF routes that(1)] handler_keepsD [of h "req\<lparr>hq_path_value := path_value vs\<rparr>"] that(2)
    by simp
  with none show ?thesis by (auto simp: handler_keeps_def mux_def split: option.split)
qed

lemma recorded_ops: "set (rc_ops (foldl recorder_op r ops)) \<subseteq> set (rc_ops r) \<union> set ops"
proof (induction ops arbitrary: r)
  case (Cons op ops)
  have "set (rc_ops (recorder_op r op)) \<subseteq> insert op (set (rc_ops r))"
    by (cases op) auto
  with Cons.IH [of "recorder_op r op"] show ?case by fastforce
qed simp

lemma header_kept:
  "keeps_id i ops \<Longrightarrow> hp_header r request_id_header = Some i \<Longrightarrow>
   hp_header (foldl apply_op r ops) request_id_header = Some i"
proof (induction ops arbitrary: r)
  case (Cons op ops)
  then show ?case by (cases op) (auto simp: keeps_id_def)
qed simp

lemma server_request_id:
  "\<exists>i. i \<noteq> [] \<and> hp_header (run_ops (fst (server_handler rt cfg req w))) request_id_header = Some i
     \<and> (request_id (Some req) \<noteq> [] \<longrightarrow> i = request_id (Some req))"
proof -
  obtain i w1 where i: "i \<noteq> []" "request_id (Some req) \<noteq> [] \<longrightarrow> i = request_id (Some req) \<and> w1 = w"
    and ops: "fst (server_handler rt cfg req w) =
      SetHeader request_id_header i
        # rc_ops (record_ops (fst (mux (server_routes rt cfg) (req\<lparr>hq_context_id := i\<rparr>) w1)))"
    by (rule server_handler_mux)
  have "keeps_id i (fst (mux (server_routes rt cfg) (req\<lparr>hq_context_id := i\<rparr>) w1))"
    using handler_keepsD [OF server_mux_keeps, of "req\<lparr>hq_context_id := i\<rparr>"] i(1) by simp
  then have "keeps_id i (rc_ops (record_ops (fst (mux (server_routes rt cfg) (req\<lparr>hq_context_id := i\<rparr>) w1))))"
    using recorded_ops [of "\<lparr>rc_status = 0, rc_ops = []\<rparr>"] by (fastforce simp: keeps_id_def record_ops_def)
  from header_kept [OF this] i show ?thesis
    by (intro exI [of _ i]) (simp add: ops run_ops_def fresh_response_def)
qed

subsection \<open>Authorised requests\<close>

definition authorised :: "local_config \<Rightarrow> http_request \<Rightarrow> bool" where
  "authorised cfg req \<longleftrightarrow>
     cf_api_token cfg = [] \<or> hq_header req ''Authorization'' = ''Bearer '' @ cf_api_token cfg"

lemma find_resolve_route:
  "find_route (server_routes rt cfg) [''v1'', ''resolve''] = Some (route_resolve, [],
     with_bearer_auth server_ids (resolve_agent_handler server_ids (resolve rt (resolver_of rt cfg))) (cf_api_token cfg))"
  by (simp add: server_routes_def local_routes_def add_routes_def Let_def)

lemma find_register_route:
  "find_route (server_routes rt cfg) [''v1'', ''agents'', ''register''] = Some (route_register, [],
     with_bearer_auth server_ids (register_agent_handler server_ids (register rt (registration_of rt cfg))) (cf_api_token cfg))"
  by (simp add: server_routes_def local_routes_def add_routes_def Let_def)

lemma status_after_id: "hp_status (run_ops ((if b then [] else [SetHeader k v]) @ ops)) = hp_status (run_ops ops)"
  by (simp add: status_after_header)

text \<open>What comes through the mux to an authorised handler.\<close>

lemma authorised_mux:
  assumes "find_route (server_routes rt cfg) (hq_segments req) =
      Some (pat, [], with_bearer_auth server_ids h (cf_api_token cfg))"
    and "authorised cfg req" and "hq_context_id req \<noteq> []"
  shows "hp_status (run_ops (fst (mux (server_routes rt cfg) req w)))
       = hp_status (run_ops (fst (h (req\<lparr>hq_path_value := path_value []\<rparr>) w)))"
    and "snd (mux (server_routes rt cfg) req w) = snd (h (req\<lparr>hq_path_value := path_value []\<rparr>) w)"
proof -
  have "mux (server_routes rt cfg) req w =
      with_bearer_auth server_ids h (cf_api_token cfg) (req\<lparr>hq_path_value := path_value []\<rparr>) w"
    using assms(1) by (simp add: mux_def)
  also have "\<dots> = ((if cf_api_token cfg = [] then [] else [SetHeader request_id_header (hq_context_id req)])
      @ fst (h (req\<lparr>hq_path_value := path_value []\<rparr>) w), snd (h (req\<lparr>hq_path_value := path_value []\<rparr>) w))"
    using assms(2,3) by (intro with_bearer_auth_accepts) (auto simp: authorised_def)
  finally show "hp_status (run_ops (fst (mux (server_routes rt cfg) req w)))
       = hp_status (run_ops (fst (h (req\<lparr>hq_path_value := path_value []\<rparr>) w)))"
    "snd (mux (server_routes rt cfg) req w) = snd (h (req\<lparr>hq_path_value := path_value []\<rparr>) w)"
    by (simp_all add: status_after_id)
qed

lemma find_revocation_route:
  "find_route (server_routes rt cfg) [''v1'', ''admin'', ''revocation''] = Some (route_admin_revocation, [],
     with_bearer_auth server_ids (admin_set_revocation_status_handler server_ids (admin_methods rt (admin_of rt)))
       (cf_api_token cfg))"
  by (simp add: server_routes_def local_routes_def add_routes_def Let_def)

text \<open>What the server does with an authorised request is what the handler of its route does, in a
  world that differs from the one the request came to by the request id at most.\<close>

lemma server_reaches:
  assumes "find_route (server_routes rt cfg) (hq_segments req) =
      Some (pat, [], with_bearer_auth server_ids h (cf_api_token cfg))"
    and "authorised cfg req"
  obtains req' w1 where "hq_context_id req' \<noteq> []" and "hq_method req' = hq_method req" and "hq_body req' = hq_body req"
    and "same_stores w w1"
    and "hp_status (run_ops (fst (server_handler rt cfg req w))) = hp_status (run_ops (fst (h req' w1)))"
    and "same_stores (snd (h req' w1)) (snd (server_handler rt cfg req w))"
proof -
  obtain i w1 where i: "i \<noteq> []" "same_stores w w1"
    and ops: "fst (server_handler rt cfg req w) =
      SetHeader request_id_header i
        # rc_ops (record_ops (fst (mux (server_routes rt cfg) (req\<lparr>hq_context_id := i\<rparr>) w1)))"
    and st: "same_stores (snd (mux (server_routes rt cfg) (req\<lparr>hq_context_id := i\<rparr>) w1))
      (snd (server_handler rt cfg req w))"
    by (rule server_handler_mux)
  let ?req = "req\<lparr>hq_context_id := i\<rparr>" and ?req' = "req\<lparr>hq_context_id := i, hq_path_value := path_value []\<rparr>"
  have route: "find_route (server_routes rt cfg) (hq_segments ?req) =
      Some (pat, [], with_bearer_auth server_ids h (cf_api_token cfg))"
    using assms(1) by simp
  have auth: "authorised cfg ?req" "hq_context_id ?req \<noteq> []" using assms(2) i(1) by (simp_all add: authorised_def)
  from that [of ?req' w1] authorised_mux [OF route auth, of w1] i st server_handler_status [OF ops] show thesis
    by simp
qed

lemma server_resolve_status:
  assumes "hq_segments req = [''v1'', ''resolve'']" and "hq_method req = ''POST''" and "authorised cfg req"
    and "decode_single decode_resolve_request (hq_body req) = Some r"
  shows "\<exists>w1. same_stores w w1
     \<and> hp_status (run_ops (fst (server_handler rt cfg req w))) =
         (case fst (resolve rt (resolver_of rt cfg) r w1) of Inl e \<Rightarrow> resolve_status e | Inr _ \<Rightarrow> 200)
     \<and> same_stores (snd (resolve rt (resolver_of rt cfg) r w1)) (snd (server_handler rt cfg req w))"
proof -
  note route = find_resolve_route [of rt cfg, folded assms(1)]
  obtain req' w1 where "hq_context_id req' \<noteq> []" "hq_method req' = ''POST''" "hq_body req' = hq_body req" "same_stores w w1"
    "hp_status (run_ops (fst (server_handler rt cfg req w)))
       = hp_status (run_ops (fst (resolve_agent_handler server_ids (resolve rt (resolver_of rt cfg)) req' w1)))"
    "same_stores (snd (resolve_agent_handler server_ids (resolve rt (resolver_of rt cfg)) req' w1))
       (snd (server_handler rt cfg req w))"
    by (rule server_reaches [OF route assms(3)]) (use assms(2) in auto)
  with assms(4) show ?thesis
    by (intro exI [of _ w1]) (simp add: resolve_handler_status, simp add: resolve_handler_eq)
qed

lemma server_register_status:
  assumes "hq_segments req = [''v1'', ''agents'', ''register'']" and "hq_method req = ''POST''" and "authorised cfg req"
    and "decode_single decode_register_request (hq_body req) = Some r"
  shows "\<exists>w1. same_stores w w1
     \<and> hp_status (run_ops (fst (server_handler rt cfg req w))) =
         (case fst (register rt (registration_of rt cfg) r w1) of Inl e \<Rightarrow> register_status e | Inr _ \<Rightarrow> 200)
     \<and> same_stores (snd (register rt (registration_of rt cfg) r w1)) (snd (server_handler rt cfg req w))"
proof -
  note route = find_register_route [of rt cfg, folded assms(1)]
  obtain req' w1 where "hq_context_id req' \<noteq> []" "hq_method req' = ''POST''" "hq_body req' = hq_body req" "same_stores w w1"
    "hp_status (run_ops (fst (server_handler rt cfg req w)))
       = hp_status (run_ops (fst (register_agent_handler server_ids (register rt (registration_of rt cfg)) req' w1)))"
    "same_stores (snd (register_agent_handler server_ids (register rt (registration_of rt cfg)) req' w1))
       (snd (server_handler rt cfg req w))"
    by (rule server_reaches [OF route assms(3)]) (use assms(2) in auto)
  with assms(4) show ?thesis
    by (intro exI [of _ w1]) (simp add: register_handler_status, simp add: register_handler_eq)
qed

text \<open>A POST route and the names of the fields its body may have.\<close>

definition unknown_name :: "string list \<Rightarrow> string \<Rightarrow> bool" where
  "unknown_name segs k \<longleftrightarrow>
     segs = [''v1'', ''resolve''] \<and> find_field resolve_fields k = None
     \<or> segs = [''v1'', ''agents'', ''register''] \<and> find_field register_fields k = None
     \<or> segs = [''v1'', ''admin'', ''revocation''] \<and> find_field revocation_fields k = None"

definition body_refused :: "string list \<Rightarrow> bytes \<Rightarrow> bool" where
  "body_refused segs body \<longleftrightarrow>
     segs = [''v1'', ''resolve''] \<and> decode_single decode_resolve_request body = None
     \<or> segs = [''v1'', ''agents'', ''register''] \<and> decode_single decode_register_request body = None
     \<or> segs = [''v1'', ''admin'', ''revocation''] \<and> decode_single decode_revocation_request body = None"

lemma server_bad_body:
  assumes "body_refused (hq_segments req) (hq_body req)" and "hq_method req = ''POST''" and "authorised cfg req"
  shows "hp_status (run_ops (fst (server_handler rt cfg req w))) = 400 \<and> same_stores w (snd (server_handler rt cfg req w))"
proof -
  obtain pat h where route: "find_route (server_routes rt cfg) (hq_segments req) =
      Some (pat, [], with_bearer_auth server_ids h (cf_api_token cfg))"
    and h: "\<And>req' w'. hq_context_id req' \<noteq> [] \<Longrightarrow> hq_method req' = ''POST'' \<Longrightarrow> hq_body req' = hq_body req \<Longrightarrow>
      hp_status (run_ops (fst (h req' w'))) = 400 \<and> snd (h req' w') = w'"
  proof -
    consider "hq_segments req = [''v1'', ''resolve'']" "decode_single decode_resolve_request (hq_body req) = None"
      | "hq_segments req = [''v1'', ''agents'', ''register'']" "decode_single decode_register_request (hq_body req) = None"
      | "hq_segments req = [''v1'', ''admin'', ''revocation'']" "decode_single decode_revocation_request (hq_body req) = None"
      using assms(1) by (auto simp: body_refused_def)
    then show thesis
    proof cases
      case 1
      show ?thesis
        by (rule that, unfold 1(1), rule find_resolve_route) (use 1(2) in \<open>simp_all add: bad_body_refused\<close>)
    next
      case 2
      show ?thesis
        by (rule that, unfold 2(1), rule find_register_route) (use 2(2) in \<open>simp_all add: bad_body_refused\<close>)
    next
      case 3
      show ?thesis
        by (rule that, unfold 3(1), rule find_revocation_route) (use 3(2) in \<open>simp_all add: bad_body_refused\<close>)
    qed
  qed
  obtain req' w1 where r: "hq_context_id req' \<noteq> []" "hq_method req' = ''POST''" "hq_body req' = hq_body req" "same_stores w w1"
    "hp_status (run_ops (fst (server_handler rt cfg req w))) = hp_status (run_ops (fst (h req' w1)))"
    "same_stores (snd (h req' w1)) (snd (server_handler rt cfg req w))"
    by (rule server_reaches [OF route assms(3)]) (use assms(2) in auto)
  with h [OF r(1-3), of w1] same_stores_trans [OF r(4)] show ?thesis by simp
qed

lemma unknown_member_body:
  assumes "unknown_name segs (clean_string k)" and "(k, j) \<in> set kvs"
    and "plain_at (Suc (Suc (Suc (Suc (Suc (Suc 0)))))) (JObj kvs)" and "list_all is_json_space ws"
  shows "body_refused segs (marshal (JObj kvs) @ ws)"
  using assms(1) unknown_member_refused [OF assms(2-4), of resolve_fields] unknown_member_refused [OF assms(2-4), of register_fields]
    unknown_member_refused [OF assms(2-4), of revocation_fields]
  unfolding unknown_name_def body_refused_def decode_resolve_request_def decode_register_request_def
    decode_revocation_request_def by blast

subsection \<open>Request counters\<close>

text \<open>Of the registry, \<open>same_requests\<close> keeps every counter of \<open>nanda_http_requests_total\<close>. The services
  count audit events only, so no handler touches them: a request is counted by the middleware alone.\<close>

definition same_requests :: "server_world \<Rightarrow> server_world \<Rightarrow> bool" where
  "same_requests w w' \<longleftrightarrow>
     (\<forall>labels. counter_value (w_registry w') (MetricKey ''nanda_http_requests_total'' labels)
             = counter_value (w_registry w) (MetricKey ''nanda_http_requests_total'' labels))"

lemma same_requests_refl [simp]: "same_requests w w"
  by (simp add: same_requests_def)

lemma same_requests_trans: "same_requests a b \<Longrightarrow> same_requests b c \<Longrightarrow> same_requests a c"
  by (simp add: same_requests_def)

lemma same_registry: "w_registry w' = w_registry w \<Longrightarrow> same_requests w w'"
  by (simp add: same_requests_def)

lemma observed_append_requests: "same_requests w (snd (ai_append (observed_audit rt) input w))"
  by (auto simp: observed_audit_def server_pg_audit_def observe_append_def on_registry_def same_requests_def
      inc_audit_events_def split: prod.splits sum.splits)

lemma registration_requests:
  "same_requests w (snd (fi_put (rs_facts_store (registration_of rt cfg)) d w))"
  "same_requests w (snd (put_pointer (registration_of rt cfg) p w))"
  "same_requests w (snd (ii_put (rs_index_store (registration_of rt cfg)) a r w))"
  by (auto simp: registration_of_def server_facts_def server_pointers_def server_index_def put_pointer_def
      intro: same_registry split: prod.splits option.splits)

lemma register_requests: "same_requests w (snd (register rt (registration_of rt cfg) req w))"
  by (rule register_keeps [of same_requests])
    (auto intro: same_requests_trans registration_requests audit_registration_keeps observed_append_requests)

interpretation requests: kept_by_requests rt cfg same_requests
  by unfold_locales
    (auto simp: server_revocations_def register_requests observed_append_requests
      intro: same_registry same_requests_trans split: prod.split)

lemma observe_request_is_None: "observe_request r m route status d = None \<longleftrightarrow> r = None"
  unfolding observe_request_def record_route_metrics_def inc_http_requests_def observe_http_request_def
    inc_registration_requests_def inc_resolve_requests_def inc_admin_requests_def inc_trust_denied_def
    inc_revocation_updates_def Let_def
  by (simp only: is_none_add if_distrib [where f = "\<lambda>x. x = None"] if_cancel)

text \<open>Every request is counted once, under its method, its route and the status it was answered with.\<close>

lemma server_counts_request:
  assumes "server_handler rt cfg req w = (ops, w')"
  shows "counter_value (w_registry w') (MetricKey ''nanda_http_requests_total'' labels) =
     counter_value (w_registry w) (MetricKey ''nanda_http_requests_total'' labels)
     + (if (MetricKey ''nanda_http_requests_total'' labels) = http_key (hq_method req)
            (route_for_request (Some req) (mux_pattern (server_routes rt cfg) req)) (final_status ops)
        then 1 else 0)"
proof -
  let ?mux = "mux (server_routes rt cfg)"
  obtain i w1 where e: "ensure_request_id server_ids req w = ([SetHeader request_id_header i], req\<lparr>hq_context_id := i\<rparr>, w1)"
    by (rule ensure_request_id_form)
  then have k1: "same_requests w w1" using requests.keeps_ids [of w req] by simp
  obtain ops2 w2 where m: "?mux (req\<lparr>hq_context_id := i\<rparr>) w1 = (ops2, w2)" by fastforce
  then have k2: "same_requests w w2"
    using same_requests_trans [OF k1 requests.keeps_mux] by (metis snd_conv)
  have route: "route_for_request (Some (req\<lparr>hq_context_id := i\<rparr>)) (mux_pattern (server_routes rt cfg) (req\<lparr>hq_context_id := i\<rparr>))
      = route_for_request (Some req) (mux_pattern (server_routes rt cfg) req)"
    by (simp add: mux_pattern_def route_for_request_def)
  have ops: "ops = SetHeader request_id_header i # rc_ops (record_ops ops2)"
    and w': "w' = on_registry (\<lambda>r. observe_request r (hq_method req)
        (route_for_request (Some req) (mux_pattern (server_routes rt cfg) req))
        (if rc_status (record_ops ops2) = 0 then 200 else rc_status (record_ops ops2)) (se_elapsed (w_env w2))) w2"
    using assms by (simp_all add: server_handler_def with_request_id_def e middleware_def m Let_def route)
  have status: "final_status ops = (if rc_status (record_ops ops2) = 0 then 200 else rc_status (record_ops ops2))"
    by (simp add: final_status_def ops status_after_header recorder_transparent Let_def)
  obtain r' where r': "observe_request (Some (w_registry w2)) (hq_method req)
        (route_for_request (Some req) (mux_pattern (server_routes rt cfg) req)) (final_status ops)
        (se_elapsed (w_env w2)) = Some r'"
    using observe_request_is_None [of "Some (w_registry w2)"] by (metis option.distinct(1) option.exhaust)
  have reg: "w_registry w' = r'" using r' by (simp add: w' status on_registry_def)
  have "counter_value r' (MetricKey ''nanda_http_requests_total'' labels) =
      counter_value (w_registry w2) (MetricKey ''nanda_http_requests_total'' labels)
      + (if (MetricKey ''nanda_http_requests_total'' labels) = http_key (hq_method req)
            (route_for_request (Some req) (mux_pattern (server_routes rt cfg) req)) (final_status ops)
         then 1 else 0)"
    using http_counter_step [of "Some (w_registry w2)"] r' by (metis counter_of_def option.distinct(1) option.simps(5))
  with k2 reg show ?thesis by (simp add: same_requests_def)
qed

subsection \<open>Starting\<close>

text \<open>The process starts exactly when its configuration loads and validates, the database answers and
  the migrations, when they are asked for, run; building the handler cannot fail then.\<close>

lemma start_Inr:
  assumes "\<forall>k. ce_generate_key (st_config env) = Inr k \<longrightarrow> length k = ed_private_key_size"
  shows "start rt env db = (Inr (cfg, h), db') \<longleftrightarrow>
     load_local rt (st_config env) = Inr cfg \<and> validate_runtime cfg = None
     \<and> st_open env (cf_postgres_dsn cfg) = None \<and> st_ping env = None
     \<and> start_migrations env cfg db = (None, db') \<and> h = server_handler rt cfg"
proof -
  have "new_local_handler rt c = Inr (server_handler rt c)" if "load_local rt (st_config env) = Inr c" for c
    by (rule new_local_handler_eq [OF load_local_config_ok [OF that assms]])
  then show ?thesis
    by (auto simp: start_def split: sum.splits option.splits prod.splits)
qed

end
