(* ===== verification/Http_Properties.thy ===== *)
theory Http_Properties
  imports Samples Server_Http
begin

text \<open>
  The properties of the server as its clients and operators see it: requests and responses, the
  metrics, the start of a server from its configuration, and its migrations.
\<close>

section \<open>Samples\<close>

definition sample_http_request :: http_request where
  "sample_http_request =
     \<lparr>hq_method = ''POST'', hq_path = ''/v1/resolve'', hq_segments = [''v1'', ''resolve''],
      hq_header = (\<lambda>_. []), hq_query = (\<lambda>_. []), hq_path_value = (\<lambda>_. []), hq_body = marshal (resolve_request_doc sample_resolve), hq_context_id = []\<rparr>"

definition sample_key :: bytes where
  "sample_key = replicate 64 (CHR ''k'')"

definition sample_lookup :: "string \<Rightarrow> string" where
  "sample_lookup n =
     (if n = ''NANDA_MODE'' then mode_production
      else if n = ''NANDA_PRIVATE_KEY_BASE64'' then b64_encode sample_key
      else if n = ''NANDA_POSTGRES_DSN'' then ''postgres''
      else if n = ''NANDA_API_TOKEN'' then ''token'' else [])"

definition sample_config_env :: config_env where
  "sample_config_env =
     \<lparr>ce_lookup = sample_lookup, ce_generate_key = Inl (ErrNew ''no entropy''),
      ce_read_file = (\<lambda>_. Inl ''no such file''), ce_b64_error = (\<lambda>_. ''illegal base64 data''),
      ce_visit = (\<lambda>es. es)\<rparr>"

lemma sample_key_ok: "b64_encode sample_key \<noteq> []" "length sample_key = ed_private_key_size"
  using b64_decode_encode [of sample_key] by (auto simp: sample_key_def ed_private_key_size_def)

section \<open>Access\<close>

text \<open>C13: When a token is configured, a request to anything but the health, readiness and metrics
  routes that does not carry exactly that token is answered with 401, or 404 where no route
  matches, and leaves every store as it was.\<close>

theorem unauthorized_changes_nothing:
  assumes "cf_api_token cfg \<noteq> []" and "\<not> public_path (hq_segments req)"
    and "hq_header req ''Authorization'' \<noteq> ''Bearer '' @ cf_api_token cfg"
  shows "hp_status (run_ops (fst (server_handler rt cfg req w)))
      = (if find_route (server_routes rt cfg) (hq_segments req) = None then 404 else 401)
    \<and> same_stores w (snd (server_handler rt cfg req w))"
  using assms by (rule server_unauthorized)

theorem unauthorized_changes_nothing_witness:
  "hp_status (run_ops (fst (server_handler sample_runtime sample_config sample_http_request sample_world)))
      = 401
   \<and> same_stores sample_world
       (snd (server_handler sample_runtime sample_config sample_http_request sample_world))"
proof -
  have hyps: "cf_api_token sample_config \<noteq> []" "\<not> public_path (hq_segments sample_http_request)"
    "hq_header sample_http_request ''Authorization'' \<noteq> ''Bearer '' @ cf_api_token sample_config"
    by (simp_all add: sample_config_def sample_http_request_def public_path_def)
  have "find_route (server_routes sample_runtime sample_config) (hq_segments sample_http_request) \<noteq> None"
    by (simp add: sample_http_request_def find_resolve_route)
  with unauthorized_changes_nothing [OF hyps] show ?thesis by simp
qed

text \<open>C34: A resolve or register request that carries the token and whose body decodes runs its
  service once, on the request the body stands for, and is answered with the status of the
  outcome: 200, or the one its error class has. The stores are left as the service leaves them.\<close>

theorem posts_over_http:
  assumes "hq_method req = ''POST''" and "authorised cfg req"
  shows "(hq_segments req = [''v1'', ''resolve''] \<longrightarrow> decode_single decode_resolve_request (hq_body req) = Some r \<longrightarrow>
      (\<exists>w1. same_stores w w1
         \<and> hp_status (run_ops (fst (server_handler rt cfg req w))) =
             (case fst (resolve rt (resolver_of rt cfg) r w1) of Inl e \<Rightarrow> resolve_status e | Inr _ \<Rightarrow> 200)
         \<and> same_stores (snd (resolve rt (resolver_of rt cfg) r w1)) (snd (server_handler rt cfg req w))))
   \<and> (hq_segments req = [''v1'', ''agents'', ''register''] \<longrightarrow>
      decode_single decode_register_request (hq_body req) = Some q \<longrightarrow>
      (\<exists>w1. same_stores w w1
         \<and> hp_status (run_ops (fst (server_handler rt cfg req w))) =
             (case fst (register rt (registration_of rt cfg) q w1) of Inl e \<Rightarrow> register_status e | Inr _ \<Rightarrow> 200)
         \<and> same_stores (snd (register rt (registration_of rt cfg) q w1)) (snd (server_handler rt cfg req w))))"
  using server_resolve_status [OF _ assms] server_register_status [OF _ assms] by blast

abbreviation sample_post :: http_request where
  "sample_post \<equiv> sample_http_request\<lparr>hq_header := (\<lambda>_. ''Bearer token'')\<rparr>"

theorem posts_over_http_witness:
  "(\<exists>w1. hp_status (run_ops (fst (server_handler sample_runtime sample_config sample_post sample_world))) =
     (case fst (resolve sample_runtime sample_service sample_resolve w1) of Inl e \<Rightarrow> resolve_status e | Inr _ \<Rightarrow> 200))
   \<and> (\<exists>w1. hp_status (run_ops (fst (server_handler sample_runtime sample_config
          (sample_post\<lparr>hq_segments := [''v1'', ''agents'', ''register''],
             hq_body := marshal (register_request_doc sample_request (facts_json sample_facts))\<rparr>) sample_world))) =
     (case fst (register sample_runtime (registration_of sample_runtime sample_config) sample_request w1)
        of Inl e \<Rightarrow> register_status e | Inr _ \<Rightarrow> 200))"
proof -
  let ?reg = "sample_post\<lparr>hq_segments := [''v1'', ''agents'', ''register''],
      hq_body := marshal (register_request_doc sample_request (facts_json sample_facts))\<rparr>"
  have hyps: "hq_method sample_post = ''POST''" "authorised sample_config sample_post"
    "hq_segments sample_post = [''v1'', ''resolve'']"
    "decode_single decode_resolve_request (hq_body sample_post) = Some sample_resolve"
    by (simp_all add: sample_http_request_def authorised_def sample_config_def sample_resolve_decoded)
  have reg: "hq_method ?reg = ''POST''" "authorised sample_config ?reg" "hq_segments ?reg = [''v1'', ''agents'', ''register'']"
    "decode_single decode_register_request (hq_body ?reg) = Some sample_request"
    by (simp_all add: sample_http_request_def authorised_def sample_config_def sample_register_decoded)
  show ?thesis
    using posts_over_http [OF hyps(1,2), of sample_resolve sample_world sample_runtime] hyps(3,4)
      posts_over_http [OF reg(1,2), of sample_resolve sample_world sample_runtime sample_request] reg(3,4)
    by blast
qed



text \<open>C22: The body a client makes with \<open>json.Marshal\<close> of one of the three requests, optional fields
  left out when they are empty and blanks after it, is decoded to that request; the facts
  document arrives byte for byte.\<close>

theorem client_bodies_decoded:
  assumes "list_all is_json_space ws"
  shows "(utf8 (rsq_agent_id r) \<longrightarrow> utf8 (rsq_required_capability r) \<longrightarrow>
       decode_single decode_resolve_request (marshal (resolve_request_doc r) @ ws) = Some r)
   \<and> (utf8 (rq_agent_id q) \<longrightarrow> rq_facts q = marshal facts \<longrightarrow> plain_at 5 facts \<longrightarrow>
       decode_single decode_register_request (marshal (register_request_doc q facts) @ ws) = Some q)
   \<and> (utf8 (vq_issuer v) \<longrightarrow> utf8 (vq_credential_id v) \<longrightarrow> utf8 (vq_status v) \<longrightarrow> utf8 (vq_reason v) \<longrightarrow>
       decode_single decode_revocation_request (marshal (revocation_request_doc v) @ ws) = Some v)"
  using resolve_doc_decoded [OF _ _ assms, of r] register_doc_decoded [OF _ _ _ assms, of q facts]
    revocation_doc_decoded [OF _ _ _ _ assms, of v]
  by (simp add: eval_nat_numeral)

theorem client_bodies_decoded_witness:
  "decode_single decode_revocation_request (marshal (revocation_request_doc sample_revocation) @ '' '') = Some sample_revocation"
proof -
  have "list_all is_json_space '' ''" by (simp add: is_json_space_def)
  from client_bodies_decoded [OF this, of _ _ _ sample_revocation] show ?thesis
    by (simp add: sample_revocation_def utf8_def status_revoked_def del: marshal.simps)
qed

section \<open>Metrics\<close>

text \<open>C29: Every request adds one to exactly one request counter (modulo two to the 64), that of its
  method, its route and the status it is answered with, and the route label is one of a fixed
  set whatever path the client asks for.\<close>

theorem requests_counted_once:
  assumes "server_handler rt cfg req w = (ops, w')"
  shows "\<exists>route \<in> known_routes. \<forall>labels.
     counter_value (w_registry w') (MetricKey ''nanda_http_requests_total'' labels) =
     counter_value (w_registry w) (MetricKey ''nanda_http_requests_total'' labels)
     + (if (MetricKey ''nanda_http_requests_total'' labels) = http_key (hq_method req) route (final_status ops) then 1 else 0)"
  by (rule bexI [of _ "route_for_request (Some req) (mux_pattern (server_routes rt cfg) req)"])
    (use server_counts_request [OF assms] route_for_request_known in \<open>blast+\<close>)

theorem requests_counted_once_witness:
  "\<exists>ops w' route. server_handler sample_runtime sample_config sample_http_request sample_world = (ops, w')
     \<and> counter_value (w_registry w') (http_key ''POST'' route (final_status ops)) = 1"
proof -
  obtain ops w' where h: "server_handler sample_runtime sample_config sample_http_request sample_world = (ops, w')"
    by fastforce
  have zero: "counter_value (w_registry sample_world) k = 0" for k
    by (simp add: sample_world_def new_registry_def counter_value_def)
  have "hq_method sample_http_request = ''POST''" by (simp add: sample_http_request_def)
  with requests_counted_once [OF h] obtain route where
    "\<forall>labels. counter_value (w_registry w') (MetricKey ''nanda_http_requests_total'' labels) =
       (if (MetricKey ''nanda_http_requests_total'' labels) = http_key ''POST'' route (final_status ops) then 1 else 0)"
    by (auto simp: zero)
  then have "counter_value (w_registry w') (http_key ''POST'' route (final_status ops)) = 1"
    by (simp add: http_key_def)
  with h show ?thesis by blast
qed





section \<open>Starting a server\<close>

text \<open>C19: A process that starts in production mode signs with a key that was supplied, not generated,
  and checks with the public half of that key; it has touched the database only if migrations were
  asked for; and nobody without the token gets past 401 or 404 on a guarded route or changes a
  store.\<close>

theorem production_server_guarded:
  assumes "start rt env db = (Inr (cfg, h), db')" and "cf_mode cfg = mode_production"
    and "\<forall>k. ce_generate_key (st_config env) = Inr k \<longrightarrow> length k = ed_private_key_size"
  shows "\<not> cf_ephemeral_key cfg \<and> cf_public_key cfg = ed_public (cf_private_key cfg)
     \<and> (\<not> cf_auto_migrate cfg \<longrightarrow> db' = db)
     \<and> (\<forall>req w. \<not> public_path (hq_segments req)
           \<longrightarrow> hq_header req ''Authorization'' \<noteq> ''Bearer '' @ cf_api_token cfg
           \<longrightarrow> hp_status (run_ops (fst (h req w))) \<in> {401, 404} \<and> same_stores w (snd (h req w)))"
proof -
  from assms(1) have started: "load_local rt (st_config env) = Inr cfg" "validate_runtime cfg = None"
    "start_migrations env cfg db = (None, db')" "h = server_handler rt cfg"
    by (simp_all add: start_Inr [OF assms(3)])
  have token: "cf_api_token cfg \<noteq> []" "\<not> cf_ephemeral_key cfg"
    using started(2) assms(2) by (simp_all add: validate_runtime_None)
  have "hp_status (run_ops (fst (h req w))) \<in> {401, 404} \<and> same_stores w (snd (h req w))"
    if "\<not> public_path (hq_segments req)" "hq_header req ''Authorization'' \<noteq> ''Bearer '' @ cf_api_token cfg" for req w
    using server_unauthorized [OF token(1) that, of rt w] started(4) by simp
  moreover have "\<not> cf_auto_migrate cfg \<longrightarrow> db' = db"
    using started(3) by (auto simp: start_migrations_def)
  ultimately show ?thesis
    using token(2) load_local_Inr(2) [OF started(1) assms(3)] by simp
qed

definition sample_start :: "bytes list start_env" where
  "sample_start =
     \<lparr>st_config = sample_config_env, st_open = (\<lambda>_. None), st_ping = None, st_is_dir = (\<lambda>_. False),
      st_glob = (\<lambda>_. []), st_read = (\<lambda>f. Inr f), st_exec = (\<lambda>sql db. (None, db @ [sql]))\<rparr>"

theorem production_server_guarded_witness:
  "\<exists>cfg h db'. start sample_runtime sample_start [] = (Inr (cfg, h), db')
     \<and> cf_mode cfg = mode_production \<and> \<not> cf_ephemeral_key cfg \<and> db' = []"
proof -
  note key = sample_key_ok
  then have "load_private_key sample_config_env (b64_encode sample_key) = Inr (sample_key, False)"
    by (simp add: load_private_key_def b64_decode_encode)
  then have load: "\<exists>cfg. load_local sample_runtime sample_config_env = Inr cfg \<and> cf_mode cfg = mode_production
      \<and> cf_private_key cfg = sample_key \<and> \<not> cf_ephemeral_key cfg \<and> cf_postgres_dsn cfg \<noteq> [] \<and> cf_api_token cfg \<noteq> []
      \<and> \<not> cf_auto_migrate cfg"
    using key(1) by (simp add: load_local_def sample_config_env_def sample_lookup_def value_or_default_def
        load_public_key_def load_trusted_issuers_def Let_def mode_production_def should_auto_migrate_def mode_local_def)
  have gen: "\<forall>k. ce_generate_key (st_config sample_start) = Inr k \<longrightarrow> length k = ed_private_key_size"
    by (simp add: sample_start_def sample_config_env_def)
  from load obtain cfg where cfg: "load_local sample_runtime sample_config_env = Inr cfg" "validate_runtime cfg = None"
    "cf_mode cfg = mode_production" "\<not> cf_auto_migrate cfg"
    using key(2) by (auto simp: validate_runtime_None)
  then have start: "start sample_runtime sample_start []
      = (Inr (cfg, server_handler sample_runtime cfg), [])"
    unfolding start_Inr [OF gen] by (simp add: sample_start_def start_migrations_def)
  from production_server_guarded [OF start cfg(3) gen] start cfg(3) show ?thesis by blast
qed

text \<open>The files ran one after the other, each without an error.\<close>

fun files_applied ::
  "(string \<Rightarrow> os_error + bytes) \<Rightarrow> (bytes \<Rightarrow> 'd \<Rightarrow> db_error option \<times> 'd) \<Rightarrow> string list \<Rightarrow> 'd \<Rightarrow> 'd \<Rightarrow> bool" where
  "files_applied read exec [] db db' \<longleftrightarrow> db' = db"
| "files_applied read exec (f # fs) db db' \<longleftrightarrow>
     (case read f of Inl _ \<Rightarrow> False
      | Inr sql \<Rightarrow> (case exec sql db of (Some _, _) \<Rightarrow> False | (None, d) \<Rightarrow> files_applied read exec fs d db'))"

definition file_fails ::
  "(string \<Rightarrow> os_error + bytes) \<Rightarrow> (bytes \<Rightarrow> 'd \<Rightarrow> db_error option \<times> 'd) \<Rightarrow> string \<Rightarrow> 'd \<Rightarrow> 'd \<Rightarrow> bool" where
  "file_fails read exec f db db' \<longleftrightarrow>
     (case read f of Inl _ \<Rightarrow> db' = db | Inr sql \<Rightarrow> \<exists>e. exec sql db = (Some e, db'))"

lemma apply_migrations_None:
  "apply_migrations read exec fs db = (None, db') \<longleftrightarrow> files_applied read exec fs db db'"
  by (induction read exec fs db rule: apply_migrations.induct) (auto split: sum.splits prod.splits option.splits)

lemma apply_migrations_Some:
  "apply_migrations read exec fs db = (Some e, db') \<Longrightarrow>
   \<exists>before f after d. fs = before @ f # after \<and> files_applied read exec before db d \<and> file_fails read exec f d db'"
proof (induction fs arbitrary: db)
  case (Cons f fs)
  show ?case
  proof (cases "\<exists>sql d. read f = Inr sql \<and> exec sql db = (None, d)")
    case True
    then obtain sql d where f: "read f = Inr sql" "exec sql db = (None, d)" by blast
    with Cons.prems have "apply_migrations read exec fs d = (Some e, db')" by simp
    from Cons.IH [OF this] obtain before g after d' where
      "fs = before @ g # after" "files_applied read exec before d d'" "file_fails read exec g d' db'" by blast
    with f show ?thesis
      by (intro exI [of _ "f # before"] exI [of _ g] exI [of _ after] exI [of _ d']) simp
  next
    case False
    with Cons.prems have "file_fails read exec f db db'"
      by (auto simp: file_fails_def split: sum.splits prod.splits option.splits)
    then show ?thesis by (intro exI [of _ "[]"] exI [of _ f] exI [of _ fs] exI [of _ db]) simp
  qed
qed simp

text \<open>The migrations run in the order of their names. Success means that there was at least one
  and every one ran; a failure leaves the database as the files before the failing one, and what
  that one did before it failed, leave it: no later file runs.\<close>

lemma migrations_in_order:
  assumes "find_migrations_dir is_dir = Inr dir"
  shows "case run_migrations is_dir glob read exec db of
     (None, db') \<Rightarrow> glob dir \<noteq> [] \<and> files_applied read exec (sort (glob dir)) db db'
   | (Some e, db') \<Rightarrow> glob dir = [] \<and> db' = db
       \<or> (\<exists>before f after d. sort (glob dir) = before @ f # after
            \<and> files_applied read exec before db d \<and> file_fails read exec f d db')"
proof (cases "apply_migrations read exec (sort (glob dir)) db")
  case (Pair r db')
  show ?thesis
  proof (cases r)
    case None
    then have "files_applied read exec (sort (glob dir)) db db'"
      using Pair by (simp add: apply_migrations_None [symmetric])
    with None Pair assms show ?thesis by (simp add: run_migrations_def Let_def)
  next
    case (Some e)
    with apply_migrations_Some [of read exec "sort (glob dir)" db e db'] Pair assms show ?thesis
      by (simp add: run_migrations_def Let_def)
  qed
qed

section \<open>The trusted issuers\<close>

text \<open>C35: The configuration does not depend on the order in which Go visits the map of the trusted
  issuers. When it loads in one order it loads in every order, with the same settings, and the
  verifiers made from it give the same verdict on every set of credentials.\<close>

theorem trusted_issuers_order_independent:
  assumes "load_local rt env = Inr cfg" and "visits_once env" and "visits_once (env\<lparr>ce_visit := visit\<rparr>)"
  shows "\<exists>issuers. load_local rt (env\<lparr>ce_visit := visit\<rparr>) = Inr (cfg\<lparr>cf_trusted_issuers := issuers\<rparr>)
     \<and> (\<forall>checker v. new_verifier (cf_trusted_issuers cfg) checker = Inr v \<longrightarrow>
          (\<exists>v'. new_verifier issuers checker = Inr v'
             \<and> (\<forall>cs agent capability now.
                  verify_capability rt v' cs agent capability now = verify_capability rt v cs agent capability now)))"
proof -
  obtain issuers where l: "load_local rt (env\<lparr>ce_visit := visit\<rparr>) = Inr (cfg\<lparr>cf_trusted_issuers := issuers\<rparr>)"
    and m: "map_of issuers = map_of (cf_trusted_issuers cfg)" and ok: "issuers_ok issuers"
    using load_local_order [OF assms] by blast
  have "\<exists>v'. new_verifier issuers checker = Inr v'
      \<and> (\<forall>cs agent capability now.
           verify_capability rt v' cs agent capability now = verify_capability rt v cs agent capability now)"
    if v: "new_verifier (cf_trusted_issuers cfg) checker = Inr v" for checker v
  proof (intro exI conjI allI)
    show "new_verifier issuers checker = Inr \<lparr>tv_issuers = issuers, tv_revocation_checker = checker\<rparr>"
      by (rule new_verifier_ok [OF ok])
    show "verify_capability rt \<lparr>tv_issuers = issuers, tv_revocation_checker = checker\<rparr> cs agent capability now
        = verify_capability rt v cs agent capability now" for cs agent capability now
      using new_verifier_Inr [OF v] m by (intro verify_capability_issuers) simp_all
  qed
  with l show ?thesis by blast
qed

abbreviation sample_issuers_env :: config_env where
  "sample_issuers_env \<equiv> sample_config_env\<lparr>ce_lookup := sample_lookup(''NANDA_TRUST_ISSUERS_JSON'' := ''{}'')\<rparr>"

theorem trusted_issuers_order_independent_witness:
  "\<exists>cfg issuers. load_local sample_runtime sample_issuers_env = Inr cfg
     \<and> load_local sample_runtime (sample_issuers_env\<lparr>ce_visit := rev\<rparr>) = Inr (cfg\<lparr>cf_trusted_issuers := issuers\<rparr>)"
proof -
  have "unmarshal dec_string_map None ''{}'' = Some (Some [])" by code_simp
  with sample_key_ok have "\<exists>cfg. load_local sample_runtime sample_issuers_env = Inr cfg"
    by (simp add: load_local_def load_private_key_def load_public_key_def load_trusted_issuers_def
        parse_trusted_issuers_def sample_config_env_def sample_lookup_def
        b64_decode_encode value_or_default_def Let_def)
  then obtain cfg where cfg: "load_local sample_runtime sample_issuers_env = Inr cfg" by blast
  have visits: "visits_once sample_issuers_env" "visits_once (sample_issuers_env\<lparr>ce_visit := rev\<rparr>)"
    by (simp_all add: visits_once_def sample_config_env_def)
  from trusted_issuers_order_independent [OF cfg visits] cfg show ?thesis by blast
qed

section \<open>Administration\<close>

text \<open>What an administrator sets is what an administrator reads: after an accepted update the
  status, the reason and the time of the credential are returned as set, and the status of no
  other credential has changed.\<close>

lemma revocation_roundtrip:
  assumes "set_revocation_status rt (admin_of rt) req w = (Inr resp, w1)"
    and "w_revocations w2 = w_revocations w1" and "se_revocation_get (w_env w2) = None"
  shows "get_revocation_status (admin_of rt) w2 (vq_issuer req) (vq_credential_id req) =
       Inr \<lparr>vr_issuer = vq_issuer req, vr_credential_id = vq_credential_id req, vr_status = vq_status req,
            vr_reason = vq_reason req, vr_found = True, vr_updated_at = Some (time_utc (se_now (w_env w)))\<rparr>
     \<and> (\<forall>k. k \<noteq> (vq_issuer req, vq_credential_id req) \<longrightarrow> w_revocations w1 k = w_revocations w k)"
proof -
  note row = admin_sets_row [OF assms(1)]
  have "vq_issuer req \<noteq> []" "vq_credential_id req \<noteq> []"
    using set_revocation_status_Inr(2) [OF assms(1)] by (simp_all add: status_update_ok_def)
  with row assms(2,3) show ?thesis
    by (simp add: get_revocation_status_def admin_of_def server_revocations_def pg_get_status_def
        rv_validate_key_def scan_revocation_def)
qed

lemma revocation_roundtrip_witness:
  "\<exists>w1 r. get_revocation_status (admin_of sample_runtime) (w1\<lparr>w_env := sample_env\<rparr>) ''i'' ''x'' = Inr r
     \<and> vr_status r = status_revoked \<and> vr_reason r = ''lost''"
proof -
  obtain rresp w1 where rev: "set_revocation_status sample_runtime (admin_of sample_runtime) sample_revocation sample_world
      = (Inr rresp, w1)"
    by (rule sample_revoked)
  have "w_revocations (w1\<lparr>w_env := sample_env\<rparr>) = w_revocations w1"
    "se_revocation_get (w_env (w1\<lparr>w_env := sample_env\<rparr>)) = None" by (simp_all add: sample_env_def)
  from revocation_roundtrip [OF rev this] show ?thesis
    by (intro exI [of _ w1]) (simp add: sample_revocation_def)
qed

text \<open>A page without events is a nil slice on Postgres and prints as \<open>null\<close>, where the memory store
  prints an empty array.\<close>

lemma empty_page_prints_null:
  assumes "pg_query rt reader table query = Inr r" and "lr_items r = []"
  shows "\<exists>fields. list_result_json r = Inr (JObj ((''items'', JNull) # fields))"
proof -
  have "lr_items_nil r" using assms by (auto simp: pg_query_def split: sum.splits option.splits)
  with assms(2) show ?thesis by (simp add: list_result_json_def)
qed

end
