(* ===== verification/System_Properties.thy ===== *)
theory System_Properties
  imports Service_Properties Http_Properties
begin

text \<open>
  The properties of the stores under whole runs of requests: what every run keeps, what can be found
  for each agent of the index after it, and what one failed write of the disk undoes.
\<close>

section \<open>Samples\<close>

abbreviation sample_register_post :: http_request where
  "sample_register_post \<equiv> sample_post\<lparr>hq_segments := [''v1'', ''agents'', ''register''],
     hq_body := marshal (register_request_doc sample_request (facts_json sample_facts))\<rparr>"

definition sample_run :: "(server_env \<times> http_request) list" where
  "sample_run = [(sample_env, sample_register_post), (sample_env, sample_post)]"

lemma sample_lower: "lower_ok (rt_lower sample_runtime)"
  using sample_lower_ok by simp

lemma sample_world_wf: "server_wf sample_runtime sample_config sample_world"
  by (simp add: server_wf_def sample_world_def audit_sound_def table_ok_def table_events_def verify_events_def
      pointers_backed_def rows_backed_def statuses_ok_def empty_index_def [symmetric])
    (simp add: empty_index_def)

lemma sample_run_whole: "\<forall>(env, req) \<in> set sample_run. writes_whole env"
  by (simp add: sample_run_def writes_whole_def sample_env_def fs_ready_def)

lemma sample_run_indexed:
  "\<exists>ir. index_get None (\<lambda>_. 0)
     (w_index (snd (serve sample_runtime sample_config [(sample_env, sample_register_post)] sample_world))) (hash128 ''a'') = Inr ir"
proof -
  let ?h = "server_handler sample_runtime sample_config sample_register_post sample_world"
  have env: "sample_world\<lparr>w_env := sample_env\<rparr> = sample_world" by (simp add: sample_world_def)
  have post: "hq_segments sample_register_post = [''v1'', ''agents'', ''register'']" "hq_method sample_register_post = ''POST''"
    "authorised sample_config sample_register_post"
    "decode_single decode_register_request (hq_body sample_register_post) = Some sample_request"
    by (simp_all add: sample_http_request_def authorised_def sample_config_def sample_register_decoded)
  obtain w1 where w1: "same_stores sample_world w1"
    "same_stores (snd (register sample_runtime (registration_of sample_runtime sample_config) sample_request w1)) (snd ?h)"
    using server_register_status [OF post, where rt = sample_runtime and w = sample_world] by blast
  obtain cs where cs: "credential_set_hash128 (af_credentials sample_facts) = Inr cs"
    using sample_set_hash by blast
  have hyps: "validate_register_request sample_runtime sample_request = Inr ''a''" "index_wf sample_runtime (w_index w1)"
    "length (cf_private_key sample_config) = ed_private_key_size" "writes_ready (w_env w1)" "audit_ready (se_audit (w_env w1))"
    "decode_facts sample_runtime (rq_facts sample_request) = Inr sample_facts"
    "newer_than_current (w_index w1) (hash128 ''a'') (rq_sequence sample_request)"
    using w1(1) sample_config_ok by (simp_all add: same_stores_def newer_than_current_def config_ok_def)
  obtain resp w2 where reg: "register sample_runtime (registration_of sample_runtime sample_config) sample_request w1 = (Inr resp, w2)"
    using register_succeeds [OF hyps(1,2) sample_lower hyps(3-6) cs hyps(7)] by blast
  obtain agent "record" row where pub: "validate_register_request sample_runtime sample_request = Inr agent"
    "published sample_runtime (cf_facts_dir sample_config) w2 agent (rq_facts sample_request) record row"
    using register_publishes [OF reg hyps(2) sample_lower] by blast
  have "index_wf sample_runtime (w_index (snd ?h))"
    and "it_rows (w_index (snd ?h)) (arr_bytes (hash128 ''a'')) = Some row"
    using pub w1(2) reg hyps(1) by (simp_all add: published_def same_stores_def)
  from index_get_wf [OF this, of "\<lambda>_. 0"] show ?thesis
    by (auto simp: env case_prod_unfold Let_def)
qed

section \<open>Runs of requests\<close>

text \<open>C5: Whatever requests the server is sent, in whatever order and whatever the clock and the
  database do, its stores stay consistent with each other as long as no write of the disk stops half
  way: the index is well formed, the audit chain verifies, every stored pointer leads to its
  document, and every record, current or archived, was signed by this server for a valid request
  whose pointer is stored; so the tables meet the constraints of the migrations. And nothing recorded
  is lost: sequences, archived records and events are only added.\<close>

theorem requests_keep_stores:
  assumes "server_wf rt cfg w" and "lower_ok (rt_lower rt)"
    and "\<forall>(env, req) \<in> set reqs. writes_whole env"
  shows "server_wf rt cfg (snd (serve rt cfg reqs w)) \<and> schema_ok (snd (serve rt cfg reqs w))
     \<and> grows w (snd (serve rt cfg reqs w))"
  using serve_evolves [OF assms] server_wf_schema by blast

theorem requests_keep_stores_witness:
  "server_wf sample_runtime sample_config (snd (serve sample_runtime sample_config sample_run sample_world))"
  using requests_keep_stores [OF sample_world_wf sample_lower sample_run_whole] by blast

text \<open>C6: After any such run, each agent of the index can be followed to its document: the record
  verifies under the server's key, its pointer hash is stored, the document is on the disk under
  the pointer, and the record commits to a request for this agent whose document has that pointer
  hash.\<close>

theorem indexed_agents_have_documents:
  assumes "server_wf rt cfg w" and "lower_ok (rt_lower rt)" and "keypair_ok rt (cf_private_key cfg)"
    and "\<forall>(env, req) \<in> set reqs. writes_whole env"
    and "index_get None local (w_index (snd (serve rt cfg reqs w))) h = Inr ir"
  shows "verify_record rt (ix_record ir) (ed_public (cf_private_key cfg)) = None
     \<and> (\<exists>d req. pg_resolve_pointer None (w_pointers (snd (serve rt cfg reqs w)))
             (p_facts_ptr_hash128 (payload_of (ix_record ir))) = Inr (fs_pointer d)
          \<and> fs_get rt (cf_facts_dir cfg) fs_ready (w_disk (snd (serve rt cfg reqs w))) (fs_pointer d) = Inr d
          \<and> record_commits rt (cf_private_key cfg) req (ix_agent_id ir) (fs_pointer (rq_facts req)) (ix_record ir)
          \<and> pointer_hash128 (fs_pointer d) = pointer_hash128 (fs_pointer (rq_facts req)))"
  using indexed_document [OF serve_evolves [OF assms(1,2,4), THEN conjunct1] assms(5)]
    record_commits_verifies [OF _ assms(3)] by blast

theorem indexed_agents_have_documents_witness:
  "\<exists>ir d. index_get None (\<lambda>_. 0)
       (w_index (snd (serve sample_runtime sample_config [(sample_env, sample_register_post)] sample_world))) (hash128 ''a'') = Inr ir
     \<and> fs_get sample_runtime (cf_facts_dir sample_config) fs_ready
         (w_disk (snd (serve sample_runtime sample_config [(sample_env, sample_register_post)] sample_world))) (fs_pointer d) = Inr d"
proof -
  obtain ir where ir: "index_get None (\<lambda>_. 0)
      (w_index (snd (serve sample_runtime sample_config [(sample_env, sample_register_post)] sample_world))) (hash128 ''a'') = Inr ir"
    using sample_run_indexed by blast
  have "\<forall>(env, req) \<in> set [(sample_env, sample_register_post)]. writes_whole env"
    using sample_run_whole by (simp add: sample_run_def)
  from indexed_agents_have_documents [OF sample_world_wf sample_lower sample_config_keypair this ir] ir
  show ?thesis by blast
qed




section \<open>A failed write\<close>

text \<open>C39: A registration that is sent again and whose write of the document fails with nothing written
  yet is answered with an error, but the document that was stored is gone: index and pointers still
  publish the agent, and every resolution of it fails from then on, until a registration writes the
  document again.\<close>

theorem failed_rewrite_loses_document:
  assumes "register rt (registration_of rt cfg) req w = (Inr resp, w1)"
    and "index_wf rt (w_index w)" and "lower_ok (rt_lower rt)"
    and "fs_ctx (se_fs env) = None" and "fs_mkdir (se_fs env) = None" and "fs_write (se_fs env) = Some (e, Some [])"
  shows "\<exists>err w2. register rt (registration_of rt cfg) req (w1\<lparr>w_env := env\<rparr>) = (Inl err, w2)
     \<and> w_index w2 = w_index w1 \<and> w_pointers w2 = w_pointers w1
     \<and> (\<forall>q w3. stores_agree w2 w3 \<longrightarrow> normalize_agent_id rt (rsq_agent_id q) = Inr (rp_agent_id resp) \<longrightarrow>
          (\<exists>d. fst (resolve rt (resolver_of rt cfg) q w3) = Inl d))"
proof -
  obtain agent "record" row where pub: "validate_register_request rt req = Inr agent"
    "published rt (cf_facts_dir cfg) w1 agent (rq_facts req) record row"
    "record_commits rt (cf_private_key cfg) req agent (fs_pointer (rq_facts req)) record"
    "agent_id_hash rt agent = Inr (hash128 agent)"
    using register_publishes [OF assms(1-3)] by blast
  have id: "rp_agent_id resp = agent"
    using assms(1) pub(1) by (auto simp: register_Inr make_response_def)
  have ptr: "p_facts_ptr_hash128 (payload_of record) = pointer_hash128 (fs_pointer (rq_facts req))"
    using pub(3) by (simp add: record_commits_def)
  let ?w2 = "w1\<lparr>w_env := env, w_disk := (w_disk w1)(facts_file cfg (rq_facts req) := Some [])\<rparr>"
  have fails: "register rt (registration_of rt cfg) req (w1\<lparr>w_env := env\<rparr>) =
      (Inl (wrap_err ''store agent facts'' (wrap_err ''write facts file'' (ErrNew e))), ?w2)"
    using register_write_fails [OF pub(1), of "w1\<lparr>w_env := env\<rparr>" e "Some []" cfg] assms(4-6) by simp
  have "\<exists>d. fst (resolve rt (resolver_of rt cfg) q w3) = Inl d"
    if "stores_agree ?w2 w3" and "normalize_agent_id rt (rsq_agent_id q) = Inr agent" for q w3
    by (rule lost_document_unresolved [OF pub(2) ptr pub(4) _ _ _ _ that(2), of w3 "[]"])
      (use that(1) in \<open>simp_all add: stores_agree_def decode_facts_empty\<close>)
  with fails id show ?thesis by auto
qed

definition full_disk :: server_env where
  "full_disk = sample_env\<lparr>se_fs := \<lparr>fs_ctx = None, fs_mkdir = None,
     fs_write = Some (''no space left on device'', Some []), fs_read = None\<rparr>\<rparr>"

theorem failed_rewrite_loses_document_witness:
  "\<exists>resp w1 err w2 d. register sample_runtime (registration_of sample_runtime sample_config) sample_request sample_world
       = (Inr resp, w1)
     \<and> register sample_runtime (registration_of sample_runtime sample_config) sample_request (w1\<lparr>w_env := full_disk\<rparr>)
       = (Inl err, w2)
     \<and> fst (resolve sample_runtime (resolver_of sample_runtime sample_config) sample_resolve (w2\<lparr>w_env := sample_env\<rparr>)) = Inl d"
proof -
  obtain resp w1 where r: "register sample_runtime (registration_of sample_runtime sample_config) sample_request
      sample_world = (Inr resp, w1)" "rp_agent_id resp = ''a''"
    by (rule sample_registered)
  have hyps: "index_wf sample_runtime (w_index sample_world)" "fs_ctx (se_fs full_disk) = None"
    "fs_mkdir (se_fs full_disk) = None" "fs_write (se_fs full_disk) = Some (''no space left on device'', Some [])"
    by (simp_all add: full_disk_def)
  obtain err w2 where w2: "register sample_runtime (registration_of sample_runtime sample_config) sample_request
       (w1\<lparr>w_env := full_disk\<rparr>) = (Inl err, w2)"
    and lost: "\<And>q w3. stores_agree w2 w3 \<Longrightarrow> normalize_agent_id sample_runtime (rsq_agent_id q) = Inr (rp_agent_id resp) \<Longrightarrow>
       \<exists>d. fst (resolve sample_runtime (resolver_of sample_runtime sample_config) q w3) = Inl d"
    using failed_rewrite_loses_document [OF r(1) hyps(1) sample_lower hyps(2-4)] by blast
  have "stores_agree w2 (w2\<lparr>w_env := sample_env\<rparr>)" "normalize_agent_id sample_runtime (rsq_agent_id sample_resolve) = Inr (rp_agent_id resp)"
    using r(2) by (simp_all add: stores_agree_def sample_resolve_def)
  with lost r(1) w2 show ?thesis by blast
qed

end
