(* ===== verification/Spec2Isabelle.thy ===== *)
theory Spec2Isabelle
  imports Record_Properties Store_Properties System_Properties
begin

text \<open>
  NANDA is an index of agents in Go, used like a name server. An operator registers an agent with a
  document, its agent facts; the server stores the document, signs a record of 120 bytes that
  commits to the document's location and to its credentials, and keeps the record under the hash
  of the agent's id with a sequence number that may only grow. A client that resolves an agent gets
  the preferred endpoint of the document, after the server has checked the record, its freshness,
  the document and, when a capability is asked for, the credentials and their revocation. Every
  registration, resolution and revocation is an event of a hash-chained audit log.

  \<^bold>\<open>Theories and code.\<close> Every definition keeps the name of the Go function, in snake case.
  \<^item> \<open>Prelude\<close>, \<open>Go_Strings\<close>, \<open>Go_Encoding\<close>, \<open>Go_Sha256\<close>, \<open>Go_Time\<close>, \<open>Go_Time_Parse\<close>, \<open>Go_Json\<close>, \<open>Go_Json_Read\<close>,
    \<open>Go_Json_Values\<close>, \<open>Go_Json_Struct\<close>, \<open>Go_Url\<close>, \<open>Go_Errors\<close>, \<open>Go_Filepath\<close>: what the program uses of
    Go. A \<open>[n]byte\<close> is a word of 8n bits, a \<open>[]byte\<close> and a \<open>string\<close> are lists of characters below 256;
    UTF-8 decoding, hexadecimal, base64, SHA-256, the quoting of \<open>%q\<close>, RFC 3339 in both directions with
    all that \<open>time.Parse\<close> lets through, JSON printing, JSON reading (the scanner's grammar, unquoting,
    \<open>Decoder.Decode\<close> into \<open>any\<close>, \<open>json.Valid\<close>, and decoding into structs, slices, maps, integers, times
    and raw messages), \<open>url.ParseRequestURI\<close> with \<open>netip.ParseAddr\<close> for IPv6 hosts, error chains with
    \<open>errors.Is\<close>, and \<open>filepath.Clean\<close> are written out. A time is a number of nanoseconds with a zone.
  \<^item> \<open>Agent_Addr\<close> (internal/agentaddr) the record; \<open>Agent_Facts\<close> (internal/agentfacts) the document and
    the credential-set commitment; \<open>Trust_Verifier\<close> (internal/trust); \<open>Revocation_Store\<close>
    (internal/revocation); \<open>Wire_Types\<close> the types that cross packages, \<open>Wire_Decoding\<close> how a
    facts document is decoded.
  \<^item> \<open>Audit_Log\<close>, \<open>Audit_Documents\<close>, \<open>Audit_Stores\<close>, \<open>Audit_Concurrent\<close> (internal/audit): events, the
    documents that are logged, the memory and Postgres stores, and \<open>Append\<close> as the steps of several
    transactions that run at once.
  \<^item> \<open>Index_Store\<close>, \<open>Index_Concurrent\<close>, \<open>Index_Serial\<close> (internal/index): \<open>Put\<close> as one transaction, as the
    steps of several transactions that run at once, and the second against the first.
  \<^item> \<open>Serial_Runs\<close>: when a state machine of interleaved calls is serialisable.
  \<^item> \<open>Facts_Store\<close> (internal/facts): the content-addressed files and the pointer table.
  \<^item> \<open>Store_Interfaces\<close>: the Go interfaces as records of functions; \<open>Registration_Service\<close>,
    \<open>Resolver_Service\<close>, \<open>Admin_Service\<close> (internal/registration, resolver, admin) over them.
  \<^item> \<open>Request_Bodies\<close>: how the bodies of the POST requests are decoded, and what a client prints.
  \<^item> \<open>Http_Model\<close>, \<open>Api\<close> (internal/api), \<open>Observability\<close> (internal/observability), \<open>Config\<close>
    (internal/config), \<open>Server\<close> (cmd/nanda-server): the handlers as functions from a request and the
    state to writer calls and the new state, the metrics, the configuration, and the wiring of all
    stores into one \<open>server_world\<close>.
  \<^item> \<open>Schema\<close> (migrations): the constraints of the tables. \<open>Server_Kept\<close>: what every request keeps;
    \<open>Server_Invariants\<close>: the invariant of all stores together.
  \<^item> \<open>Server_Facts\<close>, \<open>Server_Effects\<close>, \<open>Server_Http\<close>: lemmas about the assembled server. \<open>Samples\<close>: the
    concrete instance on which the witnesses rest. \<open>Record_Properties\<close>, \<open>Store_Properties\<close>,
    \<open>Service_Properties\<close>, \<open>Http_Properties\<close>, \<open>System_Properties\<close> and this theory: the properties.

  \<^bold>\<open>State, errors, effects.\<close> A store is a map or a table (a list of rows, a partial function from the
  key), an operation returns its result with the new store, \<open>Inl\<close> is a Go error. The faults of the
  environment are arguments: \<open>db_error option\<close> for a statement, a function from the stages of a
  transaction for a longer one, \<open>fs_env\<close> for the disk; \<open>server_env\<close> collects them for a request. A
  transaction that fails leaves the table as it was, which is what a rollback does.

  \<^bold>\<open>Interfaces.\<close> The locales \<open>revocation_store\<close>, \<open>audit_store\<close>, \<open>index_store\<close>, \<open>facts_store\<close>,
  \<open>pointer_store\<close> state what clients rely on; \<open>facts_catalog\<close> joins the last two, \<open>observed_store\<close> is
  the counting wrapper, again an \<open>audit_store\<close>. Each is interpreted on the model's Postgres or disk
  definitions, and on the memory store where there is one. \<open>serialisable\<close> is interpreted on the
  transactions of \<open>Put\<close> and on those of \<open>Append\<close>. \<open>kept_by_requests\<close> and \<open>kept_by_server\<close> carry a relation
  from the operations of the services to every route; they are interpreted for the request counters
  and for the evolution of the stores.

  \<^bold>\<open>What the lemmas show.\<close>
  \<^item> Wire formats: a document or request body that is printed is decoded to itself, one with an
    unknown member is refused, the canonical form of JSON is a fixed point.
  \<^item> Records: decoding accepts exactly the encodings of valid records, a signed record verifies under
    the key's public half, normalisation is idempotent and the id hash respects it.
  \<^item> Documents and trust: validation and verification are equivalent to declarative conditions; the
    commitment does not depend on the order of credentials; a revoked credential, or one whose status
    cannot be read, is never trusted.
  \<^item> Stores: the audit chain stays valid and two logs with one last hash are equal up to a SHA-256
    collision; Postgres answers queries as the memory store does; the index refines a map that
    accepts only newer sequences; concurrent \<open>Put\<close> calls on an agent with a record, and concurrent
    \<open>Append\<close> calls, do what some order of single calls does, so the chain cannot fork; a fact file stays below the root and
    reads back as written.
  \<^item> Services: what a registration leaves in every store, when exactly a resolution succeeds, how long
    its answer may be cached, which denials are logged; a registration can then be resolved; a client is only sent to an https
    URL.
  \<^item> Runs of requests: the stores stay consistent with each other and with the schema, nothing recorded
    is lost, every indexed agent leads to its document, and a registered agent stays resolvable; a
    write of the disk that fails half way is the exception, and what it undoes is a theorem.
  \<^item> Server: no access without the token, statuses, request ids, exact counters, start and migrations; the order
    in which Go visits the map of trusted issuers has no effect.

  \<^bold>\<open>Parameters.\<close> The record \<open>runtime\<close> holds what is not code of the repository and has no useful
  definition here: Ed25519, the Unicode lower-case table (\<open>lower_ok\<close>: it is idempotent and makes no
  spaces), the table of printable characters, and the texts of JSON errors. \<open>keypair_ok\<close> says that a
  signature made with a key verifies. The database is trusted to do what its statements say; for \<open>jsonb\<close> the model asks only that the canonical form of a plain
  document (at most four levels, numbers in digits) comes back with the same canonical form.
  \<^bold>\<open>Bounds.\<close> TTLs are words of 16 bits, sequences of 32, counters of 64; durations are 64-bit and their
  overflow is checked where the code multiplies. No fuel is used: all loops are structural or have a
  measure.

  \<^bold>\<open>Not modelled.\<close> \<open>main\<close>, which prints the error of \<open>run\<close>; the listener's goroutine and the signals (how the
  server stops is an argument of \<open>run\<close>), the log lines, mutexes (each operation is atomic), the rounding of float latencies, contexts
  and cancellation other than as database errors, the indexes and defaults of the schema,
  the interleaving of whole requests (\<open>serve\<close> answers one after another; what interleaves in the model are the
  transactions of \<open>Put\<close> and \<open>Append\<close>), redirects of unclean paths by the mux, and the
  SQL text, of which the model has the meaning.
\<close>

section \<open>The server\<close>

text \<open>C1: A valid registration with a sequence above the current one succeeds when no store
  fails, and every resolve request for the agent that then arrives while the record is fresh,
  the document valid and the asked-for capability trusted is answered with the best endpoint
  of the registered document and the registered sequence.\<close>

theorem registration_then_resolution:
  assumes "validate_register_request rt rreq = Inr agent_id"
    and "index_wf rt (w_index w)" and "lower_ok (rt_lower rt)"
    and "config_ok cfg" and "keypair_ok rt (cf_private_key cfg)"
    and "writes_ready (w_env w)" and "audit_ready (se_audit (w_env w))"
    and "decode_facts rt (rq_facts rreq) = Inr facts"
    and "credential_set_hash128 (af_credentials facts) = Inr cs"
    and "newer_than_current (w_index w) (hash128 agent_id) (rq_sequence rreq)"
  shows "\<exists>rresp w1. register rt (registration_of rt cfg) rreq w = (Inr rresp, w1)
     \<and> rp_agent_id rresp = agent_id
     \<and> (\<forall>w2 req. stores_agree w1 w2 \<longrightarrow>
          may_resolve rt cfg rreq agent_id facts (ie_now (se_index_put (w_env w))) w2 req \<longrightarrow>
          (\<exists>resp w3. resolve rt (resolver_of rt cfg) req w2 = (Inr resp, w3)
             \<and> rsp_agent_id resp = agent_id \<and> select_endpoint facts = Some (rsp_endpoint resp)
             \<and> cm_source_sequence (rsp_cache resp) = rq_sequence rreq))"
proof -
  have key: "length (cf_private_key cfg) = ed_private_key_size"
    using assms(4) by (simp add: config_ok_def)
  have ix: "index_ready (se_index_put (w_env w))"
    using assms(6) by (simp add: writes_ready_def)
  obtain rresp w1 where reg: "register rt (registration_of rt cfg) rreq w = (Inr rresp, w1)"
    and id: "rp_agent_id rresp = agent_id"
    using register_succeeds [OF assms(1-3) key assms(6-10)] by blast
  note resolves = may_resolve_resolves [OF reg assms(2-5) ix _ assms(8), unfolded id, OF assms(10)]
  show ?thesis
    by (intro exI [of _ rresp] exI [of _ w1] conjI reg id allI impI) (rule resolves)
qed

theorem registration_then_resolution_witness:
  "\<exists>rresp w1 resp w3.
     register sample_runtime (registration_of sample_runtime sample_config) sample_request sample_world
       = (Inr rresp, w1)
     \<and> resolve sample_runtime (resolver_of sample_runtime sample_config) sample_resolve
         (w1\<lparr>w_env := sample_env, w_revocations := Map.empty\<rparr>) = (Inr resp, w3)
     \<and> rsp_agent_id resp = ''a''"
proof -
  obtain cs where cs: "credential_set_hash128 (af_credentials sample_facts) = Inr cs"
    using sample_set_hash by blast
  have hyps: "validate_register_request sample_runtime sample_request = Inr ''a''"
    "index_wf sample_runtime (w_index sample_world)" "lower_ok (rt_lower sample_runtime)"
    "writes_ready (w_env sample_world)" "audit_ready (se_audit (w_env sample_world))"
    "decode_facts sample_runtime (rq_facts sample_request) = Inr sample_facts"
    "newer_than_current (w_index sample_world) (hash128 ''a'') (rq_sequence sample_request)"
    by (simp_all add: newer_than_current_def sample_lower_ok)
  obtain rresp w1 where r: "register sample_runtime (registration_of sample_runtime sample_config) sample_request
        sample_world = (Inr rresp, w1)"
    and all: "\<forall>w2 req. stores_agree w1 w2 \<longrightarrow>
          may_resolve sample_runtime sample_config sample_request ''a'' sample_facts
            (ie_now (se_index_put (w_env sample_world))) w2 req \<longrightarrow>
          (\<exists>resp w3. resolve sample_runtime (resolver_of sample_runtime sample_config) req w2 = (Inr resp, w3)
             \<and> rsp_agent_id resp = ''a'' \<and> select_endpoint sample_facts = Some (rsp_endpoint resp)
             \<and> cm_source_sequence (rsp_cache resp) = rq_sequence sample_request)"
    using registration_then_resolution [OF hyps(1-3) sample_config_ok sample_config_keypair
        hyps(4-6) cs hyps(7)] by blast
  have "stores_agree w1 (w1\<lparr>w_env := sample_env, w_revocations := Map.empty\<rparr>)"
    by (simp add: stores_agree_def)
  with all sample_may_resolve [of Map.empty w1] r show ?thesis by blast
qed

end
